(* ===== verification/Prelude.thy ===== *)
theory Prelude
  imports Main "HOL-Library.Word" "HOL-Library.List_Lexorder" "HOL-Library.Char_ord"
begin

text \<open>
  Shared vocabulary of the development.

  A Go call that returns \<open>(T, error)\<close> and may panic is a value of \<open>'a result\<close>; a
  call that also reads and writes the chain is an action \<open>('w, 'a) act\<close>, which returns
  the outcome together with the state it leaves behind, on every outcome. \<open>bindA\<close> is the
  code's \<open>if err != nil { return err }\<close> chain, \<open>withLocal\<close> runs a loop whose closure
  captures local variables, \<open>safeExec\<close>-like recovery is written with the primitive
  outcomes. Machine integers are words, byte slices are lists of 8-bit words, Go's slice and
  index expressions are \<open>go_slice\<close> and \<open>go_index\<close> with their panics.
\<close>

section \<open>Types\<close>

type_synonym byte = "8 word"
type_synonym bytes = "8 word list"
type_synonym u64 = "64 word"
type_synonym u32 = "32 word"
type_synonym address = "8 word list"

text \<open>
  Error values. The first four are the module's registered errors; the others are the
  errors of the SDK, staking, wasm and gov packages which the code returns or compares with.
  \<open>ErrOther\<close> stands for any further error a collaborator returns. The text that
  \<open>Wrap\<close> and \<open>Wrapf\<close> add to an error is dropped: the cause is kept.
\<close>

datatype error =
    ErrInvalid | ErrMaxCapExceeded | ErrUnsupported | ErrUnknown
  | ErrInvalidCoins | ErrInvalidRequest | ErrInvalidAddress | ErrUnauthorized
  | ErrJSONUnmarshal | ErrPanic
  | ErrNoValidatorFound | ErrNoDelegation | ErrNoDelegatorForAddress
  | ErrUnknownMsg | ErrInvalidSigner | ErrUnsupportedRequest | ErrOther string

datatype 'a result = Ok 'a | Err error | Panic

type_synonym ('w, 'a) act = "'w \<Rightarrow> 'a result \<times> 'w"

named_theorems act_simps "unfolding of the action combinators"
named_theorems ok_iffs "when a result is Ok"

section \<open>Results\<close>

definition bindR :: "'a result \<Rightarrow> ('a \<Rightarrow> 'b result) \<Rightarrow> 'b result" where
  "bindR r f = (case r of Ok x \<Rightarrow> f x | Err e \<Rightarrow> Err e | Panic \<Rightarrow> Panic)"

definition mustR :: "'a result \<Rightarrow> 'a result" where
  "mustR r = (case r of Ok x \<Rightarrow> Ok x | Err e \<Rightarrow> Panic | Panic \<Rightarrow> Panic)"

text \<open>Reading a number through a nil pointer panics.\<close>

definition nonNil :: "int option \<Rightarrow> int result" where
  "nonNil a = (case a of Some n \<Rightarrow> Ok n | None \<Rightarrow> Panic)"

lemma bindR_simps [simp]:
  "bindR (Ok x) f = f x" "bindR (Err e) f = Err e" "bindR Panic f = Panic"
  by (simp_all add: bindR_def)

lemma bindR_Ok_iff [ok_iffs]: "bindR r f = Ok y \<longleftrightarrow> (\<exists>x. r = Ok x \<and> f x = Ok y)"
  by (cases r) auto

lemma mustR_simps [simp]: "mustR (Ok x) = Ok x" "mustR (Err e) = Panic" "mustR Panic = Panic"
  by (simp_all add: mustR_def)

lemma mustR_Ok_iff [ok_iffs]: "mustR r = Ok y \<longleftrightarrow> r = Ok y"
  by (cases r) auto

lemma mustR_not_Err [simp]: "mustR r \<noteq> Err e"
  by (cases r) auto

lemma nonNil_simps [simp]: "nonNil (Some n) = Ok n" "nonNil None = Panic"
  by (simp_all add: nonNil_def)

lemma nonNil_Ok_iff [ok_iffs]: "nonNil a = Ok n \<longleftrightarrow> a = Some n"
  by (cases a) auto

lemma nonNil_not_Err [simp]: "nonNil a \<noteq> Err e"
  by (cases a) auto

section \<open>Actions\<close>

definition ret :: "'a \<Rightarrow> ('w, 'a) act" where
  "ret x = (\<lambda>s. (Ok x, s))"

definition fail :: "error \<Rightarrow> ('w, 'a) act" where
  "fail e = (\<lambda>s. (Err e, s))"

definition panic :: "('w, 'a) act" where
  "panic = (\<lambda>s. (Panic, s))"

definition liftR :: "'a result \<Rightarrow> ('w, 'a) act" where
  "liftR r = (\<lambda>s. (r, s))"

definition bindA :: "('w, 'a) act \<Rightarrow> ('a \<Rightarrow> ('w, 'b) act) \<Rightarrow> ('w, 'b) act" where
  "bindA m f = (\<lambda>s. case m s of
      (Ok x, s') \<Rightarrow> f x s' | (Err e, s') \<Rightarrow> (Err e, s') | (Panic, s') \<Rightarrow> (Panic, s'))"

text \<open>Reading the state, and replacing it.\<close>

definition withState :: "('w \<Rightarrow> ('w, 'a) act) \<Rightarrow> ('w, 'a) act" where
  "withState f = (\<lambda>s. f s s)"

definition modify :: "('w \<Rightarrow> 'w) \<Rightarrow> ('w, unit) act" where
  "modify f = (\<lambda>s. (Ok (), f s))"

text \<open>
  A loop whose body is a closure: the captured variables are the first component of the
  state the body runs on. Their final values reach the continuation.
\<close>

definition withLocal ::
    "'l \<Rightarrow> ('l \<times> 'w, 'a) act \<Rightarrow> ('l \<Rightarrow> ('w, 'b) act) \<Rightarrow> ('w, 'b) act" where
  "withLocal l m k = (\<lambda>s. case m (l, s) of
      (Ok x, (l', s')) \<Rightarrow> k l' s' | (Err e, (l', s')) \<Rightarrow> (Err e, s') | (Panic, (l', s')) \<Rightarrow> (Panic, s'))"

text \<open>An action of the chain inside a closure leaves the captured variables alone.\<close>

definition onChain :: "('w, 'a) act \<Rightarrow> ('l \<times> 'w, 'a) act" where
  "onChain m = (\<lambda>(l, s). case m s of (r, s') \<Rightarrow> (r, (l, s')))"

text \<open>\<open>if err := m(); err != nil { x = err }\<close>: the error becomes a value.\<close>

definition attempt :: "('w, unit) act \<Rightarrow> ('w, error option) act" where
  "attempt m = (\<lambda>s. case m s of
      (Ok x, s') \<Rightarrow> (Ok None, s') | (Err e, s') \<Rightarrow> (Ok (Some e), s') | (Panic, s') \<Rightarrow> (Panic, s'))"

text \<open>\<open>x, err := m()\<close> where the error is looked at later, or not at all.\<close>

definition caught :: "('w, 'a) act \<Rightarrow> ('w, 'a result) act" where
  "caught m = (\<lambda>s. case m s of
      (Ok x, s') \<Rightarrow> (Ok (Ok x), s') | (Err e, s') \<Rightarrow> (Ok (Err e), s') | (Panic, s') \<Rightarrow> (Panic, s'))"

text \<open>Assigning the captured variables; the assignment may fail or panic.\<close>

definition updLocal :: "('l \<Rightarrow> 'l result) \<Rightarrow> ('l \<times> 'w, unit) act" where
  "updLocal f = (\<lambda>(l, s). case f l of
      Ok l' \<Rightarrow> (Ok (), (l', s)) | Err e \<Rightarrow> (Err e, (l, s)) | Panic \<Rightarrow> (Panic, (l, s)))"

lemma updLocal_apply [act_simps]:
  "updLocal f (l, s) = (case f l of
      Ok l' \<Rightarrow> (Ok (), (l', s)) | Err e \<Rightarrow> (Err e, (l, s)) | Panic \<Rightarrow> (Panic, (l, s)))"
  by (simp add: updLocal_def)

lemma act_apply [act_simps]:
  "ret x s = (Ok x, s)" "fail e s = (Err e, s)" "panic s = (Panic, s)" "liftR r s = (r, s)"
  "withState f s = f s s" "modify g s = (Ok (), g s)"
  by (simp_all add: ret_def fail_def panic_def liftR_def withState_def modify_def)

lemma bindA_ret [act_simps]: "bindA (ret x) f = f x"
  by (simp add: bindA_def ret_def)

lemma bindA_liftR [act_simps]:
  "bindA (liftR (Ok x)) f = f x" "bindA (liftR (Err e)) f = fail e"
  "bindA (liftR Panic) f = panic"
  by (simp_all add: bindA_def liftR_def fail_def panic_def)

lemma bindA_Ok: "m s = (Ok x, s') \<Longrightarrow> bindA m f s = f x s'"
  by (simp add: bindA_def)

lemma bindA_Err: "m s = (Err e, s') \<Longrightarrow> bindA m f s = (Err e, s')"
  by (simp add: bindA_def)

lemma bindA_Panic: "m s = (Panic, s') \<Longrightarrow> bindA m f s = (Panic, s')"
  by (simp add: bindA_def)

lemma bindA_Ok_iff [ok_iffs]:
  "bindA m f s = (Ok y, t) \<longleftrightarrow> (\<exists>x s'. m s = (Ok x, s') \<and> f x s' = (Ok y, t))"
  by (auto simp: bindA_def split: prod.splits result.splits)

lemma liftR_Ok_iff [ok_iffs]: "liftR r s = (Ok y, t) \<longleftrightarrow> r = Ok y \<and> t = s"
  by (auto simp: liftR_def)

lemma onChain_apply [act_simps]: "onChain m (l, s) = (fst (m s), (l, snd (m s)))"
  by (simp add: onChain_def split: prod.split)

text \<open>An action keeps a property of the state when it does so on every outcome.\<close>

definition preserves :: "('w \<Rightarrow> bool) \<Rightarrow> ('w, 'a) act \<Rightarrow> bool" where
  "preserves P m \<longleftrightarrow> (\<forall>s. P s \<longrightarrow> P (snd (m s)))"

lemma preservesI: "(\<And>s. P s \<Longrightarrow> P (snd (m s))) \<Longrightarrow> preserves P m"
  by (simp add: preserves_def)

lemma preservesD: "preserves P m \<Longrightarrow> P s \<Longrightarrow> m s = (r, s') \<Longrightarrow> P s'"
  unfolding preserves_def by (metis snd_conv)

lemma preserves_basic [intro, simp]:
  "preserves P (ret x)" "preserves P (fail e)" "preserves P panic" "preserves P (liftR r)"
  by (simp_all add: preserves_def act_simps)

lemma preserves_bindA [intro]:
  assumes "preserves P m" and "\<And>x. preserves P (f x)"
  shows "preserves P (bindA m f)"
  using assms by (auto simp: preserves_def bindA_def split: prod.splits result.splits)

lemma preserves_withState [intro]:
  assumes "\<And>s. P s \<Longrightarrow> P (snd (f s s))"
  shows "preserves P (withState f)"
  using assms by (simp add: preserves_def act_simps)

lemma preserves_modify [intro]: "(\<And>s. P s \<Longrightarrow> P (g s)) \<Longrightarrow> preserves P (modify g)"
  by (simp add: preserves_def act_simps)

lemma preserves_withLocal [intro]:
  assumes "preserves (\<lambda>(l, s). P s) m" and "\<And>l. preserves P (k l)"
  shows "preserves P (withLocal l m k)"
proof (rule preservesI)
  fix s assume "P s"
  obtain r l' s' where m: "m (l, s) = (r, (l', s'))"
    by (metis prod_cases3)
  have "P s'"
    using preservesD [OF assms(1) _ m] \<open>P s\<close> by simp
  then show "P (snd (withLocal l m k s))"
    using assms(2) [of l'] m
    by (auto simp: withLocal_def preserves_def split: result.split)
qed

section \<open>Slices\<close>

definition go_index :: "'a list \<Rightarrow> nat \<Rightarrow> 'a result" where
  "go_index xs i = (if i < length xs then Ok (xs ! i) else Panic)"

text \<open>\<open>xs[lo:hi]\<close>; the slices here have no spare capacity behind their length.\<close>

definition go_slice :: "'a list \<Rightarrow> nat \<Rightarrow> nat \<Rightarrow> 'a list result" where
  "go_slice xs lo hi =
     (if lo \<le> hi \<and> hi \<le> length xs then Ok (take (hi - lo) (drop lo xs)) else Panic)"

text \<open>\<open>copy(r[off:], src)\<close> with \<open>off\<close> inside the buffer: it never writes past the end.\<close>

definition go_copy_at :: "'a list \<Rightarrow> nat \<Rightarrow> 'a list \<Rightarrow> 'a list result" where
  "go_copy_at r off src =
     (if off \<le> length r
      then Ok (take off r @ take (length r - off) src @ drop (off + length src) r)
      else Panic)"

definition go_store :: "'a list \<Rightarrow> nat \<Rightarrow> 'a \<Rightarrow> 'a list result" where
  "go_store r i x = (if i < length r then Ok (r[i := x]) else Panic)"

lemma go_index_Ok_iff [ok_iffs]: "go_index xs i = Ok x \<longleftrightarrow> i < length xs \<and> xs ! i = x"
  by (auto simp: go_index_def)

lemma go_slice_append:
  "lo = length a \<Longrightarrow> hi = length a + length b \<Longrightarrow> go_slice (a @ b @ c) lo hi = Ok b"
  by (simp add: go_slice_def)

lemma go_copy_at_append:
  assumes "off = length a" and "n = length src"
  shows "go_copy_at (a @ replicate n z @ c) off src = Ok (a @ src @ c)"
  using assms by (simp add: go_copy_at_def)

lemma go_store_append: "i = length a \<Longrightarrow> go_store (a @ y # c) i x = Ok (a @ x # c)"
  by (simp add: go_store_def)

section \<open>Big-endian integers\<close>

text \<open>\<open>binary.BigEndian.PutUint64\<close> and \<open>binary.BigEndian.Uint64\<close>.\<close>

definition Uint64ToBigEndian :: "u64 \<Rightarrow> bytes" where
  "Uint64ToBigEndian n = map (\<lambda>i. ucast (drop_bit (8 * i) n)) [7, 6, 5, 4, 3, 2, 1, 0]"

definition beFold :: "bytes \<Rightarrow> u64" where
  "beFold bz = fold (\<lambda>b acc. push_bit 8 acc + ucast b) bz 0"

definition BigEndianToUint64 :: "bytes \<Rightarrow> u64 result" where
  "BigEndianToUint64 bz =
     (if bz = [] then Ok 0
      else if length bz < 8 then Panic
      else Ok (beFold (take 8 bz)))"

lemma length_Uint64ToBigEndian [simp]: "length (Uint64ToBigEndian n) = 8"
  by (simp add: Uint64ToBigEndian_def)

text \<open>
  The number a byte list spells out. Byte lists of one length are ordered
  lexicographically as the numbers they spell: this is why the code stores heights
  big-endian in its keys.
\<close>

fun be_value :: "bytes \<Rightarrow> nat" where
  "be_value [] = 0"
| "be_value (b # bs) = unat b * 256 ^ length bs + be_value bs"

lemma unat_byte: "unat (b :: byte) < 256"
  using unsigned_less [of b] by simp

lemma be_value_less: "be_value bs < 256 ^ length bs"
proof (induction bs)
  case (Cons b bs)
  have "unat b * 256 ^ length bs + be_value bs < unat b * 256 ^ length bs + 256 ^ length bs"
    using Cons by simp
  also have "\<dots> = (unat b + 1) * 256 ^ length bs"
    by (simp add: algebra_simps)
  also have "\<dots> \<le> 256 * 256 ^ length bs"
    using unat_byte [of b] by (intro mult_right_mono) auto
  finally show ?case by simp
qed simp

lemma be_value_less_iff:
  "length xs = length ys \<Longrightarrow> be_value xs < be_value ys \<longleftrightarrow> xs < ys"
proof (induction xs ys rule: list_induct2)
  case (Cons x xs y ys)
  have bound: "be_value xs < 256 ^ length ys" "be_value ys < 256 ^ length ys"
    using be_value_less [of xs] be_value_less [of ys] Cons.hyps by simp_all
  have step: "a * m + p < b * m + q" if "a < b" "p < m" for a b m p q :: nat
  proof -
    have "a * m + p < (a + 1) * m" using that by (simp add: algebra_simps)
    also have "\<dots> \<le> b * m" using that by (intro mult_right_mono) auto
    finally show ?thesis by simp
  qed
  consider "unat x < unat y" | "unat x = unat y" | "unat y < unat x" by linarith
  then show ?case
  proof cases
    case 1
    with step [OF 1 bound(1)] show ?thesis
      using Cons.hyps by (simp add: word_less_nat_alt)
  next
    case 2
    then have "x = y" by (metis of_nat_unat ucast_id)
    with Cons show ?thesis by simp
  next
    case 3
    with step [OF 3 bound(2), of "be_value xs"] show ?thesis
      using Cons.hyps by (auto simp: word_less_nat_alt)
  qed
qed simp

lemma beFold_of_nat:
  "fold (\<lambda>b acc. push_bit 8 acc + ucast b) bz (of_nat a :: u64)
     = of_nat (a * 256 ^ length bz + be_value bz)"
proof (induction bz arbitrary: a)
  case (Cons b bz)
  have "push_bit 8 (of_nat a :: u64) + ucast b = of_nat (a * 256 + unat b)"
    by (simp add: push_bit_eq_mult)
  then show ?case
    using Cons [of "a * 256 + unat b"] by (simp add: algebra_simps)
qed simp

lemma beFold_eq: "beFold bz = of_nat (be_value bz)"
  using beFold_of_nat [of bz 0] by (simp add: beFold_def)

lemma be_value_Uint64ToBigEndian: "be_value (Uint64ToBigEndian n) = unat n"
proof -
  have byte: "unat (ucast (drop_bit k n) :: byte) = unat n div 2 ^ k mod 256" for k
    by (simp add: unsigned_ucast_eq unat_drop_bit_eq take_bit_eq_mod drop_bit_eq_div [where ?'a = nat])
  have join: "(N div m mod 256) * m + N mod m = N mod (256 * m)" for N m :: nat
    by (metis add.commute mod_mult2_eq mult.commute)
  have "unat n < 2 ^ 64"
    using unsigned_less [of n] by simp
  then show ?thesis
    using join[of "unat n" 1] join[of "unat n" "2^8"] join[of "unat n" "2^16"] join[of "unat n" "2^24"]
      join[of "unat n" "2^32"] join[of "unat n" "2^40"] join[of "unat n" "2^48"] join[of "unat n" "2^56"] byte [of 0]
    by (simp add: Uint64ToBigEndian_def byte)
qed
lemma BigEndian_roundtrip [simp]:
  "BigEndianToUint64 (Uint64ToBigEndian n) = Ok n"
proof -
  have "Uint64ToBigEndian n \<noteq> []"
    by (simp add: Uint64ToBigEndian_def)
  then show ?thesis
    by (simp add: BigEndianToUint64_def beFold_eq be_value_Uint64ToBigEndian)
qed

text \<open>Every eight bytes are the encoding of the number they spell.\<close>

lemma Uint64ToBigEndian_beFold:
  assumes "length bz = 8"
  shows "Uint64ToBigEndian (beFold bz) = bz"
proof -
  have "be_value (Uint64ToBigEndian (beFold bz)) = be_value bz"
    using be_value_less [of bz] assms
    by (simp add: be_value_Uint64ToBigEndian beFold_eq unat_of_nat)
  then show ?thesis
    using be_value_less_iff [of "Uint64ToBigEndian (beFold bz)" bz]
      be_value_less_iff [of bz "Uint64ToBigEndian (beFold bz)"] assms
    by auto
qed

lemma Uint64ToBigEndian_less_iff: "Uint64ToBigEndian a < Uint64ToBigEndian b \<longleftrightarrow> a < b"
  using be_value_less_iff [of "Uint64ToBigEndian a" "Uint64ToBigEndian b"]
  by (simp add: be_value_Uint64ToBigEndian word_less_nat_alt)

lemma Uint64ToBigEndian_inject [simp]: "Uint64ToBigEndian a = Uint64ToBigEndian b \<longleftrightarrow> a = b"
  by (metis Uint64ToBigEndian_less_iff neq_iff)

section \<open>Strings as bytes\<close>

definition bytes_of_string :: "string \<Rightarrow> bytes" where
  "bytes_of_string s = map (\<lambda>c. of_nat (of_char c)) s"

definition string_of_bytes :: "bytes \<Rightarrow> string" where
  "string_of_bytes bz = map (\<lambda>b. char_of (unat b)) bz"

lemma string_of_bytes_of_string [simp]: "string_of_bytes (bytes_of_string s) = s"
proof -
  have "char_of (unat (of_nat (of_char c) :: byte)) = c" for c :: char
  proof -
    have "(of_char c :: nat) < 256" by simp
    then have "unat (of_nat (of_char c) :: byte) = of_char c"
      by (simp add: unat_of_nat)
    then show ?thesis by simp
  qed
  then show ?thesis
    by (simp add: bytes_of_string_def string_of_bytes_def comp_def)
qed

lemma length_bytes_of_string [simp]: "length (bytes_of_string s) = length s"
  by (simp add: bytes_of_string_def)

lemma bytes_of_string_inject [simp]: "bytes_of_string s = bytes_of_string t \<longleftrightarrow> s = t"
  by (metis string_of_bytes_of_string)

lemma bytes_of_string_of_bytes [simp]: "bytes_of_string (string_of_bytes bz) = bz"
proof -
  have "of_nat (unat b mod 256) = b" for b :: byte
    using unat_byte [of b] by simp
  then show ?thesis
    by (simp add: bytes_of_string_def string_of_bytes_def comp_def)
qed

end
