(* ===== verification/Types.thy ===== *)
theory Types
  imports Prelude
begin

text \<open>
  The data of the modules: the message and report structs of \<open>x/meshsecurity/contract\<close>,
  the module parameters, the scheduler and valset operation codes of
  \<open>x/meshsecurity/types\<close>, the events of \<open>types/events.go\<close>, and the chain state the
  keepers work on. Fields keep the names of the Go structs, with a prefix where two structs
  share a field name.
\<close>

section \<open>SDK values the modules pass around\<close>

text \<open>
  \<open>sdk.Coin\<close>: the amount is a \<open>math.Int\<close>, whose inner pointer may be nil (\<open>None\<close>).
  \<open>sdk.Dec\<close> is an integer count of its 18th decimal place.
\<close>

record coin =
  denom :: string
  amount :: "int option"

type_synonym coins = "coin list"
type_synonym dec = int

abbreviation Coin :: "string \<Rightarrow> int option \<Rightarrow> coin" where
  "Coin d a \<equiv> \<lparr>denom = d, amount = a\<rparr>"

text \<open>The fields of \<open>stakingtypes.Validator\<close> that the modules read.\<close>

record validator =
  OperatorAddress :: string
  ValBonded :: bool
  DelegatorShares :: dec
  CommissionRate :: dec
  CommissionMaxRate :: dec
  CommissionMaxChangeRate :: dec

section \<open>Contract messages\<close>

text \<open>\<open>wasmvmtypes.Coin\<close>: the amount is a decimal string.\<close>

record wasm_coin =
  wdenom :: string
  wamount :: string

record bond_msg =
  bond_amount :: wasm_coin
  bond_validator :: string

record unbond_msg =
  unbond_amount :: wasm_coin
  unbond_validator :: string

record virtual_stake_msg =
  Bond :: "bond_msg option"
  Unbond :: "unbond_msg option"

record custom_msg =
  VirtualStake :: "virtual_stake_msg option"

record wasm_validator =
  wv_address :: string
  wv_commission :: string
  wv_max_commission :: string
  wv_max_change_rate :: string

record validator_slash =
  vs_ValidatorAddr :: string
  vs_Height :: u64
  vs_Time :: u64
  vs_InfractionHeight :: u64
  vs_InfractionTime :: u64
  vs_Power :: u64
  vs_SlashAmount :: string
  vs_SlashRatio :: string

record valset_update =
  Additions :: "wasm_validator list"
  Removals :: "string list"
  Updated :: "wasm_validator list"
  Jailed :: "string list"
  Unjailed :: "string list"
  Tombstoned :: "string list"
  Slashed :: "validator_slash list"

record sudo_msg =
  sudo_HandleEpoch :: bool  \<comment> \<open>a pointer to an empty struct: set or nil\<close>
  sudo_ValsetUpdate :: "valset_update option"

record virtual_stake_query =
  BondStatus :: "string option"  \<comment> \<open>the contract address of the query\<close>
  SlashRatio :: bool

record custom_query =
  QVirtualStake :: "virtual_stake_query option"

record bond_status_response =
  rsp_MaxCap :: wasm_coin
  rsp_Delegated :: wasm_coin

record slash_ratio_response =
  SlashFractionDowntime :: string
  SlashFractionDoubleSign :: string

datatype query_response =
  BondStatusResponse bond_status_response | SlashRatioResponse slash_ratio_response

section \<open>Module parameters and operation codes\<close>

record params =
  TotalContractsMaxCap :: coin
  EpochLength :: u32
  MaxGasEndBlocker :: u32

definition zeroParams :: params where
  "zeroParams = \<lparr>TotalContractsMaxCap = Coin '''' None, EpochLength = 0, MaxGasEndBlocker = 0\<rparr>"

type_synonym task_type = byte

definition SchedulerTaskUndefined :: task_type where "SchedulerTaskUndefined = 0"
definition SchedulerTaskHandleEpoch :: task_type where "SchedulerTaskHandleEpoch = 1"
definition SchedulerTaskValsetUpdate :: task_type where "SchedulerTaskValsetUpdate = 2"

type_synonym valset_op = byte

definition ValsetOperationUndefined :: valset_op where "ValsetOperationUndefined = 0"
definition ValidatorBonded :: valset_op where "ValidatorBonded = 1"
definition ValidatorUnbonded :: valset_op where "ValidatorUnbonded = 2"
definition ValidatorJailed :: valset_op where "ValidatorJailed = 3"
definition ValidatorTombstoned :: valset_op where "ValidatorTombstoned = 4"
definition ValidatorUnjailed :: valset_op where "ValidatorUnjailed = 5"
definition ValidatorModified :: valset_op where "ValidatorModified = 6"
definition ValidatorSlashed :: valset_op where "ValidatorSlashed = 7"

lemmas task_defs = SchedulerTaskUndefined_def SchedulerTaskHandleEpoch_def
  SchedulerTaskValsetUpdate_def

lemmas valset_op_defs = ValsetOperationUndefined_def ValidatorBonded_def ValidatorUnbonded_def
  ValidatorJailed_def ValidatorTombstoned_def ValidatorUnjailed_def ValidatorModified_def
  ValidatorSlashed_def

record slash_info =
  InfractionHeight :: u64  \<comment> \<open>int64 in the code; the same 64 bits\<close>
  Power :: u64
  TotalSlashAmount :: string
  SlashFraction :: string

definition ModuleName :: string where "ModuleName = ''meshsecurity''"

section \<open>Events\<close>

text \<open>
  An event is a type and a list of attributes. An attribute value keeps the typed value that
  the code prints into it.
\<close>

datatype attr_value =
  AText string | AAddr address | AVal address | AHeight u64 | AFlag bool | ACoin coin | AError error

record event =
  ev_type :: string
  ev_attrs :: "(string \<times> attr_value) list"

definition EmitSchedulerExecutionEvent :: "address \<Rightarrow> error option \<Rightarrow> event" where
  "EmitSchedulerExecutionEvent contractAddr err =
     \<lparr>ev_type = ''scheduler_execution'',
      ev_attrs =
        [(''module'', AText ModuleName),
         (''virtual_staking_contract'', AAddr contractAddr),
         (''execution_success'', AFlag (err = None))] @
        (case err of None \<Rightarrow> [] | Some e \<Rightarrow> [(''error'', AError e)])\<rparr>"

definition EmitSchedulerRegisteredEvent :: "address \<Rightarrow> u64 \<Rightarrow> bool \<Rightarrow> event" where
  "EmitSchedulerRegisteredEvent contractAddr nextExecBlock rep =
     \<lparr>ev_type = ''scheduler_registered'',
      ev_attrs =
        [(''module'', AText ModuleName),
         (''virtual_staking_contract'', AAddr contractAddr),
         (''next_exececution_block'', AHeight nextExecBlock),
         (''repeat'', AFlag rep)]\<rparr>"

definition EmitMaxCapLimitUpdatedEvent :: "address \<Rightarrow> coin \<Rightarrow> event" where
  "EmitMaxCapLimitUpdatedEvent contractAddr amt =
     \<lparr>ev_type = ''max_cap_limit_updated'',
      ev_attrs =
        [(''module'', AText ModuleName),
         (''virtual_staking_contract'', AAddr contractAddr),
         (''amount'', ACoin amt)]\<rparr>"

section \<open>The chain state\<close>

text \<open>
  What an \<open>sdk.Context\<close> gives access to: the module's persistent store
  (\<open>k.storeKey\<close>) and in-memory store (\<open>k.memKey\<close>), the state \<open>ext\<close> of every
  other module (bank, staking, slashing, wasm), the events emitted so far, and the block
  header. \<open>'s\<close> is the SDK's store type, \<open>'x\<close> the state of the other modules; both are
  opaque here. \<open>height\<close> and \<open>blockTime\<close> are int64 in Go: the words hold their bits,
  and the code's \<open>uint64(ctx.BlockHeight())\<close> keeps them.
\<close>

record ('s, 'x) chain =
  store :: 's
  mem :: 's
  ext :: 'x
  events :: "event list"
  height :: u64
  blockTime :: u64

definition emit :: "event \<Rightarrow> (('s, 'x) chain, unit) act" where
  "emit e = modify (\<lambda>s. s\<lparr>events := events s @ [e]\<rparr>)"

text \<open>
  \<open>ctx.CacheContext()\<close> runs on a branch of the state and \<open>done()\<close> writes the branch
  back, events included; without \<open>done()\<close> the branch is dropped. The header belongs to
  the context value and does not change.
\<close>

definition commitCache :: "('s, 'x) chain \<Rightarrow> ('s, 'x) chain \<Rightarrow> ('s, 'x) chain" where
  "commitCache p c = c\<lparr>height := height p, blockTime := blockTime p\<rparr>"

text \<open>
  A body that runs on a branch returns its result and whether it called \<open>done()\<close>.
\<close>

definition cacheContext :: "(('s, 'x) chain, 'a \<times> bool) act \<Rightarrow> (('s, 'x) chain, 'a) act" where
  "cacheContext body = (\<lambda>s. case body s of
      (Ok (x, committed), c) \<Rightarrow> (Ok x, if committed then commitCache s c else s)
    | (Err e, c) \<Rightarrow> (Err e, s)
    | (Panic, c) \<Rightarrow> (Panic, s))"

text \<open>An action of the other modules, run on the chain.\<close>

definition onExt :: "('x \<Rightarrow> 'a result \<times> 'x) \<Rightarrow> (('s, 'x) chain, 'a) act" where
  "onExt f = (\<lambda>s. case f (ext s) of (r, x) \<Rightarrow> (r, s\<lparr>ext := x\<rparr>))"

lemma emit_apply [act_simps]: "emit e s = (Ok (), s\<lparr>events := events s @ [e]\<rparr>)"
  by (simp add: emit_def act_simps)

lemma onExt_apply [act_simps]:
  "onExt f s = (fst (f (ext s)), s\<lparr>ext := snd (f (ext s))\<rparr>)"
  by (simp add: onExt_def split: prod.split)

lemma commitCache_simps [simp]:
  "store (commitCache p c) = store c" "mem (commitCache p c) = mem c"
  "ext (commitCache p c) = ext c" "events (commitCache p c) = events c"
  "height (commitCache p c) = height p" "blockTime (commitCache p c) = blockTime p"
  by (simp_all add: commitCache_def)

text \<open>A branch that does not commit leaves no trace.\<close>

lemma cacheContext_not_Ok:
  assumes "cacheContext body s = (r, t)" and "\<And>x. r \<noteq> Ok x"
  shows "t = s"
  using assms by (auto simp: cacheContext_def split: prod.splits result.splits)

lemma cacheContext_Ok_iff [ok_iffs]:
  "cacheContext body s = (Ok x, t) \<longleftrightarrow>
     (\<exists>committed c. body s = (Ok (x, committed), c) \<and> t = (if committed then commitCache s c else s))"
  by (auto simp: cacheContext_def split: prod.splits result.splits)

lemma onExt_Ok_iff [ok_iffs]:
  "onExt f s = (Ok x, t) \<longleftrightarrow> (\<exists>y. f (ext s) = (Ok x, y) \<and> t = s\<lparr>ext := y\<rparr>)"
  by (auto simp: onExt_def split: prod.splits)

end
