(* ===== verification/Sdk.thy ===== *)
theory Sdk
  imports Types
begin

text \<open>
  The code outside the repository that the modules call: the SDK's key/value stores, numbers,
  coins, addresses and codec, and the bank, staking, slashing and wasm keepers. All of it is
  one record of functions, \<open>('s, 'x) sdk\<close>, passed to every definition that uses it;
  nothing is assumed of it in the definitions. What the theorems rely on is stated in the
  locales at the end, one per collaborator: each law is behaviour those packages document.
  The field names are the package and function they stand for.

  A keeper of the module is this record too: \<open>authority\<close> is its own field, and
  \<open>bank_AddSupplyOffset\<close> and \<open>staking_InstantUndelegate\<close> are the two methods that
  the extended interfaces \<open>XBankKeeper\<close> and \<open>XStakingKeeper\<close> add to the SDK's (the
  repository's adapters provide them for the vanilla SDK, theory \<open>Stake\<close>).
\<close>

record ('s, 'x) sdk =
  \<comment> \<open>the keeper\<close>
  authority :: string
  \<comment> \<open>store/types KVStore, and store/prefix over it\<close>
  kv_Get :: "'s \<Rightarrow> bytes \<Rightarrow> bytes option"
  kv_Has :: "'s \<Rightarrow> bytes \<Rightarrow> bool"
  kv_Set :: "'s \<Rightarrow> bytes \<Rightarrow> bytes \<Rightarrow> 's"
  kv_Delete :: "'s \<Rightarrow> bytes \<Rightarrow> 's"
  kv_PrefixIterator :: "'s \<Rightarrow> bytes \<Rightarrow> (bytes \<times> bytes) list"
  \<comment> \<open>math.Int\<close>
  Int_Add :: "int \<Rightarrow> int \<Rightarrow> int result"
  Int_Marshal :: "int option \<Rightarrow> bytes result"
  Int_Unmarshal :: "bytes \<Rightarrow> int result"
  Int_String :: "int \<Rightarrow> string"
  Int_FromString :: "string \<Rightarrow> int option"
  \<comment> \<open>sdk.Coin, sdk.Coins\<close>
  Coin_New :: "string \<Rightarrow> int option \<Rightarrow> coin result"
  Coin_Add :: "coin \<Rightarrow> coin \<Rightarrow> coin result"
  Coin_Sub :: "coin \<Rightarrow> coin \<Rightarrow> coin result"
  Coin_IsLT :: "coin \<Rightarrow> coin \<Rightarrow> bool result"
  Coin_Validate :: "coin \<Rightarrow> unit result"
  Coins_New :: "coin \<Rightarrow> coins result"
  Coins_AmountOf :: "coins \<Rightarrow> string \<Rightarrow> int result"
  \<comment> \<open>sdk.Dec\<close>
  Dec_Quo :: "dec \<Rightarrow> dec \<Rightarrow> dec result"
  Dec_MulInt :: "dec \<Rightarrow> int \<Rightarrow> dec result"
  Dec_RoundInt :: "dec \<Rightarrow> int result"
  Dec_String :: "dec \<Rightarrow> string"
  \<comment> \<open>addresses\<close>
  AccAddressFromBech32 :: "string \<Rightarrow> address result"
  AccAddress_String :: "address \<Rightarrow> string"
  ValAddressFromBech32 :: "string \<Rightarrow> address result"
  ValAddress_String :: "address \<Rightarrow> string"
  MustLengthPrefix :: "bytes \<Rightarrow> bytes result"
  \<comment> \<open>codec and JSON\<close>
  cdc_MarshalParams :: "params \<Rightarrow> bytes result"
  cdc_UnmarshalParams :: "bytes \<Rightarrow> params result"
  json_SudoMsg :: "sudo_msg \<Rightarrow> bytes result"
  json_CustomMsg :: "bytes \<Rightarrow> custom_msg result"
  json_CustomQuery :: "bytes \<Rightarrow> custom_query result"
  json_Response :: "query_response \<Rightarrow> bytes result"
  \<comment> \<open>wasmd conversions\<close>
  ConvertWasmCoinToSdkCoin :: "wasm_coin \<Rightarrow> coin result"
  ConvertSdkCoinToWasmCoin :: "coin \<Rightarrow> wasm_coin"
  \<comment> \<open>bank keeper\<close>
  bank_MintCoins :: "string \<Rightarrow> coins \<Rightarrow> 'x \<Rightarrow> unit result \<times> 'x"
  bank_BurnCoins :: "string \<Rightarrow> coins \<Rightarrow> 'x \<Rightarrow> unit result \<times> 'x"
  bank_SendCoinsFromAccountToModule :: "address \<Rightarrow> string \<Rightarrow> coins \<Rightarrow> 'x \<Rightarrow> unit result \<times> 'x"
  bank_SendCoinsFromModuleToAccount :: "string \<Rightarrow> address \<Rightarrow> coins \<Rightarrow> 'x \<Rightarrow> unit result \<times> 'x"
  bank_UndelegateCoinsFromModuleToAccount ::
    "string \<Rightarrow> address \<Rightarrow> coins \<Rightarrow> 'x \<Rightarrow> unit result \<times> 'x"
  bank_AddSupplyOffset :: "string \<Rightarrow> int \<Rightarrow> 'x \<Rightarrow> unit result \<times> 'x"
  \<comment> \<open>staking keeper\<close>
  staking_BondDenom :: "'x \<Rightarrow> string"
  staking_GetValidator :: "'x \<Rightarrow> address \<Rightarrow> validator option"
  staking_ValidatorByConsAddr :: "'x \<Rightarrow> address \<Rightarrow> validator option"
  staking_GetDelegation :: "'x \<Rightarrow> address \<Rightarrow> address \<Rightarrow> dec option"
  staking_ValidateUnbondAmount :: "'x \<Rightarrow> address \<Rightarrow> address \<Rightarrow> int \<Rightarrow> dec result"
  staking_Delegate :: "address \<Rightarrow> int \<Rightarrow> validator \<Rightarrow> 'x \<Rightarrow> dec result \<times> 'x"
  staking_Unbond :: "address \<Rightarrow> address \<Rightarrow> dec \<Rightarrow> 'x \<Rightarrow> int result \<times> 'x"
  staking_InstantUndelegate :: "address \<Rightarrow> address \<Rightarrow> dec \<Rightarrow> 'x \<Rightarrow> coins result \<times> 'x"
  staking_Slash :: "address \<Rightarrow> u64 \<Rightarrow> u64 \<Rightarrow> dec \<Rightarrow> 'x \<Rightarrow> int result \<times> 'x"
  staking_Jail :: "address \<Rightarrow> 'x \<Rightarrow> unit result \<times> 'x"
  staking_Unjail :: "address \<Rightarrow> 'x \<Rightarrow> unit result \<times> 'x"
  validator_GetOperator :: "validator \<Rightarrow> address result"
  \<comment> \<open>slashing keeper\<close>
  slashing_Tombstone :: "address \<Rightarrow> 'x \<Rightarrow> unit result \<times> 'x"
  slashing_SlashFractionDowntime :: "'x \<Rightarrow> dec"
  slashing_SlashFractionDoubleSign :: "'x \<Rightarrow> dec"
  \<comment> \<open>wasm keeper\<close>
  wasm_HasContractInfo :: "'x \<Rightarrow> address \<Rightarrow> bool"
  wasm_Sudo :: "address \<Rightarrow> bytes \<Rightarrow> (('s, 'x) chain, bytes) act"
  \<comment> \<open>running a call under a gas meter of its own: outcome, state and gas consumed\<close>
  gas_Metered :: "u64 \<Rightarrow> (('s, 'x) chain, unit) act \<Rightarrow> ('s, 'x) chain \<Rightarrow>
    (unit result \<times> ('s, 'x) chain) \<times> u64"

section \<open>The laws of the key/value store\<close>

text \<open>
  \<open>iter s p\<close> is what a prefix store's iterator \<open>prefix.NewStore(store, p).Iterator(nil, nil)\<close>
  yields from its creation to its end: the entries under the prefix, prefix removed, in
  ascending key order. The list is fixed when the iterator is created, so a loop that writes
  while it iterates sees the entries from before its writes, which is what the SDK's cached
  stores give the modules.
\<close>

locale kv_store =
  fixes get :: "'s \<Rightarrow> bytes \<Rightarrow> bytes option"
    and has :: "'s \<Rightarrow> bytes \<Rightarrow> bool"
    and set_kv :: "'s \<Rightarrow> bytes \<Rightarrow> bytes \<Rightarrow> 's"
    and del :: "'s \<Rightarrow> bytes \<Rightarrow> 's"
    and iter :: "'s \<Rightarrow> bytes \<Rightarrow> (bytes \<times> bytes) list"
  assumes get_set: "get (set_kv s k v) k' = (if k' = k then Some v else get s k')"
    and get_del: "get (del s k) k' = (if k' = k then None else get s k')"
    and has_get: "has s k \<longleftrightarrow> get s k \<noteq> None"
    and iter_iff: "(k, v) \<in> set (iter s p) \<longleftrightarrow> get s (p @ k) = Some v"
    and iter_sorted: "sorted_wrt (<) (map fst (iter s p))"
begin

lemma iter_distinct: "distinct (map fst (iter s p))"
  using iter_sorted [of s p] by (simp add: strict_sorted_iff)

lemma iter_map_of: "map_of (iter s p) k = get s (p @ k)"
proof (cases "get s (p @ k)")
  case None
  then have "k \<notin> fst ` set (iter s p)"
    using iter_iff [of k _ s p] by (force simp: image_iff)
  with None show ?thesis
    by (simp add: map_of_eq_None_iff)
next
  case (Some v)
  then have "(k, v) \<in> set (iter s p)"
    by (simp add: iter_iff)
  with Some show ?thesis
    using iter_distinct by (simp add: map_of_eq_Some_iff)
qed

lemma iter_cong:
  assumes "\<And>k. get s (p @ k) = get t (p @ k)"
  shows "iter s p = iter t p"
proof -
  have "set (iter s p) = set (iter t p)"
    using assms by (auto simp: iter_iff set_eq_iff)
  moreover have "inj_on fst (set (iter s p))"
    using iter_distinct [of s p] by (simp add: distinct_map)
  moreover have "sorted (map fst (iter u p))" for u
    using iter_sorted [of u p] by (simp add: strict_sorted_iff)
  ultimately show ?thesis
    by (intro map_sorted_distinct_set_unique [where f = fst]) (simp_all add: iter_distinct)
qed

lemma iter_set_other:
  "(\<And>k'. k \<noteq> p @ k') \<Longrightarrow> iter (set_kv s k v) p = iter s p"
  by (rule iter_cong) (metis get_set)

lemma iter_del_other:
  "(\<And>k'. k \<noteq> p @ k') \<Longrightarrow> iter (del s k) p = iter s p"
  by (rule iter_cong) (metis get_del)

end

text \<open>The keeper's two stores are such stores.\<close>

locale mesh_store =
  kv_store "kv_Get E" "kv_Has E" "kv_Set E" "kv_Delete E" "kv_PrefixIterator E"
  for E :: "('s, 'x) sdk"

section \<open>The laws of numbers and coins\<close>

text \<open>
  \<open>math.Int\<close> holds integers of at most 256 bits and panics beyond them; its store encoding
  reads back. A coin's constructor panics on an invalid denomination or a nil or negative
  amount; coin arithmetic panics on different denominations, and \<open>Sub\<close> on a negative
  result.
\<close>

definition int256 :: "int \<Rightarrow> bool" where
  "int256 n \<longleftrightarrow> \<bar>n\<bar> < 2 ^ 256"

lemma int256_0 [simp]: "int256 0"
  by (simp add: int256_def)

lemma int256_between: "0 \<le> a \<Longrightarrow> a \<le> b \<Longrightarrow> int256 b \<Longrightarrow> int256 a"
  by (simp add: int256_def)

locale sdk_numbers =
  fixes E :: "('s, 'x) sdk"
    and valid_denom :: "string \<Rightarrow> bool"
  assumes Int_Add: "Int_Add E a b = (if int256 (a + b) then Ok (a + b) else Panic)"
    and Int_Marshal: "int256 n \<Longrightarrow> \<exists>bz. Int_Marshal E (Some n) = Ok bz"
    and Int_Unmarshal: "Int_Marshal E (Some n) = Ok bz \<Longrightarrow> Int_Unmarshal E bz = Ok n"
    and Coin_New: "Coin_New E d amt =
      (case amt of Some n \<Rightarrow> if valid_denom d \<and> 0 \<le> n then Ok (Coin d (Some n)) else Panic
       | None \<Rightarrow> Panic)"
    and Coin_Add: "Coin_Add E (Coin d (Some a)) (Coin d' (Some b)) =
      (if d = d' \<and> int256 (a + b) then Ok (Coin d (Some (a + b))) else Panic)"
    and Coin_Sub: "Coin_Sub E (Coin d (Some a)) (Coin d' (Some b)) =
      (if d = d' \<and> b \<le> a \<and> int256 (a - b) then Ok (Coin d (Some (a - b))) else Panic)"
    and Coin_IsLT: "Coin_IsLT E (Coin d (Some a)) (Coin d' (Some b)) =
      (if d = d' then Ok (a < b) else Panic)"

section \<open>The laws of the codec\<close>

text \<open>
  What is marshalled reads back, for values without a nil integer: \<open>math.Int\<close> marshals
  nil like zero.
\<close>

locale params_codec =
  fixes marshal :: "'p \<Rightarrow> bytes result"
    and unmarshal :: "bytes \<Rightarrow> 'p result"
    and storable :: "'p \<Rightarrow> bool"
  assumes codec_roundtrip: "storable p \<Longrightarrow> marshal p = Ok bz \<Longrightarrow> unmarshal bz = Ok p"

section \<open>The laws of addresses\<close>

text \<open>A length-prefixed address is a length byte and the address, for up to 255 bytes.\<close>

locale sdk_addresses =
  fixes E :: "('s, 'x) sdk"
  assumes MustLengthPrefix: "MustLengthPrefix E bz =
      (if length bz \<le> 255 then Ok (of_nat (length bz) # bz) else Panic)"

section \<open>The laws of the gas meter\<close>

text \<open>
  A call under a gas meter either runs as it would without one, or is stopped by an
  out-of-gas panic, whatever state it has reached by then.
\<close>

locale gas_meter =
  fixes E :: "('s, 'x) sdk"
  assumes metered: "gas_Metered E g f s = (rs, used) \<Longrightarrow> rs = f s \<or> fst rs = Panic"

end
