(* ===== verification/Keys.thy ===== *)
theory Keys
  imports Sdk
begin

text \<open>
  The store keys of \<open>x/meshsecurity/types/keys.go\<close>: one prefix byte per table, then the
  contract address, or for a scheduled task its type, its height big-endian and the contract,
  or for a piped valset operation the length-prefixed validator, the operation and, for a
  slash, its packed details. The lemmas give each builder in closed form, show the builders
  injective and their tables disjoint, and show that the scheduler's keys sort by height.
\<close>

section \<open>Definitions\<close>

definition ParamsKey :: bytes where "ParamsKey = [1]"
definition MaxCapLimitKeyPrefix :: bytes where "MaxCapLimitKeyPrefix = [2]"
definition TotalDelegatedAmountKeyPrefix :: bytes where "TotalDelegatedAmountKeyPrefix = [3]"
definition SchedulerKeyPrefix :: bytes where "SchedulerKeyPrefix = [4]"
definition PipedValsetPrefix :: bytes where "PipedValsetPrefix = [5]"

definition BuildMaxCapLimitKey :: "address \<Rightarrow> bytes" where
  "BuildMaxCapLimitKey contractAddr = MaxCapLimitKeyPrefix @ contractAddr"

definition BuildTotalDelegatedAmountKey :: "address \<Rightarrow> bytes" where
  "BuildTotalDelegatedAmountKey contractAddr = TotalDelegatedAmountKeyPrefix @ contractAddr"

definition BuildSchedulerTypeKeyPrefix :: "task_type \<Rightarrow> bytes result" where
  "BuildSchedulerTypeKeyPrefix tp =
     (if tp = SchedulerTaskUndefined then Err ErrInvalid else Ok (SchedulerKeyPrefix @ [tp]))"

definition BuildSchedulerHeightKeyPrefix :: "task_type \<Rightarrow> u64 \<Rightarrow> bytes result" where
  "BuildSchedulerHeightKeyPrefix tp blockHeight =
     bindR (BuildSchedulerTypeKeyPrefix tp) (\<lambda>prefix.
     Ok (prefix @ Uint64ToBigEndian blockHeight))"

definition BuildSchedulerContractKey :: "task_type \<Rightarrow> u64 \<Rightarrow> address \<Rightarrow> bytes result" where
  "BuildSchedulerContractKey tp blockHeight contractAddr =
     bindR (BuildSchedulerHeightKeyPrefix tp blockHeight) (\<lambda>prefix.
     Ok (prefix @ contractAddr))"

text \<open>
  The key of a piped valset operation is written into a buffer of the exact size, field by
  field. The total slash amount is preceded by its length in one byte.
\<close>

definition slashInfoSize :: "valset_op \<Rightarrow> slash_info option \<Rightarrow> nat result" where
  "slashInfoSize op slashInfo =
     (if op = ValidatorSlashed then
        (case slashInfo of
           None \<Rightarrow> Panic
         | Some si \<Rightarrow> Ok (8 + 8 + 1 + length (TotalSlashAmount si) + length (SlashFraction si)))
      else Ok 0)"

definition putSlashInfo :: "bytes \<Rightarrow> nat \<Rightarrow> slash_info \<Rightarrow> bytes result" where
  "putSlashInfo r base si =
     bindR (go_copy_at r (base + 1 + 1) (Uint64ToBigEndian (InfractionHeight si))) (\<lambda>r.
     bindR (go_copy_at r (base + 1 + 1 + 8) (Uint64ToBigEndian (Power si))) (\<lambda>r.
     let tn = length (TotalSlashAmount si) in
     bindR (go_store r (base + 1 + 1 + 8 + 8) (of_nat tn)) (\<lambda>r.
     bindR (go_copy_at r (base + 1 + 1 + 8 + 8 + 1) (bytes_of_string (TotalSlashAmount si))) (\<lambda>r.
     go_copy_at r (base + 1 + 1 + 8 + 8 + 1 + tn) (bytes_of_string (SlashFraction si))))))"

definition BuildPipedValsetOpKey ::
    "('s, 'x) sdk \<Rightarrow> valset_op \<Rightarrow> address \<Rightarrow> slash_info option \<Rightarrow> bytes result" where
  "BuildPipedValsetOpKey E op val slashInfo =
     (if op = ValsetOperationUndefined then Panic else
      let pn = length PipedValsetPrefix; an = length val in
      bindR (slashInfoSize op slashInfo) (\<lambda>sn.
      let r = replicate (pn + an + sn + 1 + 1) 0 in
      bindR (go_copy_at r 0 PipedValsetPrefix) (\<lambda>r.
      bindR (MustLengthPrefix E val) (\<lambda>lp.
      bindR (go_copy_at r pn lp) (\<lambda>r.
      bindR (go_store r (pn + an + 1) op) (\<lambda>r.
      if op = ValidatorSlashed then
        (case slashInfo of None \<Rightarrow> Panic | Some si \<Rightarrow> putSlashInfo r (pn + an) si)
      else Ok r))))))"

lemmas key_prefix_defs = ParamsKey_def MaxCapLimitKeyPrefix_def
  TotalDelegatedAmountKeyPrefix_def SchedulerKeyPrefix_def PipedValsetPrefix_def

lemmas key_defs = key_prefix_defs BuildMaxCapLimitKey_def BuildTotalDelegatedAmountKey_def
  BuildSchedulerTypeKeyPrefix_def BuildSchedulerHeightKeyPrefix_def
  BuildSchedulerContractKey_def

section \<open>Table keys\<close>

lemma table_keys_inject [simp]:
  "BuildMaxCapLimitKey a = BuildMaxCapLimitKey b \<longleftrightarrow> a = b"
  "BuildTotalDelegatedAmountKey a = BuildTotalDelegatedAmountKey b \<longleftrightarrow> a = b"
  by (simp_all add: key_defs)

lemma table_keys_disjoint [simp]:
  "BuildMaxCapLimitKey a \<noteq> BuildTotalDelegatedAmountKey b"
  "BuildTotalDelegatedAmountKey b \<noteq> BuildMaxCapLimitKey a"
  "BuildMaxCapLimitKey a \<noteq> ParamsKey" "ParamsKey \<noteq> BuildMaxCapLimitKey a"
  "BuildTotalDelegatedAmountKey a \<noteq> ParamsKey" "ParamsKey \<noteq> BuildTotalDelegatedAmountKey a"
  by (simp_all add: key_defs)

text \<open>The scheduler's keys in closed form, and what they are disjoint from.\<close>

definition taskKey :: "task_type \<Rightarrow> u64 \<Rightarrow> address \<Rightarrow> bytes" where
  "taskKey tp h contract = SchedulerKeyPrefix @ [tp] @ Uint64ToBigEndian h @ contract"

lemma BuildSchedulerContractKey_eq:
  "BuildSchedulerContractKey tp h contract =
     (if tp = SchedulerTaskUndefined then Err ErrInvalid else Ok (taskKey tp h contract))"
  by (simp add: key_defs taskKey_def)

lemma taskKey_inject [simp]:
  "taskKey tp h c = taskKey tp' h' c' \<longleftrightarrow> tp = tp' \<and> h = h' \<and> c = c'"
  by (auto simp: taskKey_def key_prefix_defs append_eq_append_conv)

lemma taskKey_disjoint [simp]:
  "taskKey tp h c \<noteq> BuildMaxCapLimitKey a" "BuildMaxCapLimitKey a \<noteq> taskKey tp h c"
  "taskKey tp h c \<noteq> BuildTotalDelegatedAmountKey a"
  "BuildTotalDelegatedAmountKey a \<noteq> taskKey tp h c"
  "taskKey tp h c \<noteq> ParamsKey" "ParamsKey \<noteq> taskKey tp h c"
  by (simp_all add: key_defs taskKey_def)

lemma prefix_disjoint [simp]:
  "taskKey tp h c \<noteq> MaxCapLimitKeyPrefix @ k"
  "BuildTotalDelegatedAmountKey a \<noteq> MaxCapLimitKeyPrefix @ k"
  "ParamsKey \<noteq> MaxCapLimitKeyPrefix @ k"
  "BuildMaxCapLimitKey a \<noteq> SchedulerKeyPrefix @ k"
  "BuildTotalDelegatedAmountKey a \<noteq> SchedulerKeyPrefix @ k"
  "ParamsKey \<noteq> SchedulerKeyPrefix @ k"
  by (simp_all add: key_defs taskKey_def)

text \<open>Under one prefix keys sort as their rests do, and task rests sort by height first.\<close>

lemma append_less_same_prefix: "p @ a < p @ b \<longleftrightarrow> a < (b :: bytes)"
  by (induction p) auto

lemma append_less_same_length:
  "length p = length q \<Longrightarrow> p @ a < q @ b \<longleftrightarrow> p < q \<or> p = q \<and> a < (b :: bytes)"
  by (induction p q rule: list_induct2) auto

lemma taskKey_less_iff:
  "taskKey tp h c < taskKey tp h' c' \<longleftrightarrow> h < h' \<or> h = h' \<and> c < c'"
  by (simp add: taskKey_def append_less_same_prefix append_less_same_length
      Uint64ToBigEndian_less_iff)

section \<open>Piped valset operation keys\<close>

definition slashBytes :: "slash_info \<Rightarrow> bytes" where
  "slashBytes si = Uint64ToBigEndian (InfractionHeight si) @ Uint64ToBigEndian (Power si) @
     of_nat (length (TotalSlashAmount si)) #
     bytes_of_string (TotalSlashAmount si) @ bytes_of_string (SlashFraction si)"

definition opKeyBytes :: "valset_op \<Rightarrow> address \<Rightarrow> slash_info option \<Rightarrow> bytes" where
  "opKeyBytes op val slashInfo = of_nat (length val) # val @ op #
     (case slashInfo of Some si \<Rightarrow> if op = ValidatorSlashed then slashBytes si else []
      | None \<Rightarrow> [])"

lemma putSlashInfo_eq:
  assumes "length a = base + 2"
    and "n = 8 + 8 + 1 + length (TotalSlashAmount si) + length (SlashFraction si)"
  shows "putSlashInfo (a @ replicate n 0) base si = Ok (a @ slashBytes si)"
  using assms
  by (simp add: putSlashInfo_def go_copy_at_def go_store_def slashBytes_def Let_def
      list_update_append)

text \<open>The buffer the code fills is the prefix followed by the key's fields.\<close>

context sdk_addresses
begin

lemma BuildPipedValsetOpKey_eq:
  assumes "op \<noteq> ValsetOperationUndefined"
    and "op = ValidatorSlashed \<Longrightarrow> slashInfo \<noteq> None"
    and "length val \<le> 255"
  shows "BuildPipedValsetOpKey E op val slashInfo = Ok (PipedValsetPrefix @ opKeyBytes op val slashInfo)"
proof -
  let ?lp = "of_nat (length val) # val"
  obtain sn where sn: "slashInfoSize op slashInfo = Ok sn"
    and sn_slash: "op = ValidatorSlashed \<Longrightarrow>
      sn = 8 + 8 + 1 + length (TotalSlashAmount (the slashInfo)) + length (SlashFraction (the slashInfo))"
    and sn_other: "op \<noteq> ValidatorSlashed \<Longrightarrow> sn = 0"
  proof (cases "op = ValidatorSlashed")
    case True
    with assms(2) obtain si where "slashInfo = Some si" by auto
    with True show thesis by (intro that) (simp_all add: slashInfoSize_def)
  qed (simp add: slashInfoSize_def that)
  have copy1: "go_copy_at (replicate (1 + length val + sn + 1 + 1) 0) 0 PipedValsetPrefix
      = Ok (5 # replicate (length ?lp + (1 + sn)) 0)"
    by (simp add: go_copy_at_def PipedValsetPrefix_def)
  have copy2: "go_copy_at (5 # replicate (length ?lp + (1 + sn)) 0) 1 ?lp
      = Ok ((5 # ?lp) @ replicate (1 + sn) 0)"
    by (simp add: go_copy_at_def flip: replicate_Suc)
  have put: "go_store ((5 # ?lp) @ replicate (1 + sn) 0) (1 + length val + 1) op
      = Ok ((5 # ?lp) @ op # replicate sn 0)"
    by (simp add: go_store_def list_update_append)
  have body: "BuildPipedValsetOpKey E op val slashInfo =
      (if op = ValidatorSlashed then
        (case slashInfo of None \<Rightarrow> Panic
         | Some si \<Rightarrow> putSlashInfo ((5 # ?lp) @ op # replicate sn 0) (1 + length val) si)
      else Ok ((5 # ?lp) @ op # replicate sn 0))"
    unfolding BuildPipedValsetOpKey_def
    using assms(1,3) copy1 copy2 put
    by (simp add: Let_def sn MustLengthPrefix PipedValsetPrefix_def split: option.split)
  show ?thesis
  proof (cases "op = ValidatorSlashed")
    case False
    with body sn_other show ?thesis
      by (auto simp: opKeyBytes_def PipedValsetPrefix_def split: option.split)
  next
    case True
    with assms(2) obtain si where si: "slashInfo = Some si"
      by auto
    have "putSlashInfo (((5 # ?lp) @ [op]) @ replicate sn 0) (1 + length val) si
        = Ok (((5 # ?lp) @ [op]) @ slashBytes si)"
      using sn_slash True si by (intro putSlashInfo_eq) simp_all
    then show ?thesis
      using body True si by (simp add: opKeyBytes_def PipedValsetPrefix_def)
  qed
qed

end

end
