(* ===== verification/Params.thy ===== *)
theory Params
  imports Keys
begin

text \<open>
  The module parameters (\<open>keeper/params.go\<close>, \<open>types/params.go\<close>) and genesis
  (\<open>keeper/genesis.go\<close>, \<open>types/genesis.go\<close>): parameters live under one store key in
  their protobuf encoding, are read back as the zero parameters when never set, and are the
  whole of the exported genesis.
\<close>

section \<open>Store access\<close>

definition storeSet :: "('s, 'x) sdk \<Rightarrow> bytes \<Rightarrow> bytes \<Rightarrow> (('s, 'x) chain, unit) act" where
  "storeSet E key v = modify (\<lambda>s. s\<lparr>store := kv_Set E (store s) key v\<rparr>)"

definition storeDelete :: "('s, 'x) sdk \<Rightarrow> bytes \<Rightarrow> (('s, 'x) chain, unit) act" where
  "storeDelete E key = modify (\<lambda>s. s\<lparr>store := kv_Delete E (store s) key\<rparr>)"

lemma store_act_apply [act_simps]:
  "storeSet E key v s = (Ok (), s\<lparr>store := kv_Set E (store s) key v\<rparr>)"
  "storeDelete E key s = (Ok (), s\<lparr>store := kv_Delete E (store s) key\<rparr>)"
  by (simp_all add: storeSet_def storeDelete_def act_simps)

section \<open>Parameters\<close>

definition SetParams :: "('s, 'x) sdk \<Rightarrow> params \<Rightarrow> (('s, 'x) chain, unit) act" where
  "SetParams E params =
     bindA (liftR (cdc_MarshalParams E params)) (\<lambda>bz.
     storeSet E ParamsKey bz)"

definition GetParams :: "('s, 'x) sdk \<Rightarrow> ('s, 'x) chain \<Rightarrow> params result" where
  "GetParams E ctx =
     (case kv_Get E (store ctx) ParamsKey of
        None \<Rightarrow> Ok zeroParams
      | Some bz \<Rightarrow> mustR (cdc_UnmarshalParams E bz))"

definition GetMaxSudoGas :: "('s, 'x) sdk \<Rightarrow> ('s, 'x) chain \<Rightarrow> u64 result" where
  "GetMaxSudoGas E ctx = bindR (GetParams E ctx) (\<lambda>p. Ok (ucast (MaxGasEndBlocker p)))"

definition GetRebalanceEpochLength :: "('s, 'x) sdk \<Rightarrow> ('s, 'x) chain \<Rightarrow> u64 result" where
  "GetRebalanceEpochLength E ctx = bindR (GetParams E ctx) (\<lambda>p. Ok (ucast (EpochLength p)))"

definition GetTotalContractsMaxCap :: "('s, 'x) sdk \<Rightarrow> ('s, 'x) chain \<Rightarrow> coin result" where
  "GetTotalContractsMaxCap E ctx = bindR (GetParams E ctx) (\<lambda>p. Ok (TotalContractsMaxCap p))"

definition DefaultParams :: "('s, 'x) sdk \<Rightarrow> string \<Rightarrow> params result" where
  "DefaultParams E d =
     bindR (Coin_New E d (Some 10000000000)) (\<lambda>cap.
     Ok \<lparr>TotalContractsMaxCap = cap, EpochLength = 1000, MaxGasEndBlocker = 500000\<rparr>)"

definition Params_ValidateBasic :: "('s, 'x) sdk \<Rightarrow> params \<Rightarrow> unit result" where
  "Params_ValidateBasic E p =
     bindR (Coin_Validate E (TotalContractsMaxCap p)) (\<lambda>_.
     if EpochLength p = 0 then Err ErrInvalid
     else if MaxGasEndBlocker p = 0 then Err ErrInvalid
     else Ok ())"

section \<open>Genesis\<close>

record genesis_state =
  GenesisParams :: params

definition NewGenesisState :: "params \<Rightarrow> genesis_state" where
  "NewGenesisState params = \<lparr>GenesisParams = params\<rparr>"

definition DefaultGenesisState :: "('s, 'x) sdk \<Rightarrow> string \<Rightarrow> genesis_state result" where
  "DefaultGenesisState E d = bindR (DefaultParams E d) (\<lambda>p. Ok (NewGenesisState p))"

definition ValidateGenesis :: "('s, 'x) sdk \<Rightarrow> genesis_state \<Rightarrow> unit result" where
  "ValidateGenesis E gs = Params_ValidateBasic E (GenesisParams gs)"

definition InitGenesis :: "('s, 'x) sdk \<Rightarrow> genesis_state \<Rightarrow> (('s, 'x) chain, unit) act" where
  "InitGenesis E data = (\<lambda>s. case SetParams E (GenesisParams data) s of
     (Ok _, s') \<Rightarrow> (Ok (), s') | (Err e, s') \<Rightarrow> (Panic, s') | (Panic, s') \<Rightarrow> (Panic, s'))"

definition ExportGenesis :: "('s, 'x) sdk \<Rightarrow> ('s, 'x) chain \<Rightarrow> genesis_state result" where
  "ExportGenesis E ctx = bindR (GetParams E ctx) (\<lambda>params. Ok (NewGenesisState params))"

section \<open>Lemmas\<close>

lemma SetParams_Ok_iff:
  "SetParams E p s = (Ok u, t) \<longleftrightarrow>
     (\<exists>bz. cdc_MarshalParams E p = Ok bz \<and> t = s\<lparr>store := kv_Set E (store s) ParamsKey bz\<rparr>)"
  by (auto simp: SetParams_def bindA_def act_simps split: result.splits)

definition setCap :: "params \<Rightarrow> bool" where
  "setCap p \<longleftrightarrow> amount (TotalContractsMaxCap p) \<noteq> None"

locale mesh_params = mesh_store E + codec: params_codec "cdc_MarshalParams E" "cdc_UnmarshalParams E" setCap
  for E :: "('s, 'x) sdk"
begin

lemma GetParams_SetParams:
  "setCap p \<Longrightarrow> SetParams E p s = (Ok u, t) \<Longrightarrow> GetParams E t = Ok p"
  by (auto simp: SetParams_Ok_iff GetParams_def get_set dest: codec.codec_roundtrip)

lemma InitGenesis_Export:
  "setCap (GenesisParams gs) \<Longrightarrow> InitGenesis E gs s = (Ok u, t) \<Longrightarrow> ExportGenesis E t = Ok gs"
  by (auto simp: InitGenesis_def ExportGenesis_def NewGenesisState_def GetParams_SetParams
      split: prod.splits result.splits)

end

text \<open>Parameters do not depend on any other key.\<close>

lemma GetParams_cong:
  "kv_Get E (store s) ParamsKey = kv_Get E (store t) ParamsKey \<Longrightarrow> GetParams E s = GetParams E t"
  by (simp add: GetParams_def)

lemma params_reads_cong:
  assumes "GetParams E s = GetParams E t"
  shows "GetMaxSudoGas E s = GetMaxSudoGas E t"
    and "GetRebalanceEpochLength E s = GetRebalanceEpochLength E t"
    and "GetTotalContractsMaxCap E s = GetTotalContractsMaxCap E t"
  using assms by (simp_all add: GetMaxSudoGas_def GetRebalanceEpochLength_def
      GetTotalContractsMaxCap_def)

text \<open>The default parameters pass their own validation when their coin does.\<close>

lemma DefaultParams_valid:
  assumes "DefaultParams E d = Ok p" and "Coin_Validate E (TotalContractsMaxCap p) = Ok ()"
  shows "Params_ValidateBasic E p = Ok ()"
  using assms by (auto simp: DefaultParams_def Params_ValidateBasic_def ok_iffs)

end
