(* ===== verification/Keeper.thy ===== *)
theory Keeper
  imports Params
begin

text \<open>
  The amounts the keeper stores per virtual staking contract (\<open>keeper/keeper.go\<close>): the max
  cap limit, set by governance and bounded over all contracts by the total in the
  parameters, and the total delegated amount. The lemmas read the two tables as maps from
  contracts to amounts, say what each setter does to them and when it fails, and show that
  the sum of all limits stays within the total that was in force when the last one was set.
\<close>

section \<open>Operations\<close>

definition GetAuthority :: "('s, 'x) sdk \<Rightarrow> string" where
  "GetAuthority E = authority E"

definition mustLoadInt :: "('s, 'x) sdk \<Rightarrow> 's \<Rightarrow> bytes \<Rightarrow> int result" where
  "mustLoadInt E st key =
     (case kv_Get E st key of
        None \<Rightarrow> Ok 0
      | Some bz \<Rightarrow> mustR (Int_Unmarshal E bz))"

definition HasMaxCapLimit :: "('s, 'x) sdk \<Rightarrow> ('s, 'x) chain \<Rightarrow> address \<Rightarrow> bool" where
  "HasMaxCapLimit E ctx actor = kv_Has E (store ctx) (BuildMaxCapLimitKey actor)"

definition GetMaxCapLimit :: "('s, 'x) sdk \<Rightarrow> ('s, 'x) chain \<Rightarrow> address \<Rightarrow> coin result" where
  "GetMaxCapLimit E ctx actor =
     bindR (mustLoadInt E (store ctx) (BuildMaxCapLimitKey actor)) (\<lambda>v.
     Coin_New E (staking_BondDenom E (ext ctx)) (Some v))"

definition GetTotalDelegated :: "('s, 'x) sdk \<Rightarrow> ('s, 'x) chain \<Rightarrow> address \<Rightarrow> coin result" where
  "GetTotalDelegated E ctx actor =
     bindR (mustLoadInt E (store ctx) (BuildTotalDelegatedAmountKey actor)) (\<lambda>v.
     let v = (if v < 0 then 0 else v) in
     Coin_New E (staking_BondDenom E (ext ctx)) (Some v))"

definition setTotalDelegated ::
    "('s, 'x) sdk \<Rightarrow> address \<Rightarrow> coin \<Rightarrow> (('s, 'x) chain, unit) act" where
  "setTotalDelegated E actor newAmount = withState (\<lambda>ctx.
     if staking_BondDenom E (ext ctx) \<noteq> denom newAmount then panic else
     bindA (liftR (mustR (Int_Marshal E (amount newAmount)))) (\<lambda>bz.
     storeSet E (BuildTotalDelegatedAmountKey actor) bz))"

text \<open>The loop over a limit iterator, with the callback's early stop.\<close>

fun iterCaps :: "('s, 'x) sdk \<Rightarrow> (bytes \<times> bytes) list \<Rightarrow>
    (address \<Rightarrow> int \<Rightarrow> ('w, bool) act) \<Rightarrow> ('w, unit) act" where
  "iterCaps E [] cb = ret ()"
| "iterCaps E ((key, v) # es) cb =
     bindA (liftR (mustR (Int_Unmarshal E v))) (\<lambda>r.
     bindA (cb key r) (\<lambda>stop.
     if stop then ret () else iterCaps E es cb))"

definition IterateMaxCapLimit :: "('s, 'x) sdk \<Rightarrow>
    (address \<Rightarrow> int \<Rightarrow> ('l \<times> ('s, 'x) chain, bool) act) \<Rightarrow> ('l \<times> ('s, 'x) chain, unit) act" where
  "IterateMaxCapLimit E cb = withState (\<lambda>(l, ctx).
     iterCaps E (kv_PrefixIterator E (store ctx) MaxCapLimitKeyPrefix) cb)"

text \<open>The loop of \<open>SetMaxCapLimit\<close> captures \<open>total\<close>.\<close>

definition addOtherLimits :: "('s, 'x) sdk \<Rightarrow> address \<Rightarrow>
    address \<Rightarrow> int \<Rightarrow> (int \<times> ('s, 'x) chain, bool) act" where
  "addOtherLimits E contract addr m =
     bindA (if addr \<noteq> contract then updLocal (\<lambda>total. Int_Add E total m) else ret ()) (\<lambda>_.
     ret False)"

definition SetMaxCapLimit ::
    "('s, 'x) sdk \<Rightarrow> address \<Rightarrow> coin \<Rightarrow> (('s, 'x) chain, unit) act" where
  "SetMaxCapLimit E contract newAmount = withState (\<lambda>ctx.
     if staking_BondDenom E (ext ctx) \<noteq> denom newAmount then fail ErrInvalidCoins else
     withLocal 0 (IterateMaxCapLimit E (addOtherLimits E contract)) (\<lambda>total.
     bindA (liftR (GetTotalContractsMaxCap E ctx)) (\<lambda>totalMaxCap.
     bindA (liftR (bindR (nonNil (amount newAmount)) (Int_Add E total))) (\<lambda>sum.
     bindA (liftR (nonNil (amount totalMaxCap))) (\<lambda>limit.
     if limit < sum then fail ErrInvalid else
     bindA (liftR (Int_Marshal E (amount newAmount))) (\<lambda>bz.
     bindA (storeSet E (BuildMaxCapLimitKey contract) bz) (\<lambda>_.
     emit (EmitMaxCapLimitUpdatedEvent contract newAmount))))))))"

section \<open>The two tables as maps\<close>

text \<open>
  \<open>amountAt\<close> reads an entry: \<open>None\<close> without one, else the stored integer. An entry is
  well formed when it decodes to a nonnegative \<open>math.Int\<close>.
\<close>

definition amountAt :: "('s, 'x) sdk \<Rightarrow> ('s, 'x) chain \<Rightarrow> bytes \<Rightarrow> int option" where
  "amountAt E s key =
     (case kv_Get E (store s) key of
        None \<Rightarrow> None
      | Some bz \<Rightarrow> (case Int_Unmarshal E bz of Ok n \<Rightarrow> Some n | _ \<Rightarrow> Some 0))"

definition goodAmount :: "('s, 'x) sdk \<Rightarrow> bytes \<Rightarrow> bool" where
  "goodAmount E bz \<longleftrightarrow> (\<exists>n. Int_Unmarshal E bz = Ok n \<and> 0 \<le> n \<and> int256 n)"

abbreviation limitOf :: "('s, 'x) sdk \<Rightarrow> ('s, 'x) chain \<Rightarrow> address \<Rightarrow> int option" where
  "limitOf E s c \<equiv> amountAt E s (BuildMaxCapLimitKey c)"

abbreviation delegatedOf :: "('s, 'x) sdk \<Rightarrow> ('s, 'x) chain \<Rightarrow> address \<Rightarrow> int option" where
  "delegatedOf E s c \<equiv> amountAt E s (BuildTotalDelegatedAmountKey c)"

definition wfAmounts :: "('s, 'x) sdk \<Rightarrow> ('s, 'x) chain \<Rightarrow> bool" where
  "wfAmounts E s \<longleftrightarrow>
     (\<forall>c bz. kv_Get E (store s) (BuildMaxCapLimitKey c) = Some bz \<longrightarrow> goodAmount E bz) \<and>
     (\<forall>c bz. kv_Get E (store s) (BuildTotalDelegatedAmountKey c) = Some bz \<longrightarrow> goodAmount E bz)"

text \<open>The limits in iteration order, and their sum, with one contract left out or none.\<close>

definition capEntries :: "('s, 'x) sdk \<Rightarrow> ('s, 'x) chain \<Rightarrow> (address \<times> int) list" where
  "capEntries E s = map (\<lambda>(k, v). (k, the (limitOf E s k)))
     (kv_PrefixIterator E (store s) MaxCapLimitKeyPrefix)"

definition otherCaps :: "('s, 'x) sdk \<Rightarrow> ('s, 'x) chain \<Rightarrow> address \<Rightarrow> int" where
  "otherCaps E s c = sum_list (map snd (filter (\<lambda>(k, n). k \<noteq> c) (capEntries E s)))"

definition totalCaps :: "('s, 'x) sdk \<Rightarrow> ('s, 'x) chain \<Rightarrow> int" where
  "totalCaps E s = sum_list (map snd (capEntries E s))"

lemma amountAt_cong:
  "kv_Get E (store s) key = kv_Get E (store t) key \<Longrightarrow> amountAt E s key = amountAt E t key"
  by (simp add: amountAt_def)

lemma amountAt_None_iff: "amountAt E s key = None \<longleftrightarrow> kv_Get E (store s) key = None"
  by (simp add: amountAt_def split: option.split result.split)

text \<open>What a key with a well-formed entry, or none, reads as.\<close>

lemma goodAmount_read:
  assumes "\<And>bz. kv_Get E (store s) key = Some bz \<Longrightarrow> goodAmount E bz"
  obtains "amountAt E s key = None" and "mustLoadInt E (store s) key = Ok 0"
  | n where "amountAt E s key = Some n" and "mustLoadInt E (store s) key = Ok n"
      and "0 \<le> n" and "int256 n"
proof (cases "kv_Get E (store s) key")
  case None
  then show ?thesis
    by (intro that(1)) (simp_all add: amountAt_def mustLoadInt_def)
next
  case (Some bz)
  with assms obtain n where "Int_Unmarshal E bz = Ok n" "0 \<le> n" "int256 n"
    by (auto simp: goodAmount_def)
  with Some show ?thesis
    by (intro that(2) [of n]) (simp_all add: amountAt_def mustLoadInt_def)
qed

lemma wfAmountsD:
  assumes "wfAmounts E s"
  shows "kv_Get E (store s) (BuildMaxCapLimitKey c) = Some bz \<Longrightarrow> goodAmount E bz"
    and "kv_Get E (store s) (BuildTotalDelegatedAmountKey c) = Some bz \<Longrightarrow> goodAmount E bz"
  using assms by (auto simp: wfAmounts_def)

lemma mustLoadInt_limit:
  "wfAmounts E s \<Longrightarrow> mustLoadInt E (store s) (BuildMaxCapLimitKey c)
     = Ok (case limitOf E s c of None \<Rightarrow> 0 | Some n \<Rightarrow> n)"
  by (rule goodAmount_read [OF wfAmountsD(1) [where c = c]]) auto

lemma mustLoadInt_delegated:
  "wfAmounts E s \<Longrightarrow> mustLoadInt E (store s) (BuildTotalDelegatedAmountKey c)
     = Ok (case delegatedOf E s c of None \<Rightarrow> 0 | Some n \<Rightarrow> n)"
  by (rule goodAmount_read [OF wfAmountsD(2) [where c = c]]) auto

lemma limitOf_nonneg: "wfAmounts E s \<Longrightarrow> limitOf E s c = Some n \<Longrightarrow> 0 \<le> n \<and> int256 n"
  by (rule goodAmount_read [OF wfAmountsD(1) [where c = c]]) auto

lemma delegatedOf_nonneg:
  "wfAmounts E s \<Longrightarrow> delegatedOf E s c = Some n \<Longrightarrow> 0 \<le> n \<and> int256 n"
  by (rule goodAmount_read [OF wfAmountsD(2) [where c = c]]) auto

text \<open>The sum over the other contracts, as the loop of \<open>SetMaxCapLimit\<close> computes it.\<close>

definition sumOthers :: "(address \<Rightarrow> int) \<Rightarrow> address \<Rightarrow> (address \<times> 'v) list \<Rightarrow> int" where
  "sumOthers f contract es = sum_list (map f (filter (\<lambda>k. k \<noteq> contract) (map fst es)))"

text \<open>A keeper in a chain whose stores and numbers behave as documented.\<close>

locale keeper = mesh_store E + sdk_numbers E valid_denom
  for E :: "('s, 'x) sdk" and valid_denom :: "string \<Rightarrow> bool"
begin

lemma goodAmount_marshal:
  "Int_Marshal E (Some n) = Ok bz \<Longrightarrow> 0 \<le> n \<Longrightarrow> int256 n \<Longrightarrow> goodAmount E bz"
  by (auto simp: goodAmount_def dest: Int_Unmarshal)

lemma HasMaxCapLimit_iff: "HasMaxCapLimit E s c \<longleftrightarrow> limitOf E s c \<noteq> None"
  by (simp add: HasMaxCapLimit_def has_get amountAt_None_iff)

lemma capEntry_iff: "(k, v) \<in> set (kv_PrefixIterator E (store s) MaxCapLimitKeyPrefix)
    \<longleftrightarrow> kv_Get E (store s) (BuildMaxCapLimitKey k) = Some v"
  by (simp add: iter_iff BuildMaxCapLimitKey_def)

lemma distinct_capEntries: "distinct (map fst (capEntries E s))"
  using iter_distinct [of "store s" MaxCapLimitKeyPrefix]
  by (simp add: capEntries_def comp_def case_prod_beta)

lemma capEntries_iff: "(k, n) \<in> set (capEntries E s) \<longleftrightarrow> limitOf E s k = Some n"
proof -
  have "(k, n) \<in> set (capEntries E s) \<longleftrightarrow>
      kv_Get E (store s) (BuildMaxCapLimitKey k) \<noteq> None \<and> n = the (limitOf E s k)"
    by (auto simp: capEntries_def image_iff Bex_def capEntry_iff)
  also have "\<dots> \<longleftrightarrow> limitOf E s k = Some n"
    by (cases "limitOf E s k") (auto simp: amountAt_None_iff [symmetric])
  finally show ?thesis .
qed

lemma capEntries_eqI:
  assumes "\<And>k. limitOf E s k = limitOf E t k"
    and "\<And>k. kv_Get E (store s) (BuildMaxCapLimitKey k) = kv_Get E (store t) (BuildMaxCapLimitKey k)"
  shows "capEntries E s = capEntries E t"
  using iter_cong [of "store s" MaxCapLimitKeyPrefix "store t"] assms
  by (simp add: capEntries_def BuildMaxCapLimitKey_def)

text \<open>The loop of \<open>SetMaxCapLimit\<close> adds up the other contracts' limits, or panics on overflow.\<close>

lemma iterCaps_addOtherLimits:
  assumes "\<And>k v. (k, v) \<in> set es \<Longrightarrow> Int_Unmarshal E v = Ok (f k) \<and> 0 \<le> f k"
    and "0 \<le> t" and "int256 t"
  shows "iterCaps E es (addOtherLimits E contract) (t, s) =
      (if int256 (t + sumOthers f contract es)
       then (Ok (), (t + sumOthers f contract es, s))
       else (Panic, snd (iterCaps E es (addOtherLimits E contract) (t, s))))
    \<and> snd (snd (iterCaps E es (addOtherLimits E contract) (t, s))) = s"
  using assms
proof (induction es arbitrary: t)
  case Nil
  then show ?case by (simp add: act_simps sumOthers_def)
next
  case (Cons e es)
  obtain k v where e: "e = (k, v)" by (cases e)
  have head: "Int_Unmarshal E v = Ok (f k)" "0 \<le> f k"
    using Cons.prems(1) e by auto
  have rest: "\<And>k v. (k, v) \<in> set es \<Longrightarrow> Int_Unmarshal E v = Ok (f k) \<and> 0 \<le> f k"
    using Cons.prems(1) by auto
  have "0 \<le> sumOthers f contract es"
    using rest unfolding sumOthers_def by (intro sum_list_nonneg) auto
  then have over: "\<not> int256 (t + f k) \<Longrightarrow> \<not> int256 (t + (f k + sumOthers f contract es))"
    using head Cons.prems(2) by (simp add: int256_def)
  have step: "iterCaps E (e # es) (addOtherLimits E contract) (t, s) =
      (if k = contract then iterCaps E es (addOtherLimits E contract) (t, s)
       else if int256 (t + f k) then iterCaps E es (addOtherLimits E contract) (t + f k, s)
       else (Panic, (t, s)))"
    using head by (simp add: e addOtherLimits_def act_simps bindA_def Int_Add)
  have sum: "sumOthers f contract (e # es) =
      (if k = contract then sumOthers f contract es else f k + sumOthers f contract es)"
    by (simp add: e sumOthers_def)
  show ?case
    using Cons.IH [OF rest, of t] Cons.IH [OF rest, of "t + f k"] head Cons.prems(2,3) over
    by (simp only: step sum) (auto simp: add.assoc)
qed

lemma capIterator_amounts:
  assumes "wfAmounts E s"
    and "(k, v) \<in> set (kv_PrefixIterator E (store s) MaxCapLimitKeyPrefix)"
  shows "Int_Unmarshal E v = Ok (the (limitOf E s k)) \<and> 0 \<le> the (limitOf E s k)"
  using assms wfAmountsD(1) [OF assms(1), of k v]
  by (auto simp: capEntry_iff amountAt_def goodAmount_def)

lemma sumOthers_iterator:
  "sumOthers (\<lambda>k. the (limitOf E s k)) c (kv_PrefixIterator E (store s) MaxCapLimitKeyPrefix)
     = otherCaps E s c"
  by (simp add: sumOthers_def otherCaps_def capEntries_def filter_map comp_def case_prod_beta)

text \<open>The whole of \<open>SetMaxCapLimit\<close>, every branch.\<close>

lemma SetMaxCapLimit_eq:
  assumes "wfAmounts E s" and "amount new = Some n"
    and "GetTotalContractsMaxCap E s = Ok (Coin d (Some L))"
  shows "SetMaxCapLimit E contract new s =
    (if staking_BondDenom E (ext s) \<noteq> denom new then (Err ErrInvalidCoins, s)
     else if \<not> int256 (otherCaps E s contract) \<or> \<not> int256 (otherCaps E s contract + n) then (Panic, s)
     else if L < otherCaps E s contract + n then (Err ErrInvalid, s)
     else (case Int_Marshal E (Some n) of
        Ok bz \<Rightarrow> (Ok (), s\<lparr>store := kv_Set E (store s) (BuildMaxCapLimitKey contract) bz,
                       events := events s @ [EmitMaxCapLimitUpdatedEvent contract new]\<rparr>)
      | Err e \<Rightarrow> (Err e, s) | Panic \<Rightarrow> (Panic, s)))"
proof -
  let ?it = "kv_PrefixIterator E (store s) MaxCapLimitKeyPrefix"
  have loop: "iterCaps E ?it (addOtherLimits E contract) (0, s) =
      (if int256 (otherCaps E s contract) then (Ok (), (otherCaps E s contract, s))
       else (Panic, snd (iterCaps E ?it (addOtherLimits E contract) (0, s))))
      \<and> snd (snd (iterCaps E ?it (addOtherLimits E contract) (0, s))) = s"
    using iterCaps_addOtherLimits [of ?it "\<lambda>k. the (limitOf E s k)" 0 contract s,
        OF capIterator_amounts [OF assms(1)]]
    unfolding sumOthers_iterator add_0 by simp
  then have "withLocal 0 (IterateMaxCapLimit E (addOtherLimits E contract)) k s =
      (if int256 (otherCaps E s contract) then k (otherCaps E s contract) s else (Panic, s))"
    for k :: "int \<Rightarrow> (('s, 'x) chain, unit) act"
    by (auto simp: withLocal_def IterateMaxCapLimit_def act_simps split: prod.splits if_splits)
  then show ?thesis
    using assms(2,3)
    by (auto simp: SetMaxCapLimit_def act_simps Int_Add bindA_def split: result.split)
qed

text \<open>The sums as sums over the contracts with a limit.\<close>

lemma keys_capEntries: "fst ` set (capEntries E s) = {k. limitOf E s k \<noteq> None}"
proof (rule set_eqI)
  fix k
  have "k \<in> fst ` set (capEntries E s) \<longleftrightarrow> (\<exists>n. (k, n) \<in> set (capEntries E s))"
    by force
  then show "k \<in> fst ` set (capEntries E s) \<longleftrightarrow> k \<in> {k. limitOf E s k \<noteq> None}"
    by (simp add: capEntries_iff)
qed

lemma finite_limits: "finite {k. limitOf E s k \<noteq> None}"
  using keys_capEntries [of s] by (metis finite_imageI finite_set)

lemma otherCaps_sum:
  "otherCaps E s c = (\<Sum>k | limitOf E s k \<noteq> None \<and> k \<noteq> c. the (limitOf E s k))"
proof -
  let ?ks = "filter (\<lambda>k. k \<noteq> c) (map fst (capEntries E s))"
  have "set ?ks = {k. limitOf E s k \<noteq> None \<and> k \<noteq> c}"
    using keys_capEntries [of s] by auto
  moreover have "distinct ?ks"
    using distinct_capEntries [of s] by simp
  moreover have "otherCaps E s c = sum_list (map (\<lambda>k. the (limitOf E s k)) ?ks)"
    by (simp add: otherCaps_def capEntries_def filter_map comp_def case_prod_beta)
  ultimately show ?thesis
    by (simp add: sum_list_distinct_conv_sum_set)
qed

lemma totalCaps_sum: "totalCaps E s = (\<Sum>k | limitOf E s k \<noteq> None. the (limitOf E s k))"
proof -
  let ?ks = "map fst (capEntries E s)"
  have "set ?ks = {k. limitOf E s k \<noteq> None}"
    by (simp add: keys_capEntries)
  moreover have "totalCaps E s = sum_list (map (\<lambda>k. the (limitOf E s k)) ?ks)"
    by (simp add: totalCaps_def capEntries_def comp_def case_prod_beta)
  ultimately show ?thesis
    using distinct_capEntries [of s] sum_list_distinct_conv_sum_set [of ?ks] by metis
qed

lemma totalCaps_split:
  "totalCaps E s = otherCaps E s c + (case limitOf E s c of None \<Rightarrow> 0 | Some n \<Rightarrow> n)"
proof (cases "limitOf E s c")
  case None
  then have "{k. limitOf E s k \<noteq> None} = {k. limitOf E s k \<noteq> None \<and> k \<noteq> c}"
    by auto
  with None show ?thesis
    by (simp add: totalCaps_sum otherCaps_sum)
next
  case (Some n)
  then have "{k. limitOf E s k \<noteq> None} = insert c {k. limitOf E s k \<noteq> None \<and> k \<noteq> c}"
    by auto
  moreover have "finite {k. limitOf E s k \<noteq> None \<and> k \<noteq> c}"
    using finite_limits [of s] by (rule rev_finite_subset) auto
  ultimately show ?thesis
    using Some by (simp add: totalCaps_sum otherCaps_sum)
qed

lemma otherCaps_cong:
  "(\<And>k. k \<noteq> c \<Longrightarrow> limitOf E s k = limitOf E t k) \<Longrightarrow> otherCaps E s c = otherCaps E t c"
  unfolding otherCaps_sum by (rule sum.cong) auto

lemma totalCaps_cong:
  "(\<And>k. limitOf E s k = limitOf E t k) \<Longrightarrow> totalCaps E s = totalCaps E t"
  unfolding totalCaps_sum by simp

lemma otherCaps_nonneg: "wfAmounts E s \<Longrightarrow> 0 \<le> otherCaps E s c"
  unfolding otherCaps_sum by (rule sum_nonneg) (auto dest: limitOf_nonneg)

lemma otherCaps_le_total: "wfAmounts E s \<Longrightarrow> otherCaps E s c \<le> totalCaps E s"
  using limitOf_nonneg [of E s c] by (auto simp: totalCaps_split [of s c] split: option.split)

text \<open>What a successful \<open>SetMaxCapLimit\<close> leaves behind.\<close>

lemma SetMaxCapLimit_OkD:
  assumes ok: "SetMaxCapLimit E contract new s = (Ok u, t)"
    and "wfAmounts E s" and "amount new = Some n"
    and "GetTotalContractsMaxCap E s = Ok (Coin d (Some L))"
  shows "denom new = staking_BondDenom E (ext s)"
    and "otherCaps E s contract + n \<le> L"
    and "limitOf E t c = (if c = contract then Some n else limitOf E s c)"
    and "totalCaps E t = otherCaps E s contract + n"
    and "delegatedOf E t c = delegatedOf E s c"
    and "kv_Get E (store t) (taskKey tp h c) = kv_Get E (store s) (taskKey tp h c)"
    and "kv_Get E (store t) ParamsKey = kv_Get E (store s) ParamsKey"
    and "0 \<le> n \<Longrightarrow> wfAmounts E t"
    and "mem t = mem s \<and> ext t = ext s \<and> height t = height s \<and> blockTime t = blockTime s"
proof -
  from ok obtain bz where bz: "Int_Marshal E (Some n) = Ok bz"
    and t: "t = s\<lparr>store := kv_Set E (store s) (BuildMaxCapLimitKey contract) bz,
       events := events s @ [EmitMaxCapLimitUpdatedEvent contract new]\<rparr>"
    and guards: "denom new = staking_BondDenom E (ext s)" "otherCaps E s contract + n \<le> L"
      "int256 (otherCaps E s contract + n)"
    unfolding SetMaxCapLimit_eq [OF assms(2-4)]
    by (auto split: if_splits result.splits)
  have limit: "limitOf E t c = (if c = contract then Some n else limitOf E s c)" for c
    using Int_Unmarshal [OF bz] by (simp add: t amountAt_def get_set)
  show "denom new = staking_BondDenom E (ext s)" "otherCaps E s contract + n \<le> L"
    by (rule guards)+
  show "limitOf E t c = (if c = contract then Some n else limitOf E s c)"
    by (rule limit)
  show "totalCaps E t = otherCaps E s contract + n"
    using totalCaps_split [of t contract] otherCaps_cong [of contract t s] limit by simp
  show "0 \<le> n \<Longrightarrow> wfAmounts E t"
    using goodAmount_marshal [OF bz] guards(3) otherCaps_nonneg [OF assms(2), of contract] assms(2)
      int256_between [of n "otherCaps E s contract + n"]
    by (auto simp: t wfAmounts_def get_set)
  show "delegatedOf E t c = delegatedOf E s c"
    "kv_Get E (store t) (taskKey tp h c) = kv_Get E (store s) (taskKey tp h c)"
    "kv_Get E (store t) ParamsKey = kv_Get E (store s) ParamsKey"
    "mem t = mem s \<and> ext t = ext s \<and> height t = height s \<and> blockTime t = blockTime s"
    by (simp_all add: t amountAt_def get_set)
qed

end

end
