(* ===== verification/Scheduler.thy ===== *)
theory Scheduler
  imports Keeper
begin

text \<open>
  The task scheduler (\<open>keeper/scheduler.go\<close>): tasks of a type are store entries keyed by
  height and contract, whose value is the repeat flag; at the end of a block every due task
  runs in a branch of the state, is deleted, and is registered again one epoch later when it
  repeats. The lemmas read the entries as a table from (type, height, contract) to the flag,
  show which tasks are due and in what order, and give the table after every operation.
\<close>

section \<open>Operations\<close>

definition toByte :: "bool \<Rightarrow> byte" where
  "toByte b = (if b then 1 else 0)"

definition isRepeat :: "bytes \<Rightarrow> bool" where
  "isRepeat bz \<longleftrightarrow> bz = [toByte True]"

definition ScheduleOneShotTask ::
    "('s, 'x) sdk \<Rightarrow> task_type \<Rightarrow> address \<Rightarrow> u64 \<Rightarrow> (('s, 'x) chain, unit) act" where
  "ScheduleOneShotTask E tp contract execBlockHeight = withState (\<lambda>ctx.
     if execBlockHeight < height ctx then fail ErrInvalid else
     bindA (liftR (BuildSchedulerContractKey tp execBlockHeight contract)) (\<lambda>storeKey.
     if kv_Has E (store ctx) storeKey then ret () else
     bindA (storeSet E storeKey [toByte False]) (\<lambda>_.
     emit (EmitSchedulerRegisteredEvent contract execBlockHeight False))))"

definition ScheduleRepeatingTask ::
    "('s, 'x) sdk \<Rightarrow> task_type \<Rightarrow> address \<Rightarrow> u64 \<Rightarrow> (('s, 'x) chain, unit) act" where
  "ScheduleRepeatingTask E tp contract execBlockHeight = withState (\<lambda>ctx.
     if execBlockHeight < height ctx then fail ErrInvalid else
     bindA (liftR (BuildSchedulerContractKey tp execBlockHeight contract)) (\<lambda>storeKey.
     bindA (storeSet E storeKey [toByte True]) (\<lambda>_.
     emit (EmitSchedulerRegisteredEvent contract execBlockHeight True))))"

definition ScheduleRegularRebalanceTask ::
    "('s, 'x) sdk \<Rightarrow> address \<Rightarrow> (('s, 'x) chain, unit) act" where
  "ScheduleRegularRebalanceTask E contract = withState (\<lambda>ctx.
     if \<not> wasm_HasContractInfo E (ext ctx) contract then fail ErrUnknown else
     bindA (liftR (GetRebalanceEpochLength E ctx)) (\<lambda>epochLength.
     let nextExecBlock = height ctx + epochLength in
     ScheduleRepeatingTask E SchedulerTaskHandleEpoch contract nextExecBlock))"

definition deleteScheduledTask ::
    "('s, 'x) sdk \<Rightarrow> task_type \<Rightarrow> address \<Rightarrow> u64 \<Rightarrow> (('s, 'x) chain, unit) act" where
  "deleteScheduledTask E tp contract execBlockHeight =
     bindA (liftR (BuildSchedulerContractKey tp execBlockHeight contract)) (\<lambda>storeKey.
     storeDelete E storeKey)"

text \<open>
  The loop over a task iterator: it stops at the first entry above \<open>maxHeight\<close> or when
  the callback says so.
\<close>

fun iterTasks :: "(bytes \<times> bytes) list \<Rightarrow> u64 \<Rightarrow>
    (address \<Rightarrow> u64 \<Rightarrow> bool \<Rightarrow> ('w, bool) act) \<Rightarrow> ('w, unit) act" where
  "iterTasks [] maxHeight cb = ret ()"
| "iterTasks ((key, v) # es) maxHeight cb =
     bindA (liftR (bindR (go_slice key 0 8) BigEndianToUint64)) (\<lambda>scheduledHeight.
     if maxHeight < scheduledHeight then ret () else
     bindA (liftR (go_slice key 8 (length key))) (\<lambda>addr.
     bindA (cb addr scheduledHeight (isRepeat v)) (\<lambda>stop.
     if stop then ret () else iterTasks es maxHeight cb)))"

definition IterateScheduledTasks :: "('s, 'x) sdk \<Rightarrow> task_type \<Rightarrow> u64 \<Rightarrow>
    (address \<Rightarrow> u64 \<Rightarrow> bool \<Rightarrow> ('l \<times> ('s, 'x) chain, bool) act) \<Rightarrow>
    ('l \<times> ('s, 'x) chain, unit) act" where
  "IterateScheduledTasks E tp maxHeight cb = withState (\<lambda>(l, ctx).
     bindA (liftR (BuildSchedulerTypeKeyPrefix tp)) (\<lambda>keyPrefix.
     iterTasks (kv_PrefixIterator E (store ctx) keyPrefix) maxHeight cb))"

definition iterateScheduledContractTasks :: "('s, 'x) sdk \<Rightarrow> task_type \<Rightarrow> address \<Rightarrow> u64 \<Rightarrow>
    (u64 \<Rightarrow> bool \<Rightarrow> ('l \<times> ('s, 'x) chain, bool) act) \<Rightarrow> ('l \<times> ('s, 'x) chain, unit) act" where
  "iterateScheduledContractTasks E tp contract maxHeight cb =
     IterateScheduledTasks E tp maxHeight (\<lambda>addr h repeat.
       if addr = contract then cb h repeat else ret False)"

abbreviation MaxUint :: u64 where "MaxUint \<equiv> - 1"

text \<open>
  The two searches: their closures capture the result, an iteration error is "not found",
  and a panic while decoding an entry reaches the caller.
\<close>

definition HasScheduledTask ::
    "('s, 'x) sdk \<Rightarrow> ('s, 'x) chain \<Rightarrow> task_type \<Rightarrow> address \<Rightarrow> bool \<Rightarrow> bool result" where
  "HasScheduledTask E ctx tp contract repeat =
     (case iterateScheduledContractTasks E tp contract MaxUint (\<lambda>_ isRep.
         bindA (updLocal (\<lambda>_. Ok (repeat = isRep))) (\<lambda>_. ret (repeat = isRep))) (False, ctx) of
        (Ok _, (result, _)) \<Rightarrow> Ok result
      | (Err _, _) \<Rightarrow> Ok False
      | (Panic, _) \<Rightarrow> Panic)"

definition GetNextScheduledTaskHeight ::
    "('s, 'x) sdk \<Rightarrow> ('s, 'x) chain \<Rightarrow> task_type \<Rightarrow> address \<Rightarrow> (u64 \<times> bool) result" where
  "GetNextScheduledTaskHeight E ctx tp contract =
     (case iterateScheduledContractTasks E tp contract MaxUint (\<lambda>atHeight _.
         bindA (updLocal (\<lambda>_. Ok (atHeight, True))) (\<lambda>_. ret True)) ((0, False), ctx) of
        (Ok _, ((h, found), _)) \<Rightarrow> Ok (h, found)
      | (Err _, ((h, found), _)) \<Rightarrow> Ok (h, False)
      | (Panic, _) \<Rightarrow> Panic)"

text \<open>The closure of \<open>DeleteAllScheduledTasks\<close> captures \<open>innerErr\<close>.\<close>

definition deleteTaskCallback :: "('s, 'x) sdk \<Rightarrow> task_type \<Rightarrow> address \<Rightarrow> u64 \<Rightarrow> bool \<Rightarrow>
    (error option \<times> ('s, 'x) chain, bool) act" where
  "deleteTaskCallback E tp contract h _ =
     bindA (onChain (attempt (deleteScheduledTask E tp contract h))) (\<lambda>err.
     case err of
       None \<Rightarrow> ret False
     | Some e \<Rightarrow> bindA (updLocal (\<lambda>_. Ok (Some e))) (\<lambda>_. ret True))"

definition DeleteAllScheduledTasks ::
    "('s, 'x) sdk \<Rightarrow> task_type \<Rightarrow> address \<Rightarrow> (('s, 'x) chain, unit) act" where
  "DeleteAllScheduledTasks E tp contract =
     withLocal None
       (iterateScheduledContractTasks E tp contract MaxUint (deleteTaskCallback E tp contract))
       (\<lambda>innerErr. case innerErr of None \<Rightarrow> ret () | Some e \<Rightarrow> fail e)"

section \<open>The task table\<close>

text \<open>
  \<open>taskAt\<close> is the repeat flag of a task, \<open>None\<close> without one. Every scheduler entry
  has a full height in its key.
\<close>

definition taskAt :: "('s, 'x) sdk \<Rightarrow> ('s, 'x) chain \<Rightarrow> task_type \<Rightarrow> u64 \<Rightarrow> address \<Rightarrow> bool option" where
  "taskAt E s tp h contract = map_option isRepeat (kv_Get E (store s) (taskKey tp h contract))"

definition wfTasks :: "('s, 'x) sdk \<Rightarrow> ('s, 'x) chain \<Rightarrow> bool" where
  "wfTasks E s \<longleftrightarrow> (\<forall>tp k. kv_Get E (store s) (SchedulerKeyPrefix @ tp # k) \<noteq> None \<longrightarrow> 8 \<le> length k)"

text \<open>The decoded entries of one type, in iteration order, and the ones due at a height.\<close>

definition taskEntries ::
    "('s, 'x) sdk \<Rightarrow> ('s, 'x) chain \<Rightarrow> task_type \<Rightarrow> (u64 \<times> address \<times> bool) list" where
  "taskEntries E s tp = map (\<lambda>(k, v). (beFold (take 8 k), drop 8 k, isRepeat v))
     (kv_PrefixIterator E (store s) (SchedulerKeyPrefix @ [tp]))"

definition dueTasks ::
    "('s, 'x) sdk \<Rightarrow> ('s, 'x) chain \<Rightarrow> task_type \<Rightarrow> u64 \<Rightarrow> (u64 \<times> address \<times> bool) list" where
  "dueTasks E s tp m = filter (\<lambda>t. fst t \<le> m) (taskEntries E s tp)"

text \<open>The loop over decoded entries.\<close>

fun runTasks :: "(u64 \<times> address \<times> bool) list \<Rightarrow>
    (address \<Rightarrow> u64 \<Rightarrow> bool \<Rightarrow> ('w, bool) act) \<Rightarrow> ('w, unit) act" where
  "runTasks [] cb = ret ()"
| "runTasks ((h, c, r) # ts) cb =
     bindA (cb c h r) (\<lambda>stop. if stop then ret () else runTasks ts cb)"

lemma iterTasks_eq:
  assumes "\<And>k v. (k, v) \<in> set es \<Longrightarrow> 8 \<le> length k"
    and "sorted_wrt (<) (map fst es)"
  shows "iterTasks es m cb = runTasks (filter (\<lambda>t. fst t \<le> m)
     (map (\<lambda>(k, v). (beFold (take 8 k), drop 8 k, isRepeat v)) es)) cb"
  using assms
proof (induction es)
  case Nil
  then show ?case by simp
next
  case (Cons e es)
  obtain k v where e: "e = (k, v)" by (cases e)
  have len: "8 \<le> length k"
    using Cons.prems(1) e by auto
  have split_key: "go_slice k 0 8 = Ok (take 8 k)" "go_slice k 8 (length k) = Ok (drop 8 k)"
    "BigEndianToUint64 (take 8 k) = Ok (beFold (take 8 k))"
    using len by (auto simp: go_slice_def BigEndianToUint64_def)
  have later: "beFold (take 8 k) \<le> beFold (take 8 k')" if "(k', v') \<in> set es" for k' v'
  proof -
    have "8 \<le> length k'" "k < k'"
      using that Cons.prems e by (force simp: image_iff)+
    have "take 8 k @ drop 8 k < take 8 k' @ drop 8 k'"
      using \<open>k < k'\<close> by simp
    then have "take 8 k < take 8 k' \<or> take 8 k = take 8 k'"
      using len \<open>8 \<le> length k'\<close> by (subst (asm) append_less_same_length) auto
    then show ?thesis
      using len \<open>8 \<le> length k'\<close> Uint64ToBigEndian_less_iff [of "beFold (take 8 k)" "beFold (take 8 k')"]
      by (auto simp: Uint64ToBigEndian_beFold)
  qed
  show ?case
  proof (cases "m < beFold (take 8 k)")
    case True
    then have "filter (\<lambda>t. fst t \<le> m)
        (map (\<lambda>(k, v). (beFold (take 8 k), drop 8 k, isRepeat v)) es) = []"
      using later by (force simp: filter_empty_conv)
    moreover have "\<not> beFold (take 8 k) \<le> m"
      using True by simp
    ultimately show ?thesis
      using True by (simp add: e split_key act_simps)
  next
    case False
    have "iterTasks es m cb = runTasks (filter (\<lambda>t. fst t \<le> m)
        (map (\<lambda>(k, v). (beFold (take 8 k), drop 8 k, isRepeat v)) es)) cb"
      using Cons.prems by (intro Cons.IH) auto
    moreover have "beFold (take 8 k) \<le> m"
      using False by simp
    ultimately show ?thesis
      using False by (simp add: e split_key act_simps cong: if_cong)
  qed
qed

lemma wfTasks_key:
  assumes "wfTasks E s" and "kv_Get E (store s) (SchedulerKeyPrefix @ tp # k) = Some v"
  shows "8 \<le> length k" and "SchedulerKeyPrefix @ tp # k = taskKey tp (beFold (take 8 k)) (drop 8 k)"
proof -
  show len: "8 \<le> length k"
    using assms by (auto simp: wfTasks_def)
  have "Uint64ToBigEndian (beFold (take 8 k)) @ drop 8 k = k"
    using len by (simp add: Uint64ToBigEndian_beFold)
  then show "SchedulerKeyPrefix @ tp # k = taskKey tp (beFold (take 8 k)) (drop 8 k)"
    by (simp add: taskKey_def)
qed

text \<open>The order of tasks: by height, then by contract.\<close>

definition taskLess :: "u64 \<times> address \<times> bool \<Rightarrow> u64 \<times> address \<times> bool \<Rightarrow> bool" where
  "taskLess t t' \<longleftrightarrow> fst t < fst t' \<or> fst t = fst t' \<and> fst (snd t) < fst (snd t')"

context mesh_store
begin

lemma taskIterator_iff:
  "(k, v) \<in> set (kv_PrefixIterator E (store s) (SchedulerKeyPrefix @ [tp]))
     \<longleftrightarrow> kv_Get E (store s) (SchedulerKeyPrefix @ tp # k) = Some v"
  by (simp add: iter_iff)

lemma taskEntries_iff:
  assumes "wfTasks E s"
  shows "(h, c, r) \<in> set (taskEntries E s tp) \<longleftrightarrow> taskAt E s tp h c = Some r"
proof
  assume "(h, c, r) \<in> set (taskEntries E s tp)"
  then obtain k v where kv: "kv_Get E (store s) (SchedulerKeyPrefix @ tp # k) = Some v"
    and hcr: "h = beFold (take 8 k)" "c = drop 8 k" "r = isRepeat v"
    by (auto simp: taskEntries_def taskIterator_iff)
  with wfTasks_key(2) [OF assms kv] show "taskAt E s tp h c = Some r"
    by (simp add: taskAt_def)
next
  assume "taskAt E s tp h c = Some r"
  then obtain v where v: "kv_Get E (store s) (taskKey tp h c) = Some v" "r = isRepeat v"
    by (auto simp: taskAt_def)
  let ?k = "Uint64ToBigEndian h @ c"
  have "(?k, v) \<in> set (kv_PrefixIterator E (store s) (SchedulerKeyPrefix @ [tp]))"
    using v(1) by (simp add: taskIterator_iff taskKey_def)
  moreover have "beFold (take 8 ?k) = h"
    by (simp add: beFold_eq be_value_Uint64ToBigEndian)
  ultimately show "(h, c, r) \<in> set (taskEntries E s tp)"
    using v(2) by (force simp: taskEntries_def image_iff)
qed

lemma dueTasks_iff:
  "wfTasks E s \<Longrightarrow> (h, c, r) \<in> set (dueTasks E s tp m) \<longleftrightarrow> taskAt E s tp h c = Some r \<and> h \<le> m"
  by (auto simp: dueTasks_def taskEntries_iff)

lemma taskEntries_sorted:
  assumes "wfTasks E s"
  shows "sorted_wrt taskLess (taskEntries E s tp)"
proof -
  let ?it = "kv_PrefixIterator E (store s) (SchedulerKeyPrefix @ [tp])"
  have less: "taskLess (beFold (take 8 k), drop 8 k, r) (beFold (take 8 k'), drop 8 k', r')"
    if "(k, v) \<in> set ?it" "(k', v') \<in> set ?it" "k < k'" for k v k' v' r r'
  proof -
    have "SchedulerKeyPrefix @ tp # k < SchedulerKeyPrefix @ tp # k'"
      using \<open>k < k'\<close> by (simp add: append_less_same_prefix)
    then show ?thesis
      using that wfTasks_key(2) [OF assms, of tp k v] wfTasks_key(2) [OF assms, of tp k' v']
      by (simp add: taskIterator_iff taskKey_less_iff taskLess_def)
  qed
  have "sorted_wrt (\<lambda>x y. fst x < fst y) ?it"
    using iter_sorted by (simp add: sorted_wrt_map)
  then show ?thesis
    unfolding taskEntries_def sorted_wrt_map
    by (rule sorted_wrt_mono_rel [rotated]) (use less in \<open>force simp: case_prod_beta\<close>)
qed

lemma dueTasks_sorted: "wfTasks E s \<Longrightarrow> sorted_wrt taskLess (dueTasks E s tp m)"
  by (simp add: dueTasks_def taskEntries_sorted sorted_wrt_filter)

lemma IterateScheduledTasks_eq:
  assumes "wfTasks E s"
  shows "IterateScheduledTasks E tp m cb (l, s) =
    (if tp = SchedulerTaskUndefined then (Err ErrInvalid, (l, s))
     else runTasks (dueTasks E s tp m) cb (l, s))"
proof -
  let ?it = "kv_PrefixIterator E (store s) (SchedulerKeyPrefix @ [tp])"
  have "iterTasks ?it m cb = runTasks (dueTasks E s tp m) cb"
    unfolding dueTasks_def taskEntries_def
    by (rule iterTasks_eq)
      (use wfTasks_key(1) [OF assms] iter_sorted in \<open>auto simp: taskIterator_iff\<close>)
  then show ?thesis
    by (simp add: IterateScheduledTasks_def BuildSchedulerTypeKeyPrefix_def act_simps)
qed

end

text \<open>What the scheduler's writes leave alone: everything but its own entries and the events.\<close>

definition tasksOnly :: "('s, 'x) sdk \<Rightarrow> ('s, 'x) chain \<Rightarrow> ('s, 'x) chain \<Rightarrow> bool" where
  "tasksOnly E s t \<longleftrightarrow>
     (\<forall>k. (\<forall>k'. k \<noteq> SchedulerKeyPrefix @ k') \<longrightarrow> kv_Get E (store t) k = kv_Get E (store s) k) \<and>
     mem t = mem s \<and> ext t = ext s \<and> height t = height s \<and> blockTime t = blockTime s"

lemma tasksOnly_refl [simp]: "tasksOnly E s s"
  by (simp add: tasksOnly_def)

lemma tasksOnly_trans: "tasksOnly E s t \<Longrightarrow> tasksOnly E t u \<Longrightarrow> tasksOnly E s u"
  by (simp add: tasksOnly_def)

lemma tasksOnly_events [simp]:
  "tasksOnly E s (t\<lparr>events := es\<rparr>) \<longleftrightarrow> tasksOnly E s t"
  by (simp add: tasksOnly_def)

lemma tasksOnly_params: "tasksOnly E s t \<Longrightarrow> GetParams E t = GetParams E s"
  by (rule GetParams_cong) (simp add: tasksOnly_def)

lemma tasksOnly_amounts:
  assumes "tasksOnly E s t"
  shows "limitOf E t c = limitOf E s c" and "delegatedOf E t c = delegatedOf E s c"
    and "wfAmounts E t \<longleftrightarrow> wfAmounts E s"
    and "HasMaxCapLimit E t c = HasMaxCapLimit E s c \<or> \<not> mesh_store E"
proof -
  have "kv_Get E (store t) (BuildMaxCapLimitKey c) = kv_Get E (store s) (BuildMaxCapLimitKey c)"
    "kv_Get E (store t) (BuildTotalDelegatedAmountKey c) = kv_Get E (store s) (BuildTotalDelegatedAmountKey c)" for c
    using assms by (simp_all add: tasksOnly_def)
  then show "limitOf E t c = limitOf E s c" "delegatedOf E t c = delegatedOf E s c"
    "wfAmounts E t \<longleftrightarrow> wfAmounts E s"
    "HasMaxCapLimit E t c = HasMaxCapLimit E s c \<or> \<not> mesh_store E"
    by (auto simp: wfAmounts_def HasMaxCapLimit_def mesh_store_def kv_store.has_get intro: amountAt_cong)
qed

lemma isRepeat_toByte [simp]: "isRepeat [toByte b] = b"
  by (simp add: isRepeat_def toByte_def)

lemma taskAt_cong:
  "kv_Get E (store s) (taskKey tp h c) = kv_Get E (store t) (taskKey tp h c) \<Longrightarrow>
     taskAt E s tp h c = taskAt E t tp h c"
  by (simp add: taskAt_def)

lemma taskAt_events [simp]: "taskAt E (s\<lparr>events := es\<rparr>) = taskAt E s"
  by (simp add: taskAt_def fun_eq_iff)

lemma wfTasks_events [simp]: "wfTasks E (s\<lparr>events := es\<rparr>) = wfTasks E s"
  by (simp add: wfTasks_def)

context mesh_store
begin

lemma taskAt_set:
  "taskAt E (s\<lparr>store := kv_Set E (store s) (taskKey tp h c) [toByte b]\<rparr>) tp' h' c' =
     (if (tp', h', c') = (tp, h, c) then Some b else taskAt E s tp' h' c')"
  by (simp add: taskAt_def get_set)

lemma taskAt_delete:
  "taskAt E (s\<lparr>store := kv_Delete E (store s) (taskKey tp h c)\<rparr>) tp' h' c' =
     (if (tp', h', c') = (tp, h, c) then None else taskAt E s tp' h' c')"
  by (simp add: taskAt_def get_del)

lemma wfTasks_set: "wfTasks E s \<Longrightarrow> wfTasks E (s\<lparr>store := kv_Set E (store s) (taskKey tp h c) v\<rparr>)"
  by (auto simp: wfTasks_def get_set taskKey_def)

lemma wfTasks_delete:
  "wfTasks E s \<Longrightarrow> wfTasks E (s\<lparr>store := kv_Delete E (store s) k\<rparr>)"
  by (auto simp: wfTasks_def get_del)

lemma tasksOnly_set: "tasksOnly E s (s\<lparr>store := kv_Set E (store s) (taskKey tp h c) v\<rparr>)"
  by (simp add: tasksOnly_def get_set taskKey_def)

lemma tasksOnly_delete: "tasksOnly E s (s\<lparr>store := kv_Delete E (store s) (taskKey tp h c)\<rparr>)"
  by (simp add: tasksOnly_def get_del taskKey_def)

text \<open>The two ways to register a task, every branch.\<close>

lemma ScheduleOneShotTask_eq:
  "ScheduleOneShotTask E tp c h s =
    (if h < height s \<or> tp = SchedulerTaskUndefined then (Err ErrInvalid, s)
     else if taskAt E s tp h c \<noteq> None then (Ok (), s)
     else (Ok (), s\<lparr>store := kv_Set E (store s) (taskKey tp h c) [toByte False],
                    events := events s @ [EmitSchedulerRegisteredEvent c h False]\<rparr>))"
  by (simp add: ScheduleOneShotTask_def act_simps bindA_def BuildSchedulerContractKey_eq has_get taskAt_def)

lemma ScheduleRepeatingTask_eq:
  "ScheduleRepeatingTask E tp c h s =
    (if h < height s \<or> tp = SchedulerTaskUndefined then (Err ErrInvalid, s)
     else (Ok (), s\<lparr>store := kv_Set E (store s) (taskKey tp h c) [toByte True],
                    events := events s @ [EmitSchedulerRegisteredEvent c h True]\<rparr>))"
  by (simp add: ScheduleRepeatingTask_def act_simps bindA_def BuildSchedulerContractKey_eq)

lemma deleteScheduledTask_eq:
  "deleteScheduledTask E tp c h s =
    (if tp = SchedulerTaskUndefined then (Err ErrInvalid, s)
     else (Ok (), s\<lparr>store := kv_Delete E (store s) (taskKey tp h c)\<rparr>))"
  by (simp add: deleteScheduledTask_def act_simps BuildSchedulerContractKey_eq)

lemma ScheduleOneShotTask_OkD:
  assumes "ScheduleOneShotTask E tp c h s = (Ok u, t)"
  shows "height s \<le> h" and "tp \<noteq> SchedulerTaskUndefined" and "tasksOnly E s t"
    and "wfTasks E s \<Longrightarrow> wfTasks E t"
    and "taskAt E t tp' h' c' = (if (tp', h', c') = (tp, h, c) \<and> taskAt E s tp h c = None
           then Some False else taskAt E s tp' h' c')"
  using assms
  by (auto simp: ScheduleOneShotTask_eq taskAt_set tasksOnly_set wfTasks_set split: if_splits)

lemma ScheduleRepeatingTask_OkD:
  assumes "ScheduleRepeatingTask E tp c h s = (Ok u, t)"
  shows "height s \<le> h" and "tp \<noteq> SchedulerTaskUndefined" and "tasksOnly E s t"
    and "wfTasks E s \<Longrightarrow> wfTasks E t"
    and "taskAt E t tp' h' c' = (if (tp', h', c') = (tp, h, c) then Some True else taskAt E s tp' h' c')"
  using assms
  by (auto simp: ScheduleRepeatingTask_eq taskAt_set tasksOnly_set wfTasks_set split: if_splits)

text \<open>The rebalance task of a known contract goes one epoch ahead.\<close>

lemma ScheduleRegularRebalanceTask_eq:
  "ScheduleRegularRebalanceTask E c s =
    (if \<not> wasm_HasContractInfo E (ext s) c then (Err ErrUnknown, s)
     else (case GetRebalanceEpochLength E s of
        Ok epoch \<Rightarrow> ScheduleRepeatingTask E SchedulerTaskHandleEpoch c (height s + epoch) s
      | Err e \<Rightarrow> (Err e, s) | Panic \<Rightarrow> (Panic, s)))"
  by (simp add: ScheduleRegularRebalanceTask_def act_simps Let_def split: result.split)

text \<open>The searches.\<close>

lemma dueTasks_all: "dueTasks E s tp MaxUint = taskEntries E s tp"
proof -
  have "h \<le> MaxUint" for h :: u64
    by simp
  then show ?thesis by (simp add: dueTasks_def)
qed

lemma HasScheduledTask_eq:
  assumes "wfTasks E s"
  shows "HasScheduledTask E s tp c rep =
    Ok (tp \<noteq> SchedulerTaskUndefined \<and> (\<exists>h. taskAt E s tp h c = Some rep))"
proof -
  let ?cb = "\<lambda>addr h r. if addr = c
      then bindA (updLocal (\<lambda>_. Ok (rep = r))) (\<lambda>_. ret (rep = r)) else ret False"
  have run: "runTasks ts ?cb (False, s) = (Ok (), (\<exists>h. (h, c, rep) \<in> set ts, s))" for ts
  proof (induction ts)
    case (Cons t ts)
    obtain h c' r where "t = (h, c', r)" by (cases t) auto
    with Cons show ?case by (auto simp: act_simps bindA_def)
  qed (simp add: act_simps)
  show ?thesis
    using assms
    by (simp add: HasScheduledTask_def iterateScheduledContractTasks_def IterateScheduledTasks_eq
        dueTasks_all taskEntries_iff run [unfolded if_distrib])
qed


lemma GetNextScheduledTaskHeight_run:
  "runTasks ts (\<lambda>addr h r. if addr = c
      then bindA (updLocal (\<lambda>_. Ok (h, True))) (\<lambda>_. ret True) else ret False) ((h0, False), s) =
    (Ok (), (case find (\<lambda>t. fst (snd t) = c) ts of None \<Rightarrow> (h0, False) | Some t \<Rightarrow> (fst t, True)), s)"
proof (induction ts)
  case (Cons t ts)
  obtain h c' r where "t = (h, c', r)" by (cases t) auto
  with Cons show ?case by (auto simp: act_simps bindA_def)
qed (simp add: act_simps)

lemma GetNextScheduledTaskHeight_eq:
  assumes "wfTasks E s" and "tp \<noteq> SchedulerTaskUndefined"
  shows "GetNextScheduledTaskHeight E s tp c = Ok (h, found) \<longleftrightarrow>
    (if \<exists>h r. taskAt E s tp h c = Some r
     then found \<and> taskAt E s tp h c \<noteq> None \<and> (\<forall>h'. taskAt E s tp h' c \<noteq> None \<longrightarrow> h \<le> h')
     else h = 0 \<and> \<not> found)"
proof -
  let ?ts = "taskEntries E s tp"
  let ?f = "find (\<lambda>t. fst (snd t) = c) ?ts"
  have val: "GetNextScheduledTaskHeight E s tp c =
      Ok (case ?f of None \<Rightarrow> (0, False) | Some t \<Rightarrow> (fst t, True))"
    using assms
    by (simp add: GetNextScheduledTaskHeight_def iterateScheduledContractTasks_def
        IterateScheduledTasks_eq dueTasks_all GetNextScheduledTaskHeight_run split: option.split)
  show ?thesis
  proof (cases ?f)
    case None
    then have "\<nexists>h r. taskAt E s tp h c = Some r"
      using assms taskEntries_iff [of s _ c _ tp] by (force simp: find_None_iff)
    with None val show ?thesis by auto
  next
    case (Some t)
    then obtain i where i: "i < length ?ts" "t = ?ts ! i" "fst (snd t) = c"
      and first: "\<And>j. j < i \<Longrightarrow> fst (snd (?ts ! j)) \<noteq> c"
      by (auto simp: find_Some_iff)
    obtain k r where t: "t = (k, c, r)"
      using i(3) by (metis prod.collapse)
    have nth: "?ts ! i = (k, c, r)"
      using i(2) t by simp
    have at: "taskAt E s tp k c = Some r"
      using nth_mem [OF i(1)] i(2) [symmetric] assms(1) by (simp add: t taskEntries_iff)
    have least: "k \<le> h'" if "taskAt E s tp h' c = Some r'" for h' r'
    proof -
      have "(h', c, r') \<in> set ?ts"
        using that assms(1) by (simp add: taskEntries_iff)
      then obtain j where j: "j < length ?ts" "?ts ! j = (h', c, r')"
        by (auto simp: in_set_conv_nth)
      with first [of j] have "i \<le> j" by fastforce
      then show ?thesis
        using sorted_wrt_nth_less [OF taskEntries_sorted [OF assms(1)], of i j tp] nth j
        by (cases "i = j") (auto simp: taskLess_def)
    qed
    from Some t val have "GetNextScheduledTaskHeight E s tp c = Ok (k, True)" by simp
    then show ?thesis
      using at least by (auto intro: antisym)
  qed
qed

lemma DeleteAll_run:
  assumes "tp \<noteq> SchedulerTaskUndefined" and "wfTasks E s"
  obtains t where "runTasks ts (\<lambda>addr h r. if addr = c then deleteTaskCallback E tp c h r
        else ret False) (None, s) = (Ok (), (None, t))"
    and "tasksOnly E s t" and "wfTasks E t" and "events t = events s"
    and "\<And>tp' h c'. taskAt E t tp' h c' =
      (if tp' = tp \<and> c' = c \<and> (\<exists>r. (h, c, r) \<in> set ts) then None else taskAt E s tp' h c')"
  using assms(2)
proof (induction ts arbitrary: s thesis)
  case Nil
  then show ?case by (simp add: act_simps)
next
  case (Cons t ts)
  obtain h c' r where t: "t = (h, c', r)" by (cases t) auto
  show ?case
  proof (cases "c' = c")
    case False
    obtain t' where t': "runTasks ts (\<lambda>addr h r. if addr = c then deleteTaskCallback E tp c h r
        else ret False) (None, s) = (Ok (), (None, t'))"
      "tasksOnly E s t'" "wfTasks E t'" "events t' = events s"
      "\<And>tp' h c'. taskAt E t' tp' h c' =
        (if tp' = tp \<and> c' = c \<and> (\<exists>r. (h, c, r) \<in> set ts) then None else taskAt E s tp' h c')"
      using Cons.IH [OF _ Cons.prems(2)] by blast
    then show ?thesis
      using False by (intro Cons.prems(1) [of t']) (simp_all add: t act_simps)
  next
    case True
    let ?s = "s\<lparr>store := kv_Delete E (store s) (taskKey tp h c)\<rparr>"
    obtain t' where t': "runTasks ts (\<lambda>addr h r. if addr = c then deleteTaskCallback E tp c h r
        else ret False) (None, ?s) = (Ok (), (None, t'))"
      "tasksOnly E ?s t'" "wfTasks E t'" "events t' = events ?s"
      "\<And>tp' h c'. taskAt E t' tp' h c' =
        (if tp' = tp \<and> c' = c \<and> (\<exists>r. (h, c, r) \<in> set ts) then None else taskAt E ?s tp' h c')"
      using Cons.IH [OF _ wfTasks_delete [OF Cons.prems(2)]] by blast
    have "runTasks (t # ts) (\<lambda>addr h r. if addr = c then deleteTaskCallback E tp c h r
        else ret False) (None, s) = (Ok (), (None, t'))"
      using t'(1) assms(1) True
      by (simp add: t deleteTaskCallback_def act_simps bindA_def attempt_def deleteScheduledTask_eq)
    then show ?thesis
      using t' True tasksOnly_trans [OF tasksOnly_delete t'(2)]
      by (intro Cons.prems(1) [of t']) (auto simp: t taskAt_delete)
  qed
qed

lemma DeleteAllScheduledTasks_eq:
  assumes "wfTasks E s" and "tp \<noteq> SchedulerTaskUndefined"
  obtains t where "DeleteAllScheduledTasks E tp c s = (Ok (), t)"
    and "tasksOnly E s t" and "wfTasks E t" and "events t = events s"
    and "\<And>tp' h c'. taskAt E t tp' h c' =
      (if tp' = tp \<and> c' = c then None else taskAt E s tp' h c')"
proof -
  obtain t where t: "runTasks (taskEntries E s tp) (\<lambda>addr h r. if addr = c
        then deleteTaskCallback E tp c h r else ret False) (None, s) = (Ok (), (None, t))"
    "tasksOnly E s t" "wfTasks E t" "events t = events s"
    "\<And>tp' h c'. taskAt E t tp' h c' = (if tp' = tp \<and> c' = c \<and>
        (\<exists>r. (h, c, r) \<in> set (taskEntries E s tp)) then None else taskAt E s tp' h c')"
    using DeleteAll_run [OF assms(2,1)] by blast
  have "DeleteAllScheduledTasks E tp c s = (Ok (), t)"
    using t(1) assms
    by (simp add: DeleteAllScheduledTasks_def withLocal_def iterateScheduledContractTasks_def
        IterateScheduledTasks_eq dueTasks_all act_simps)
  then show thesis
    using t(2-5) by (intro that [of t]) (auto simp: taskEntries_iff [OF assms(1)])
qed

lemma DeleteAllScheduledTasks_undefined:
  "DeleteAllScheduledTasks E SchedulerTaskUndefined c s = (Err ErrInvalid, s)"
  by (simp add: DeleteAllScheduledTasks_def withLocal_def iterateScheduledContractTasks_def
      IterateScheduledTasks_def BuildSchedulerTypeKeyPrefix_def act_simps)

end

end
