(* ===== verification/Stake.thy ===== *)
theory Stake
  imports Scheduler
begin

text \<open>
  Virtual staking (\<open>keeper/stake.go\<close>) and the adapters that add the Osmosis operations to
  the vanilla SDK keepers (\<open>keeper/adapter.go\<close>, \<open>NewKeeper\<close> in
  \<open>keeper/keeper.go\<close>). \<open>Delegate\<close> mints virtual tokens for a contract and delegates
  them, within the contract's limit; \<open>Undelegate\<close> unbonds at once and burns what comes
  back. Both work on a branch of the state. The lemmas give both operations branch by branch,
  bound the delegated total by the limit, show that a failed undelegation changes nothing,
  and show that supply plus supply offset does not move.
\<close>

section \<open>Constructors and adapters\<close>

definition BankKeeperAdapter_AddSupplyOffset :: "string \<Rightarrow> int \<Rightarrow> 'x \<Rightarrow> unit result \<times> 'x" where
  "BankKeeperAdapter_AddSupplyOffset d offsetAmount = (\<lambda>x. (Ok (), x))"

definition NotBondedPoolName :: string where "NotBondedPoolName = ''not_bonded_tokens_pool''"
definition BondedPoolName :: string where "BondedPoolName = ''bonded_tokens_pool''"

definition InstantUndelegate ::
    "('s, 'x) sdk \<Rightarrow> address \<Rightarrow> address \<Rightarrow> dec \<Rightarrow> ('x, coins) act" where
  "InstantUndelegate E delAddr valAddr sharesAmount = withState (\<lambda>ctx.
     case staking_GetValidator E ctx valAddr of
       None \<Rightarrow> fail ErrNoDelegatorForAddress
     | Some validator \<Rightarrow>
         bindA (staking_Unbond E delAddr valAddr sharesAmount) (\<lambda>returnAmount.
         withState (\<lambda>ctx. let bondDenom = staking_BondDenom E ctx in
         bindA (liftR (Coin_New E bondDenom (Some returnAmount))) (\<lambda>amt.
         bindA (liftR (Coins_New E amt)) (\<lambda>res.
         let moduleName = (if ValBonded validator then BondedPoolName else NotBondedPoolName) in
         bindA (bank_UndelegateCoinsFromModuleToAccount E moduleName delAddr res) (\<lambda>_.
         ret res))))))"

text \<open>An option changes the keeper after its fields are set.\<close>

type_synonym ('s, 'x) wasm_keeper =
  "(address \<Rightarrow> bytes \<Rightarrow> (('s, 'x) chain, bytes) act) \<times> ('x \<Rightarrow> address \<Rightarrow> bool)"

definition WithWasmKeeperDecorated ::
    "(('s, 'x) wasm_keeper \<Rightarrow> ('s, 'x) wasm_keeper) \<Rightarrow> ('s, 'x) sdk \<Rightarrow> ('s, 'x) sdk" where
  "WithWasmKeeperDecorated cb k =
     (let (sudo, hasContractInfo) = cb (wasm_Sudo k, wasm_HasContractInfo k) in
      k\<lparr>wasm_Sudo := sudo, wasm_HasContractInfo := hasContractInfo\<rparr>)"

definition NewKeeperX :: "('s, 'x) sdk \<Rightarrow> (('s, 'x) sdk \<Rightarrow> ('s, 'x) sdk) list \<Rightarrow> ('s, 'x) sdk" where
  "NewKeeperX k opts = fold (\<lambda>o_apply k. o_apply k) opts k"

text \<open>
  The adapters embed the keeper they are given and add the missing method; the staking adapter
  also keeps the vanilla bank keeper for itself.
\<close>

definition NewBankKeeperAdapter :: "('s, 'x) sdk \<Rightarrow> ('s, 'x) sdk" where
  "NewBankKeeperAdapter k = k\<lparr>bank_AddSupplyOffset := BankKeeperAdapter_AddSupplyOffset\<rparr>"

definition NewStakingKeeperAdapter :: "('s, 'x) sdk \<Rightarrow> ('s, 'x) sdk" where
  "NewStakingKeeperAdapter k = k\<lparr>staking_InstantUndelegate := InstantUndelegate k\<rparr>"

definition NewKeeper :: "('s, 'x) sdk \<Rightarrow> (('s, 'x) sdk \<Rightarrow> ('s, 'x) sdk) list \<Rightarrow> ('s, 'x) sdk" where
  "NewKeeper k opts = NewKeeperX (NewBankKeeperAdapter (NewStakingKeeperAdapter k)) opts"

section \<open>Delegation\<close>

definition positiveAmount :: "coin \<Rightarrow> int result" where
  "positiveAmount amt =
     (case amount amt of
        None \<Rightarrow> Err ErrInvalidRequest
      | Some n \<Rightarrow> if n = 0 \<or> n < 0 then Err ErrInvalidRequest else Ok n)"

text \<open>What \<open>Delegate\<close> does on its branch, from \<open>CacheContext()\<close> to \<open>done()\<close>.\<close>

definition delegateOnBranch :: "('s, 'x) sdk \<Rightarrow> address \<Rightarrow> validator \<Rightarrow> coin \<Rightarrow> int \<Rightarrow> coin \<Rightarrow>
    (('s, 'x) chain, dec result) act" where
  "delegateOnBranch E actor validator amt n newTotalDelegatedAmount = (
     bindA (liftR (Coins_New E amt)) (\<lambda>coins.
     bindA (onExt (bank_MintCoins E ModuleName coins)) (\<lambda>_.
     bindA (onExt (bank_AddSupplyOffset E (denom amt) (- n))) (\<lambda>_.
     bindA (onExt (bank_SendCoinsFromModuleToAccount E ModuleName actor coins)) (\<lambda>_.
     bindA (caught (onExt (staking_Delegate E actor n validator))) (\<lambda>newShares.
     bindA (setTotalDelegated E actor newTotalDelegatedAmount) (\<lambda>_.
     ret newShares)))))))"

definition Delegate ::
    "('s, 'x) sdk \<Rightarrow> address \<Rightarrow> address \<Rightarrow> coin \<Rightarrow> (('s, 'x) chain, dec) act" where
  "Delegate E actor valAddr amt = withState (\<lambda>pCtx.
     bindA (liftR (positiveAmount amt)) (\<lambda>n.
     let bondDenom = staking_BondDenom E (ext pCtx) in
     if denom amt \<noteq> bondDenom then fail ErrInvalidRequest else
     (case staking_GetValidator E (ext pCtx) valAddr of
        None \<Rightarrow> fail ErrNoValidatorFound
      | Some validator \<Rightarrow>
          bindA (liftR (bindR (GetTotalDelegated E pCtx actor) (\<lambda>c. Coin_Add E c amt)))
            (\<lambda>newTotalDelegatedAmount.
          bindA (liftR (GetMaxCapLimit E pCtx actor)) (\<lambda>max.
          bindA (liftR (Coin_IsLT E max newTotalDelegatedAmount)) (\<lambda>exceeded.
          if exceeded then fail ErrMaxCapExceeded else
          bindA (cacheContext
            (bindA (delegateOnBranch E actor validator amt n newTotalDelegatedAmount)
              (\<lambda>newShares. ret (newShares, True)))) liftR))))))"

text \<open>
  What \<open>Undelegate\<close> does on its branch: from the unbonding to the new total, and the checks
  before it. When there is no delegation the code returns without \<open>done()\<close>.
\<close>

definition unbondAndBurn :: "('s, 'x) sdk \<Rightarrow> address \<Rightarrow> address \<Rightarrow> string \<Rightarrow> coin \<Rightarrow> dec \<Rightarrow>
    (('s, 'x) chain, unit) act" where
  "unbondAndBurn E actor valAddr bondDenom totalDelegatedAmount shares =
     bindA (onExt (staking_InstantUndelegate E actor valAddr shares)) (\<lambda>undelegatedCoins.
     bindA (onExt (bank_SendCoinsFromAccountToModule E actor ModuleName undelegatedCoins)) (\<lambda>_.
     bindA (onExt (bank_BurnCoins E ModuleName undelegatedCoins)) (\<lambda>_.
     bindA (liftR (bindR (Coins_AmountOf E undelegatedCoins bondDenom) (\<lambda>a.
       Coin_New E bondDenom (Some a)))) (\<lambda>unbondedAmount.
     bindA (liftR (nonNil (amount unbondedAmount))) (\<lambda>m.
     bindA (onExt (bank_AddSupplyOffset E bondDenom m)) (\<lambda>_.
     bindA (liftR (Coin_Sub E totalDelegatedAmount unbondedAmount)) (\<lambda>newDelegatedAmt.
     bindA (liftR (nonNil (amount newDelegatedAmt))) (\<lambda>left.
     bindA (liftR (if left < 0 then Coin_New E bondDenom (Some 0) else Ok newDelegatedAmt))
       (\<lambda>newDelegatedAmt.
     setTotalDelegated E actor newDelegatedAmt)))))))))"

definition undelegateOnBranch :: "('s, 'x) sdk \<Rightarrow> address \<Rightarrow> address \<Rightarrow> coin \<Rightarrow> int \<Rightarrow>
    (('s, 'x) chain, unit \<times> bool) act" where
  "undelegateOnBranch E actor valAddr amt n = withState (\<lambda>cacheCtx.
     bindA (liftR (GetTotalDelegated E cacheCtx actor)) (\<lambda>totalDelegatedAmount.
     bindA (liftR (Coin_IsLT E totalDelegatedAmount amt)) (\<lambda>tooMuch.
     if tooMuch then fail ErrInvalidRequest else
     (case staking_ValidateUnbondAmount E (ext cacheCtx) actor valAddr n of
        Ok shares \<Rightarrow>
          bindA (unbondAndBurn E actor valAddr (denom amt) totalDelegatedAmount shares) (\<lambda>_.
          ret ((), True))
      | Err e \<Rightarrow> if e = ErrNoDelegation then ret ((), False) else fail e
      | Panic \<Rightarrow> panic))))"

definition Undelegate ::
    "('s, 'x) sdk \<Rightarrow> address \<Rightarrow> address \<Rightarrow> coin \<Rightarrow> (('s, 'x) chain, unit) act" where
  "Undelegate E actor valAddr amt = withState (\<lambda>pCtx.
     bindA (liftR (positiveAmount amt)) (\<lambda>n.
     let bondDenom = staking_BondDenom E (ext pCtx) in
     if denom amt \<noteq> bondDenom then fail ErrInvalidRequest else
     cacheContext (undelegateOnBranch E actor valAddr amt n)))"

section \<open>The laws of the other modules\<close>

text \<open>
  \<open>liquid x d\<close> is the supply of a denomination plus its supply offset. Minting and burning
  move it by the amount of the coins, an offset moves it by the offset, everything else keeps
  it. \<open>Coins_New\<close> of a positive coin holds that coin's amount.
\<close>

locale virtual_bank =
  fixes E :: "('s, 'x) sdk"
    and liquid :: "'x \<Rightarrow> string \<Rightarrow> int"
  assumes liquid_mint: "bank_MintCoins E m cs x = (Ok u, x') \<Longrightarrow> Coins_AmountOf E cs d = Ok a \<Longrightarrow>
      liquid x' d = liquid x d + a"
    and liquid_burn: "bank_BurnCoins E m cs x = (Ok u, x') \<Longrightarrow> Coins_AmountOf E cs d = Ok a \<Longrightarrow>
      liquid x' d = liquid x d - a"
    and liquid_offset: "bank_AddSupplyOffset E d n x = (Ok u, x') \<Longrightarrow>
      liquid x' d' = liquid x d' + (if d' = d then n else 0)"
    and liquid_send: "bank_SendCoinsFromModuleToAccount E m c cs x = (Ok u, x') \<Longrightarrow> liquid x' = liquid x"
    and liquid_take: "bank_SendCoinsFromAccountToModule E c m cs x = (Ok u, x') \<Longrightarrow> liquid x' = liquid x"
    and liquid_delegate: "liquid (snd (staking_Delegate E c n v x)) = liquid x"
    and liquid_undelegate: "staking_InstantUndelegate E c va sh x = (Ok cs, x') \<Longrightarrow> liquid x' = liquid x"
    and Coins_New: "Coins_New E (Coin d (Some n)) = Ok cs \<Longrightarrow> 0 < n \<Longrightarrow>
      Coins_AmountOf E cs d' = Ok (if d' = d then n else 0)"

section \<open>Lemmas\<close>

definition totalOf :: "('s, 'x) sdk \<Rightarrow> ('s, 'x) chain \<Rightarrow> address \<Rightarrow> int" where
  "totalOf E s c = (case delegatedOf E s c of None \<Rightarrow> 0 | Some n \<Rightarrow> n)"

definition capOf :: "('s, 'x) sdk \<Rightarrow> ('s, 'x) chain \<Rightarrow> address \<Rightarrow> int" where
  "capOf E s c = (case limitOf E s c of None \<Rightarrow> 0 | Some n \<Rightarrow> n)"

text \<open>What staking operations leave alone: everything but one contract's total, and the rest of the chain.\<close>

definition onlyTotal :: "('s, 'x) sdk \<Rightarrow> address \<Rightarrow> int \<Rightarrow> ('s, 'x) chain \<Rightarrow> ('s, 'x) chain \<Rightarrow> bool" where
  "onlyTotal E c n s t \<longleftrightarrow>
     delegatedOf E t c = Some n \<and>
     (\<forall>k. k \<noteq> BuildTotalDelegatedAmountKey c \<longrightarrow> kv_Get E (store t) k = kv_Get E (store s) k) \<and>
     mem t = mem s \<and> height t = height s \<and> blockTime t = blockTime s"

lemma onlyTotalD:
  assumes "onlyTotal E c n s t"
  shows "totalOf E t c' = (if c' = c then n else totalOf E s c')"
    and "limitOf E t c' = limitOf E s c'" and "capOf E t c' = capOf E s c'"
    and "taskAt E t tp h c' = taskAt E s tp h c'" and "GetParams E t = GetParams E s"
    and "wfTasks E t \<longleftrightarrow> wfTasks E s"
proof -
  have keys: "kv_Get E (store t) (BuildMaxCapLimitKey c') = kv_Get E (store s) (BuildMaxCapLimitKey c')"
    "kv_Get E (store t) (taskKey tp h c') = kv_Get E (store s) (taskKey tp h c')"
    "kv_Get E (store t) ParamsKey = kv_Get E (store s) ParamsKey"
    "kv_Get E (store t) (SchedulerKeyPrefix @ k) = kv_Get E (store s) (SchedulerKeyPrefix @ k)"
    "c' \<noteq> c \<Longrightarrow> kv_Get E (store t) (BuildTotalDelegatedAmountKey c')
       = kv_Get E (store s) (BuildTotalDelegatedAmountKey c')" for c' k
    using assms by (auto simp: onlyTotal_def simp del: prefix_disjoint)
      (auto simp: key_defs)
  show "totalOf E t c' = (if c' = c then n else totalOf E s c')"
    using assms amountAt_cong [OF keys(5)] by (auto simp: totalOf_def onlyTotal_def)
  show "limitOf E t c' = limitOf E s c'"
    by (rule amountAt_cong [OF keys(1)])
  then show "capOf E t c' = capOf E s c'"
    by (simp add: capOf_def)
  show "taskAt E t tp h c' = taskAt E s tp h c'"
    by (simp add: taskAt_def keys)
  show "GetParams E t = GetParams E s"
    by (rule GetParams_cong [OF keys(3)])
  show "wfTasks E t \<longleftrightarrow> wfTasks E s"
    using keys(4) by (simp add: wfTasks_def)
qed

text \<open>An undelegation that does not succeed leaves no trace.\<close>

lemma Undelegate_not_Ok:
  assumes "Undelegate E actor valAddr amt s = (r, t)" and "\<And>u. r \<noteq> Ok u"
  shows "t = s"
  using assms cacheContext_not_Ok [of "undelegateOnBranch E actor valAddr amt n" s r t for n]
  by (cases "positiveAmount amt") (auto simp: Undelegate_def act_simps Let_def split: if_splits)

context keeper
begin

lemma GetTotalDelegated_eq:
  assumes "wfAmounts E s" and "valid_denom (staking_BondDenom E (ext s))"
  shows "GetTotalDelegated E s c = Ok (Coin (staking_BondDenom E (ext s)) (Some (totalOf E s c)))"
    and "0 \<le> totalOf E s c" and "int256 (totalOf E s c)"
proof -
  show "0 \<le> totalOf E s c" "int256 (totalOf E s c)"
    using delegatedOf_nonneg [OF assms(1), of c] by (auto simp: totalOf_def split: option.split)
  then show "GetTotalDelegated E s c = Ok (Coin (staking_BondDenom E (ext s)) (Some (totalOf E s c)))"
    using assms mustLoadInt_delegated [OF assms(1), of c]
    by (simp add: GetTotalDelegated_def Coin_New totalOf_def [symmetric])
qed

lemma GetMaxCapLimit_eq:
  assumes "wfAmounts E s" and "valid_denom (staking_BondDenom E (ext s))"
  shows "GetMaxCapLimit E s c = Ok (Coin (staking_BondDenom E (ext s)) (Some (capOf E s c)))"
    and "0 \<le> capOf E s c"
proof -
  show "0 \<le> capOf E s c"
    using limitOf_nonneg [OF assms(1), of c] by (auto simp: capOf_def split: option.split)
  then show "GetMaxCapLimit E s c = Ok (Coin (staking_BondDenom E (ext s)) (Some (capOf E s c)))"
    using assms mustLoadInt_limit [OF assms(1), of c]
    by (simp add: GetMaxCapLimit_def Coin_New capOf_def [symmetric])
qed

lemma setTotalDelegated_OkD:
  assumes "setTotalDelegated E c (Coin d (Some n)) s = (Ok u, t)"
  shows "onlyTotal E c n s t" and "d = staking_BondDenom E (ext s)" and "ext t = ext s"
    and "events t = events s"
    and "wfAmounts E s \<Longrightarrow> 0 \<le> n \<Longrightarrow> int256 n \<Longrightarrow> wfAmounts E t"
proof -
  obtain bz where bz: "Int_Marshal E (Some n) = Ok bz"
    and t: "t = s\<lparr>store := kv_Set E (store s) (BuildTotalDelegatedAmountKey c) bz\<rparr>"
    and d: "d = staking_BondDenom E (ext s)"
    using assms by (auto simp: setTotalDelegated_def act_simps ok_iffs split: if_splits)
  show "onlyTotal E c n s t"
    using Int_Unmarshal [OF bz] by (simp add: t onlyTotal_def amountAt_def get_set)
  show "d = staking_BondDenom E (ext s)" "ext t = ext s" "events t = events s"
    by (simp_all add: d t)
  show "wfAmounts E s \<Longrightarrow> 0 \<le> n \<Longrightarrow> int256 n \<Longrightarrow> wfAmounts E t"
    using goodAmount_marshal [OF bz] by (auto simp: t wfAmounts_def get_set)
qed

text \<open>\<open>Delegate\<close> on every branch of its checks; what follows them is \<open>delegateOnBranch\<close>.\<close>

lemma Delegate_eq:
  assumes "wfAmounts E s" and "valid_denom (staking_BondDenom E (ext s))"
  shows "Delegate E actor valAddr amt s =
    (case positiveAmount amt of
       Ok n \<Rightarrow>
         if denom amt \<noteq> staking_BondDenom E (ext s) then (Err ErrInvalidRequest, s)
         else (case staking_GetValidator E (ext s) valAddr of
           None \<Rightarrow> (Err ErrNoValidatorFound, s)
         | Some v \<Rightarrow>
             if \<not> int256 (totalOf E s actor + n) then (Panic, s)
             else if capOf E s actor < totalOf E s actor + n then (Err ErrMaxCapExceeded, s)
             else bindA (cacheContext (bindA (delegateOnBranch E actor v amt n
                      (Coin (staking_BondDenom E (ext s)) (Some (totalOf E s actor + n))))
                    (\<lambda>sh. ret (sh, True)))) liftR s)
     | Err e \<Rightarrow> (Err e, s) | Panic \<Rightarrow> (Panic, s))"
proof (cases "positiveAmount amt")
  case (Ok n)
  then have "amount amt = Some n"
    by (auto simp: positiveAmount_def split: option.splits if_splits)
  then have amt: "amt = Coin (denom amt) (Some n)"
    by simp
  show ?thesis
    using Ok GetTotalDelegated_eq(1) [OF assms(1,2)] GetMaxCapLimit_eq(1) [OF assms(1,2)]
      Coin_Add [of "denom amt" "totalOf E s actor" "denom amt" n, folded amt]
    by (auto simp: Delegate_def act_simps Coin_IsLT split: option.split)
qed (simp_all add: Delegate_def act_simps)

lemma positiveAmount_Ok_iff: "positiveAmount amt = Ok n \<longleftrightarrow> amount amt = Some n \<and> 0 < n"
  by (auto simp: positiveAmount_def split: option.splits)

lemma delegateOnBranch_OkD:
  assumes "delegateOnBranch E actor v amt n (Coin d (Some m)) s = (Ok r, c)"
  obtains cs x1 x2 x3 where "Coins_New E amt = Ok cs"
    and "bank_MintCoins E ModuleName cs (ext s) = (Ok (), x1)"
    and "bank_AddSupplyOffset E (denom amt) (- n) x1 = (Ok (), x2)"
    and "bank_SendCoinsFromModuleToAccount E ModuleName actor cs x2 = (Ok (), x3)"
    and "staking_Delegate E actor n v x3 = (r, ext c)"
    and "onlyTotal E actor m s c"
    and "wfAmounts E s \<Longrightarrow> 0 \<le> m \<Longrightarrow> int256 m \<Longrightarrow> wfAmounts E c"
proof -
  obtain cs x1 x2 x3 u4 s4 where steps: "Coins_New E amt = Ok cs"
    "bank_MintCoins E ModuleName cs (ext s) = (Ok (), x1)"
    "bank_AddSupplyOffset E (denom amt) (- n) x1 = (Ok (), x2)"
    "bank_SendCoinsFromModuleToAccount E ModuleName actor cs x2 = (Ok (), x3)"
    and del: "caught (onExt (staking_Delegate E actor n v)) (s\<lparr>ext := x3\<rparr>) = (Ok r, s4)"
    and set: "setTotalDelegated E actor (Coin d (Some m)) s4 = (Ok u4, c)"
    using assms unfolding delegateOnBranch_def
    by (auto simp: ok_iffs act_simps simp del: onExt_apply)
  obtain x4 where x4: "staking_Delegate E actor n v x3 = (r, x4)" "s4 = s\<lparr>ext := x4\<rparr>"
    using del by (auto simp: caught_def onExt_def split: prod.splits result.splits)
  note t = setTotalDelegated_OkD [OF set]
  show thesis
    by (rule that [OF steps]) (use x4 t in \<open>auto simp: onlyTotal_def wfAmounts_def\<close>)
qed

text \<open>A committed branch, seen from the state it started in.\<close>

lemma onlyTotal_commitCache [simp]:
  "onlyTotal E c m s (commitCache s t) \<longleftrightarrow>
     delegatedOf E t c = Some m \<and>
     (\<forall>k. k \<noteq> BuildTotalDelegatedAmountKey c \<longrightarrow> kv_Get E (store t) k = kv_Get E (store s) k) \<and>
     mem t = mem s"
  by (simp add: onlyTotal_def amountAt_def)

lemma wfAmounts_commitCache [simp]: "wfAmounts E (commitCache s t) = wfAmounts E t"
  by (simp add: wfAmounts_def)

text \<open>Whatever \<open>Delegate\<close> commits, it went through its checks, and the total is updated.\<close>

lemma Delegate_cases:
  assumes "wfAmounts E s" and "valid_denom (staking_BondDenom E (ext s))"
    and run: "Delegate E actor valAddr amt s = (r, t)"
  obtains "t = s" and "\<And>sh. r \<noteq> Ok sh"
  | n v cs x1 x2 x3 where "amount amt = Some n" and "0 < n"
    and "denom amt = staking_BondDenom E (ext s)"
    and "staking_GetValidator E (ext s) valAddr = Some v"
    and "totalOf E s actor + n \<le> capOf E s actor"
    and "Coins_New E amt = Ok cs"
    and "bank_MintCoins E ModuleName cs (ext s) = (Ok (), x1)"
    and "bank_AddSupplyOffset E (denom amt) (- n) x1 = (Ok (), x2)"
    and "bank_SendCoinsFromModuleToAccount E ModuleName actor cs x2 = (Ok (), x3)"
    and "staking_Delegate E actor n v x3 = (r, ext t)"
    and "onlyTotal E actor (totalOf E s actor + n) s t" and "wfAmounts E t"
proof (cases "\<exists>n v. positiveAmount amt = Ok n \<and> denom amt = staking_BondDenom E (ext s) \<and>
    staking_GetValidator E (ext s) valAddr = Some v \<and>
    int256 (totalOf E s actor + n) \<and> totalOf E s actor + n \<le> capOf E s actor")
  case False
  then have "t = s \<and> (\<forall>sh. r \<noteq> Ok sh)"
    using run unfolding Delegate_eq [OF assms(1,2)]
    by (auto split: result.splits option.splits if_splits)
  then show thesis using that(1) by blast
next
  case True
  then obtain n v where n: "positiveAmount amt = Ok n"
    and g: "denom amt = staking_BondDenom E (ext s)" "staking_GetValidator E (ext s) valAddr = Some v"
      "int256 (totalOf E s actor + n)" "totalOf E s actor + n \<le> capOf E s actor"
    by blast
  let ?m = "totalOf E s actor + n"
  let ?new = "Coin (staking_BondDenom E (ext s)) (Some ?m)"
  have body: "bindA (cacheContext (bindA (delegateOnBranch E actor v amt n ?new) (\<lambda>sh. ret (sh, True))))
      liftR s = (r, t)"
    using run n g unfolding Delegate_eq [OF assms(1,2)] by simp
  show thesis
  proof (cases "\<exists>sh. delegateOnBranch E actor v amt n ?new s = (Ok sh, snd (delegateOnBranch E actor v amt n ?new s))")
    case False
    then have "t = s \<and> (\<forall>sh. r \<noteq> Ok sh)"
      using body by (auto simp: cacheContext_def bindA_def split: prod.splits result.splits)
    then show thesis using that(1) by blast
  next
    case True
    then obtain sh c where c: "delegateOnBranch E actor v amt n ?new s = (Ok sh, c)"
      by (metis prod.collapse)
    have rt: "r = sh" "t = commitCache s c"
      using body by (simp_all add: cacheContext_def bindA_def c act_simps)
    obtain cs x1 x2 x3 where steps: "Coins_New E amt = Ok cs"
      "bank_MintCoins E ModuleName cs (ext s) = (Ok (), x1)"
      "bank_AddSupplyOffset E (denom amt) (- n) x1 = (Ok (), x2)"
      "bank_SendCoinsFromModuleToAccount E ModuleName actor cs x2 = (Ok (), x3)"
      "staking_Delegate E actor n v x3 = (sh, ext c)"
      and c': "onlyTotal E actor ?m s c"
      "wfAmounts E s \<Longrightarrow> 0 \<le> ?m \<Longrightarrow> int256 ?m \<Longrightarrow> wfAmounts E c"
      by (rule delegateOnBranch_OkD [OF c]) (rule that; assumption)
    have n': "amount amt = Some n" "0 < n"
      using n by (simp_all add: positiveAmount_Ok_iff)
    have "onlyTotal E actor ?m s t" "wfAmounts E t"
      using c' g(3) assms(1) n' GetTotalDelegated_eq(2) [OF assms(1,2), of actor]
      by (simp_all add: rt) (simp add: onlyTotal_def)
    with that(2) [of n v cs x1 x2 x3] n' g steps show thesis
      by (simp add: rt)
  qed
qed

text \<open>
  The other way round: when the checks pass and the coins are minted and sent, the branch is
  committed with whatever staking returned, an error too.
\<close>

lemma Delegate_commits:
  assumes wf: "wfAmounts E s" "valid_denom (staking_BondDenom E (ext s))"
    and amt: "amount amt = Some n" "0 < n" "denom amt = staking_BondDenom E (ext s)"
    and checks: "staking_GetValidator E (ext s) valAddr = Some v" "int256 (totalOf E s actor + n)"
      "totalOf E s actor + n \<le> capOf E s actor"
    and minted: "Coins_New E amt = Ok cs" "bank_MintCoins E ModuleName cs (ext s) = (Ok (), x1)"
      "bank_AddSupplyOffset E (denom amt) (- n) x1 = (Ok (), x2)"
      "bank_SendCoinsFromModuleToAccount E ModuleName actor cs x2 = (Ok (), x3)"
    and staking: "staking_Delegate E actor n v x3 = (r, x4)" "r \<noteq> Panic"
      "staking_BondDenom E x4 = denom amt"
  obtains t where "Delegate E actor valAddr amt s = (r, t)" and "ext t = x4"
    and "onlyTotal E actor (totalOf E s actor + n) s t"
proof -
  let ?m = "totalOf E s actor + n"
  let ?new = "Coin (staking_BondDenom E (ext s)) (Some ?m)"
  obtain bz where bz: "Int_Marshal E (Some ?m) = Ok bz"
    using Int_Marshal [OF checks(2)] by blast
  have "caught (onExt (staking_Delegate E actor n v)) (s\<lparr>ext := x3\<rparr>) = (Ok r, s\<lparr>ext := x4\<rparr>)"
    using staking by (cases r) (simp_all add: caught_def onExt_def)
  then obtain c where c: "delegateOnBranch E actor v amt n ?new s = (Ok r, c)"
    using minted bz staking(3) amt(3)
    by (simp add: delegateOnBranch_def setTotalDelegated_def act_simps bindA_def)
  have "ext c = x4" and only: "onlyTotal E actor ?m s c"
    by (rule delegateOnBranch_OkD [OF c]; use minted staking in simp)+
  moreover have "Delegate E actor valAddr amt s = (r, commitCache s c)"
    using amt checks positiveAmount_Ok_iff [of amt n] c staking(2) unfolding Delegate_eq [OF wf]
    by (cases r) (simp_all add: cacheContext_def bindA_def act_simps)
  ultimately show thesis
    using that [of "commitCache s c"] only by (simp add: onlyTotal_def amountAt_def)
qed

lemma unbondAndBurn_OkD:
  assumes "0 \<le> tot" and "int256 tot"
    and run: "unbondAndBurn E actor valAddr d (Coin d (Some tot)) shares s = (Ok u, c)"
  obtains cs x1 x2 x3 m where
    "staking_InstantUndelegate E actor valAddr shares (ext s) = (Ok cs, x1)"
    and "bank_SendCoinsFromAccountToModule E actor ModuleName cs x1 = (Ok (), x2)"
    and "bank_BurnCoins E ModuleName cs x2 = (Ok (), x3)"
    and "Coins_AmountOf E cs d = Ok m"
    and "bank_AddSupplyOffset E d m x3 = (Ok (), ext c)"
    and "0 \<le> m" and "m \<le> tot"
    and "onlyTotal E actor (tot - m) s c" and "wfAmounts E s \<Longrightarrow> wfAmounts E c"
proof -
  obtain cs x1 x2 x3 x4 m where steps:
    "staking_InstantUndelegate E actor valAddr shares (ext s) = (Ok cs, x1)"
    "bank_SendCoinsFromAccountToModule E actor ModuleName cs x1 = (Ok (), x2)"
    "bank_BurnCoins E ModuleName cs x2 = (Ok (), x3)"
    "Coins_AmountOf E cs d = Ok m" "0 \<le> m"
    "bank_AddSupplyOffset E d m x3 = (Ok (), x4)"
    and sub: "m \<le> tot"
    and set: "setTotalDelegated E actor (Coin d (Some (tot - m))) (s\<lparr>ext := x4\<rparr>) = (Ok (), c)"
    using run unfolding unbondAndBurn_def
    by (auto simp: ok_iffs act_simps Coin_New Coin_Sub simp del: onExt_apply split: if_splits)
  note t = setTotalDelegated_OkD [OF set]
  have "int256 (tot - m)"
    using steps(5) sub assms(2) by (simp add: int256_def)
  with sub have "wfAmounts E s \<Longrightarrow> wfAmounts E c"
    using t(5) by (simp add: wfAmounts_def)
  moreover have "onlyTotal E actor (tot - m) s c" "ext c = x4"
    using t(1,3) by (auto simp: onlyTotal_def)
  ultimately show thesis
    using that [OF steps(1-4)] steps(5,6) sub by simp
qed

lemma Undelegate_eq:
  assumes "wfAmounts E s" and "valid_denom (staking_BondDenom E (ext s))"
  shows "Undelegate E actor valAddr amt s =
    (case positiveAmount amt of
       Ok n \<Rightarrow>
         if denom amt \<noteq> staking_BondDenom E (ext s) then (Err ErrInvalidRequest, s)
         else if totalOf E s actor < n then (Err ErrInvalidRequest, s)
         else (case staking_ValidateUnbondAmount E (ext s) actor valAddr n of
             Ok shares \<Rightarrow> cacheContext (bindA (unbondAndBurn E actor valAddr (denom amt)
               (Coin (denom amt) (Some (totalOf E s actor))) shares) (\<lambda>_. ret ((), True))) s
           | Err e \<Rightarrow> if e = ErrNoDelegation then (Ok (), s) else (Err e, s)
           | Panic \<Rightarrow> (Panic, s))
     | Err e \<Rightarrow> (Err e, s) | Panic \<Rightarrow> (Panic, s))"
proof (cases "positiveAmount amt")
  case (Ok n)
  then have "amount amt = Some n"
    by (simp add: positiveAmount_Ok_iff)
  then have amt: "amt = Coin (denom amt) (Some n)"
    by simp
  show ?thesis
    using Ok GetTotalDelegated_eq(1) [OF assms(1,2)]
      Coin_IsLT [of "denom amt" "totalOf E s actor" "denom amt" n, folded amt]
    by (auto simp: Undelegate_def undelegateOnBranch_def cacheContext_def act_simps
        split: result.split)
qed (simp_all add: Undelegate_def act_simps)

text \<open>A successful undelegation takes off what came back.\<close>

lemma Undelegate_OkD:
  assumes "wfAmounts E s" and "valid_denom (staking_BondDenom E (ext s))"
    and run: "Undelegate E actor valAddr amt s = (Ok u, t)"
  obtains n where "amount amt = Some n" and "0 < n" and "n \<le> totalOf E s actor"
    and "staking_ValidateUnbondAmount E (ext s) actor valAddr n = Err ErrNoDelegation" and "t = s"
  | n shares cs x1 x2 x3 m where "amount amt = Some n" and "0 < n" and "n \<le> totalOf E s actor"
    and "denom amt = staking_BondDenom E (ext s)"
    and "staking_ValidateUnbondAmount E (ext s) actor valAddr n = Ok shares"
    and "staking_InstantUndelegate E actor valAddr shares (ext s) = (Ok cs, x1)"
    and "bank_SendCoinsFromAccountToModule E actor ModuleName cs x1 = (Ok (), x2)"
    and "bank_BurnCoins E ModuleName cs x2 = (Ok (), x3)"
    and "Coins_AmountOf E cs (denom amt) = Ok m"
    and "bank_AddSupplyOffset E (denom amt) m x3 = (Ok (), ext t)"
    and "0 \<le> m" and "m \<le> totalOf E s actor"
    and "onlyTotal E actor (totalOf E s actor - m) s t" and "wfAmounts E t"
proof -
  obtain n where n: "positiveAmount amt = Ok n" "denom amt = staking_BondDenom E (ext s)"
    "n \<le> totalOf E s actor"
    using run unfolding Undelegate_eq [OF assms(1,2)] by (auto split: result.splits if_splits)
  then have n': "amount amt = Some n" "0 < n"
    by (simp_all add: positiveAmount_Ok_iff)
  show thesis
  proof (cases "staking_ValidateUnbondAmount E (ext s) actor valAddr n")
    case (Err e)
    then show thesis
      using run n n' that(1) [of n] unfolding Undelegate_eq [OF assms(1,2)] by (auto split: if_splits)
  next
    case Panic
    then show thesis
      using run n unfolding Undelegate_eq [OF assms(1,2)] by auto
  next
    case (Ok shares)
    let ?total = "Coin (denom amt) (Some (totalOf E s actor))"
    have "cacheContext (bindA (unbondAndBurn E actor valAddr (denom amt) ?total shares)
        (\<lambda>_. ret ((), True))) s = (Ok u, t)"
      using run n Ok unfolding Undelegate_eq [OF assms(1,2)] by simp
    then obtain v c where c: "unbondAndBurn E actor valAddr (denom amt) ?total shares s = (Ok v, c)"
      and t: "t = commitCache s c"
      by (auto simp: ok_iffs act_simps)
    obtain cs x1 x2 x3 m where steps:
      "staking_InstantUndelegate E actor valAddr shares (ext s) = (Ok cs, x1)"
      "bank_SendCoinsFromAccountToModule E actor ModuleName cs x1 = (Ok (), x2)"
      "bank_BurnCoins E ModuleName cs x2 = (Ok (), x3)"
      "Coins_AmountOf E cs (denom amt) = Ok m"
      "bank_AddSupplyOffset E (denom amt) m x3 = (Ok (), ext c)"
      "0 \<le> m" "m \<le> totalOf E s actor"
      and c': "onlyTotal E actor (totalOf E s actor - m) s c" "wfAmounts E s \<Longrightarrow> wfAmounts E c"
      by (rule unbondAndBurn_OkD [OF GetTotalDelegated_eq(2,3) [OF assms(1,2)] c]) (rule that; assumption)
    have "onlyTotal E actor (totalOf E s actor - m) s t" "wfAmounts E t"
      using c' assms(1) by (simp_all add: t) (simp add: onlyTotal_def)
    then show thesis
      using that(2) [of n shares cs x1 x2 x3 m] n' n Ok steps by (simp add: t)
  qed
qed

end

text \<open>Supply and offset together do not move.\<close>

locale virtual_staking = keeper E valid_denom + virtual_bank E liquid
  for E :: "('s, 'x) sdk" and valid_denom :: "string \<Rightarrow> bool" and liquid :: "'x \<Rightarrow> string \<Rightarrow> int"
begin

lemma Delegate_liquid:
  assumes "wfAmounts E s" and "valid_denom (staking_BondDenom E (ext s))"
    and run: "Delegate E actor valAddr amt s = (r, t)"
  shows "liquid (ext t) = liquid (ext s)"
  using assms
proof (cases rule: Delegate_cases [consumes 3])
  case (2 n v cs x1 x2 x3)
  have "amt = Coin (denom amt) (Some n)"
    using 2 by simp
  then have a: "Coins_AmountOf E cs d = Ok (if d = denom amt then n else 0)" for d
    using 2 Coins_New by metis
  show ?thesis
  proof (rule ext)
    fix d
    have "liquid x1 d = liquid (ext s) d + (if d = denom amt then n else 0)"
      by (rule liquid_mint [OF 2(7) a])
    moreover have "liquid x2 d = liquid x1 d + (if d = denom amt then - n else 0)"
      by (rule liquid_offset [OF 2(8)])
    moreover have "liquid (ext t) = liquid x3"
      using liquid_delegate [of actor n v x3] 2(10) by simp
    ultimately show "liquid (ext t) d = liquid (ext s) d"
      using liquid_send [OF 2(9)] by (simp split: if_splits)
  qed
qed simp

lemma Undelegate_liquid:
  assumes "wfAmounts E s" and "valid_denom (staking_BondDenom E (ext s))"
    and run: "Undelegate E actor valAddr amt s = (r, t)"
  shows "liquid (ext t) (staking_BondDenom E (ext s)) = liquid (ext s) (staking_BondDenom E (ext s))"
proof (cases "\<exists>u. r = Ok u")
  case False
  then show ?thesis
    using Undelegate_not_Ok [OF run] by auto
next
  case True
  with run have "Undelegate E actor valAddr amt s = (Ok (), t)" by auto
  with assms(1,2) show ?thesis
  proof (cases rule: Undelegate_OkD [consumes 3])
    case (2 n shares cs x1 x2 x3 m)
    show ?thesis
      using liquid_undelegate [OF 2(6)] liquid_take [OF 2(7)] liquid_burn [OF 2(8,9)]
        liquid_offset [OF 2(10), of "denom amt"] 2(4) by simp
  qed simp
qed

end

end
