(* ===== verification/Handlers.thy ===== *)
theory Handlers
  imports Stake
begin

text \<open>
  The messages and queries of contracts (\<open>keeper/handler_plugin.go\<close>,
  \<open>keeper/query_plugin.go\<close>) and the gRPC queries (\<open>keeper/querier.go\<close>). The Go
  interfaces \<open>msKeeper\<close>, \<open>AuthSource\<close>, \<open>maxCapSource\<close>, \<open>viewKeeper\<close> and
  \<open>slashingKeeper\<close> are function parameters; what a caller relies on is a locale,
  interpreted on the keeper's own functions. The lemmas show that an unauthorized contract
  changes nothing, that a bond stays within the limit, and that what the queries answer is what
  the tables hold.
\<close>

section \<open>Contract messages\<close>

text \<open>The fields of \<open>wasmvmtypes.CosmosMsg\<close> the handlers look at; a pointer is set or nil.\<close>

record cosmos_msg =
  msg_Custom :: "bytes option"
  msg_Stargate :: bool
  msg_Staking :: bool

text \<open>\<open>CustomMsgHandler\<close>: an abstract keeper and an authorization source.\<close>

record ('s, 'x) CustomMsgHandler =
  k_Delegate :: "address \<Rightarrow> address \<Rightarrow> coin \<Rightarrow> (('s, 'x) chain, dec) act"
  k_Undelegate :: "address \<Rightarrow> address \<Rightarrow> coin \<Rightarrow> (('s, 'x) chain, unit) act"
  IsAuthorized :: "('s, 'x) chain \<Rightarrow> address \<Rightarrow> bool"

definition defaultMaxCapAuthorizator :: "('s, 'x) sdk \<Rightarrow> ('s, 'x) chain \<Rightarrow> address \<Rightarrow> bool" where
  "defaultMaxCapAuthorizator E = (\<lambda>ctx contractAddr. HasMaxCapLimit E ctx contractAddr)"

definition NewCustomMsgHandler ::
    "(address \<Rightarrow> address \<Rightarrow> coin \<Rightarrow> (('s, 'x) chain, dec) act) \<Rightarrow>
     (address \<Rightarrow> address \<Rightarrow> coin \<Rightarrow> (('s, 'x) chain, unit) act) \<Rightarrow>
     (('s, 'x) chain \<Rightarrow> address \<Rightarrow> bool) \<Rightarrow> ('s, 'x) CustomMsgHandler" where
  "NewCustomMsgHandler delegate undelegate auth =
     \<lparr>k_Delegate = delegate, k_Undelegate = undelegate, IsAuthorized = auth\<rparr>"

definition NewDefaultCustomMsgHandler :: "('s, 'x) sdk \<Rightarrow> ('s, 'x) CustomMsgHandler" where
  "NewDefaultCustomMsgHandler E =
     \<lparr>k_Delegate = Delegate E, k_Undelegate = Undelegate E, IsAuthorized = defaultMaxCapAuthorizator E\<rparr>"

definition handleBondMsg :: "('s, 'x) sdk \<Rightarrow> ('s, 'x) CustomMsgHandler \<Rightarrow> address \<Rightarrow> bond_msg \<Rightarrow>
    (('s, 'x) chain, event list) act" where
  "handleBondMsg E h actor bondMsg =
     bindA (liftR (ConvertWasmCoinToSdkCoin E (bond_amount bondMsg))) (\<lambda>coin.
     bindA (liftR (ValAddressFromBech32 E (bond_validator bondMsg))) (\<lambda>valAddr.
     bindA (k_Delegate h actor valAddr coin) (\<lambda>_.
     ret [\<lparr>ev_type = ''instant_delegate'',
           ev_attrs = [(''module'', AText ModuleName), (''validator'', AVal valAddr),
             (''amount'', ACoin coin), (''delegator'', AAddr actor)]\<rparr>])))"

definition handleUnbondMsg :: "('s, 'x) sdk \<Rightarrow> ('s, 'x) CustomMsgHandler \<Rightarrow> address \<Rightarrow> unbond_msg \<Rightarrow>
    (('s, 'x) chain, event list) act" where
  "handleUnbondMsg E h actor bondMsg =
     bindA (liftR (ConvertWasmCoinToSdkCoin E (unbond_amount bondMsg))) (\<lambda>coin.
     bindA (liftR (ValAddressFromBech32 E (unbond_validator bondMsg))) (\<lambda>valAddr.
     bindA (k_Undelegate h actor valAddr coin) (\<lambda>_.
     ret [\<lparr>ev_type = ''instant_unbond'',
           ev_attrs = [(''module'', AText ModuleName), (''validator'', AVal valAddr),
             (''amount'', ACoin coin), (''sender'', AAddr actor)]\<rparr>])))"

definition DispatchMsg :: "('s, 'x) sdk \<Rightarrow> ('s, 'x) CustomMsgHandler \<Rightarrow> address \<Rightarrow> string \<Rightarrow> cosmos_msg \<Rightarrow>
    (('s, 'x) chain, event list) act" where
  "DispatchMsg E h contractAddr contractIBCPortID msg = withState (\<lambda>ctx.
     case msg_Custom msg of
       None \<Rightarrow> fail ErrUnknownMsg
     | Some custom \<Rightarrow>
         (case json_CustomMsg E custom of
            Err e \<Rightarrow> fail ErrJSONUnmarshal
          | Panic \<Rightarrow> panic
          | Ok customMsg \<Rightarrow>
              (case VirtualStake customMsg of
                 None \<Rightarrow> fail ErrUnknownMsg
               | Some virtualStake \<Rightarrow>
                   if \<not> IsAuthorized h ctx contractAddr then fail ErrUnauthorized else
                   (case Bond virtualStake of
                      Some bondMsg \<Rightarrow> handleBondMsg E h contractAddr bondMsg
                    | None \<Rightarrow>
                        (case Unbond virtualStake of
                           Some unbondMsg \<Rightarrow> handleUnbondMsg E h contractAddr unbondMsg
                         | None \<Rightarrow> fail ErrUnknownMsg)))))"

text \<open>The handler that keeps contracts with a limit away from staking and stargate messages.\<close>

definition NewIntegrityHandler :: "(('s, 'x) chain \<Rightarrow> address \<Rightarrow> bool) \<Rightarrow> address \<Rightarrow> string \<Rightarrow> cosmos_msg \<Rightarrow>
    (('s, 'x) chain, event list) act" where
  "NewIntegrityHandler hasMaxCapLimit contractAddr contractIBCPortID msg = withState (\<lambda>ctx.
     if \<not> msg_Stargate msg \<and> \<not> msg_Staking msg \<or> \<not> hasMaxCapLimit ctx contractAddr
     then fail ErrUnknownMsg
     else fail ErrUnsupported)"

section \<open>Contract queries\<close>

record query_request =
  req_Custom :: "bytes option"

type_synonym ('s, 'x) query_handler =
  "('s, 'x) chain \<Rightarrow> address \<Rightarrow> query_request \<Rightarrow> bytes result"

definition ChainedCustomQuerier :: "('s, 'x) sdk \<Rightarrow>
    (('s, 'x) chain \<Rightarrow> address \<Rightarrow> coin result) \<Rightarrow> (('s, 'x) chain \<Rightarrow> address \<Rightarrow> coin result) \<Rightarrow>
    (('s, 'x) chain \<Rightarrow> dec) \<Rightarrow> (('s, 'x) chain \<Rightarrow> dec) \<Rightarrow>
    ('s, 'x) query_handler \<Rightarrow> ('s, 'x) query_handler" where
  "ChainedCustomQuerier E getMaxCapLimit getTotalDelegated slashFractionDowntime slashFractionDoubleSign
     nxt ctx caller request =
     (case req_Custom request of
        None \<Rightarrow> nxt ctx caller request
      | Some custom \<Rightarrow>
          bindR (json_CustomQuery E custom) (\<lambda>contractQuery.
          case QVirtualStake contractQuery of
            None \<Rightarrow> nxt ctx caller request
          | Some query \<Rightarrow>
              (case BondStatus query of
                 Some contract \<Rightarrow>
                   (case AccAddressFromBech32 E contract of
                      Err e \<Rightarrow> Err ErrInvalidAddress
                    | Panic \<Rightarrow> Panic
                    | Ok contractAddr \<Rightarrow>
                        bindR (getMaxCapLimit ctx contractAddr) (\<lambda>maxCap.
                        bindR (getTotalDelegated ctx contractAddr) (\<lambda>delegated.
                        json_Response E (BondStatusResponse
                          \<lparr>rsp_MaxCap = ConvertSdkCoinToWasmCoin E maxCap,
                           rsp_Delegated = ConvertSdkCoinToWasmCoin E delegated\<rparr>))))
               | None \<Rightarrow>
                   if SlashRatio query then
                     json_Response E (SlashRatioResponse
                       \<lparr>SlashFractionDowntime = Dec_String E (slashFractionDowntime ctx),
                        SlashFractionDoubleSign = Dec_String E (slashFractionDoubleSign ctx)\<rparr>)
                   else Err ErrUnsupportedRequest)))"

definition NewQueryDecorator :: "('s, 'x) sdk \<Rightarrow> ('s, 'x) query_handler \<Rightarrow> ('s, 'x) query_handler" where
  "NewQueryDecorator E nxt = ChainedCustomQuerier E (GetMaxCapLimit E) (GetTotalDelegated E)
     (\<lambda>ctx. slashing_SlashFractionDowntime E (ext ctx))
     (\<lambda>ctx. slashing_SlashFractionDoubleSign E (ext ctx)) nxt"

section \<open>gRPC queries\<close>

record max_cap_limit_response =
  rsp_Cap :: coin
  rsp_DelegatedCoin :: coin

record max_cap_info =
  info_Contract :: string
  info_Delegated :: coin
  info_Cap :: coin

definition VirtualStakingMaxCapLimit :: "('s, 'x) sdk \<Rightarrow> ('s, 'x) chain \<Rightarrow> string \<Rightarrow>
    max_cap_limit_response result" where
  "VirtualStakingMaxCapLimit E ctx address =
     bindR (AccAddressFromBech32 E address) (\<lambda>acc.
     bindR (GetMaxCapLimit E ctx acc) (\<lambda>cap.
     bindR (GetTotalDelegated E ctx acc) (\<lambda>delegated.
     Ok \<lparr>rsp_Cap = cap, rsp_DelegatedCoin = delegated\<rparr>)))"

text \<open>The closure of the listing captures the response.\<close>

definition addMaxCapInfo :: "('s, 'x) sdk \<Rightarrow> address \<Rightarrow> int \<Rightarrow>
    (max_cap_info list \<times> ('s, 'x) chain, bool) act" where
  "addMaxCapInfo E addr maxCap = withState (\<lambda>(_, ctx).
     bindA (liftR (GetTotalDelegated E ctx addr)) (\<lambda>delegated.
     bindA (liftR (Coin_New E (staking_BondDenom E (ext ctx)) (Some maxCap))) (\<lambda>cap.
     bindA (updLocal (\<lambda>infos. Ok (infos @
       [\<lparr>info_Contract = AccAddress_String E addr, info_Delegated = delegated, info_Cap = cap\<rparr>]))) (\<lambda>_.
     ret False))))"

definition VirtualStakingMaxCapLimits :: "('s, 'x) sdk \<Rightarrow> ('s, 'x) chain \<Rightarrow> max_cap_info list result" where
  "VirtualStakingMaxCapLimits E ctx =
     fst (withLocal [] (IterateMaxCapLimit E (addMaxCapInfo E)) ret ctx)"

definition QueryParams :: "('s, 'x) sdk \<Rightarrow> ('s, 'x) chain \<Rightarrow> params result" where
  "QueryParams E ctx = GetParams E ctx"

section \<open>Interfaces\<close>

text \<open>
  What the message handler relies on of its keeper, relative to a notion of limit and total:
  a delegation that succeeds raises the actor's total by the amount and stays within the
  limit; an undelegation lowers it or leaves it; neither touches another contract.
\<close>

locale ms_keeper =
  fixes good :: "('s, 'x) chain \<Rightarrow> bool"
    and delegate :: "address \<Rightarrow> address \<Rightarrow> coin \<Rightarrow> (('s, 'x) chain, dec) act"
    and undelegate :: "address \<Rightarrow> address \<Rightarrow> coin \<Rightarrow> (('s, 'x) chain, unit) act"
    and limit_of :: "('s, 'x) chain \<Rightarrow> address \<Rightarrow> int"
    and total_of :: "('s, 'x) chain \<Rightarrow> address \<Rightarrow> int"
  assumes delegate_good: "good s \<Longrightarrow> delegate actor val c s = (r, t) \<Longrightarrow>
      t = s \<or> (\<forall>a. limit_of t a = limit_of s a) \<and> (\<forall>a. a \<noteq> actor \<longrightarrow> total_of t a = total_of s a)
        \<and> total_of t actor \<le> limit_of s actor"
    and delegate_total: "good s \<Longrightarrow> delegate actor val c s = (Ok sh, t) \<Longrightarrow>
      \<exists>n. amount c = Some n \<and> 0 < n \<and> total_of t actor = total_of s actor + n"
    and undelegate_good: "good s \<Longrightarrow> undelegate actor val c s = (r2, t) \<Longrightarrow>
      t = s \<or> (\<forall>a. limit_of t a = limit_of s a) \<and> (\<forall>a. a \<noteq> actor \<longrightarrow> total_of t a = total_of s a)
        \<and> 0 \<le> total_of t actor \<and> total_of t actor \<le> total_of s actor"

text \<open>What the handlers rely on of an authorization source: it says yes to limited contracts only.\<close>

locale auth_source =
  fixes authorized :: "('s, 'x) chain \<Rightarrow> address \<Rightarrow> bool"
    and limited :: "('s, 'x) chain \<Rightarrow> address \<Rightarrow> bool"
  assumes authorized_iff: "authorized s c \<longleftrightarrow> limited s c"

locale msg_handler =
  ms_keeper good delegate undelegate limit_of total_of + auth_source authorized limited
  for good :: "('s, 'x) chain \<Rightarrow> bool"
    and delegate :: "address \<Rightarrow> address \<Rightarrow> coin \<Rightarrow> (('s, 'x) chain, dec) act"
    and undelegate :: "address \<Rightarrow> address \<Rightarrow> coin \<Rightarrow> (('s, 'x) chain, unit) act"
    and limit_of total_of :: "('s, 'x) chain \<Rightarrow> address \<Rightarrow> int"
    and authorized limited :: "('s, 'x) chain \<Rightarrow> address \<Rightarrow> bool"
begin

abbreviation "handler \<equiv> NewCustomMsgHandler delegate undelegate authorized"

lemma handler_simps [simp]:
  "k_Delegate handler = delegate" "k_Undelegate handler = undelegate" "IsAuthorized handler = authorized"
  by (simp_all add: NewCustomMsgHandler_def)

text \<open>A message changes the state only through the keeper, for an authorized sender.\<close>

lemma dispatch_cases:
  assumes "DispatchMsg E handler contract port msg s = (r, t)"
  obtains "t = s" and "\<And>evs. r \<noteq> Ok evs"
  | val c r' where "limited s contract" and "delegate contract val c s = (r', t)"
      and "\<And>evs. r = Ok evs \<Longrightarrow> \<exists>sh. r' = Ok sh"
  | val c r' where "limited s contract" and "undelegate contract val c s = (r', t)"
      and "\<And>evs. r = Ok evs \<Longrightarrow> r' = Ok ()"
  using assms
  by (auto simp: DispatchMsg_def handleBondMsg_def handleUnbondMsg_def act_simps bindA_def
      authorized_iff split: option.splits result.splits if_splits prod.splits)

lemma dispatch_unlimited:
  assumes "DispatchMsg E handler contract port msg s = (r, t)" and "\<not> limited s contract"
  shows "t = s" and "r \<noteq> Ok evs"
  using dispatch_cases [OF assms(1)] assms(2) by metis+

lemma dispatch_within_limit:
  assumes "good s" and "DispatchMsg E handler contract port msg s = (r, t)"
    and "total_of s a \<le> limit_of s a"
  shows "total_of t a \<le> limit_of t a"
  using assms(2)
proof (cases rule: dispatch_cases)
  case (2 val c r')
  then show ?thesis
    using delegate_good [OF assms(1) 2(2)] assms(3) by (cases "a = contract") auto
next
  case (3 val c r')
  then show ?thesis
    using undelegate_good [OF assms(1) 3(2)] assms(3) by (cases "a = contract") auto
qed (use assms(3) in simp)

lemma dispatch_other:
  assumes "good s" and "DispatchMsg E handler contract port msg s = (r, t)" and "a \<noteq> contract"
  shows "total_of t a = total_of s a" and "limit_of t a = limit_of s a"
  using dispatch_cases [OF assms(2)] delegate_good [OF assms(1)] undelegate_good [OF assms(1)] assms(3)
  by metis+

end

text \<open>The states the keeper's contract is about: readable tables and a valid bond denomination.\<close>

definition bondGood :: "('s, 'x) sdk \<Rightarrow> (string \<Rightarrow> bool) \<Rightarrow> ('s, 'x) chain \<Rightarrow> bool" where
  "bondGood E valid_denom s \<longleftrightarrow> wfAmounts E s \<and> valid_denom (staking_BondDenom E (ext s))"

context keeper
begin

text \<open>The keeper is such a keeper, and the default authorizer such a source.\<close>

lemma Delegate_ms:
  assumes "bondGood E valid_denom s" and run: "Delegate E actor val c s = (r, t)"
  shows "t = s \<or> (\<forall>a. capOf E t a = capOf E s a) \<and> (\<forall>a. a \<noteq> actor \<longrightarrow> totalOf E t a = totalOf E s a)
      \<and> totalOf E t actor \<le> capOf E s actor"
proof -
  have wf: "wfAmounts E s" "valid_denom (staking_BondDenom E (ext s))"
    using assms(1) by (simp_all add: bondGood_def)
  show ?thesis
    by (rule Delegate_cases [OF wf run]) (auto simp: onlyTotalD)
qed

lemma Delegate_ms_total:
  assumes "bondGood E valid_denom s" and run: "Delegate E actor val c s = (Ok sh, t)"
  shows "\<exists>n. amount c = Some n \<and> 0 < n \<and> totalOf E t actor = totalOf E s actor + n"
proof -
  have wf: "wfAmounts E s" "valid_denom (staking_BondDenom E (ext s))"
    using assms(1) by (simp_all add: bondGood_def)
  show ?thesis
    by (rule Delegate_cases [OF wf run]) (auto simp: onlyTotalD)
qed

lemma Undelegate_ms:
  assumes "bondGood E valid_denom s" and "Undelegate E actor val c s = (r, t)"
  shows "t = s \<or> (\<forall>a. capOf E t a = capOf E s a) \<and> (\<forall>a. a \<noteq> actor \<longrightarrow> totalOf E t a = totalOf E s a)
      \<and> 0 \<le> totalOf E t actor \<and> totalOf E t actor \<le> totalOf E s actor"
proof (cases "r = Ok ()")
  case False
  then show ?thesis
    using Undelegate_not_Ok [OF assms(2)] by auto
next
  case True
  with assms have wf: "wfAmounts E s" "valid_denom (staking_BondDenom E (ext s))"
    and run: "Undelegate E actor val c s = (Ok (), t)"
    by (simp_all add: bondGood_def)
  show ?thesis
    by (rule Undelegate_OkD [OF wf run]) (auto simp: onlyTotalD)
qed

end

text \<open>Each interface is interpreted on the code's own functions.\<close>

sublocale keeper \<subseteq> ms: ms_keeper "bondGood E valid_denom" "Delegate E" "Undelegate E" "capOf E" "totalOf E"
  by unfold_locales (erule (1) Delegate_ms Delegate_ms_total Undelegate_ms)+

sublocale keeper \<subseteq> auth: auth_source "defaultMaxCapAuthorizator E" "\<lambda>s c. limitOf E s c \<noteq> None"
  by unfold_locales (simp add: defaultMaxCapAuthorizator_def HasMaxCapLimit_iff)

sublocale keeper \<subseteq> msgs: msg_handler "bondGood E valid_denom" "Delegate E" "Undelegate E" "capOf E" "totalOf E"
    "defaultMaxCapAuthorizator E" "\<lambda>s c. limitOf E s c \<noteq> None" ..

lemma default_handler: "NewDefaultCustomMsgHandler E =
    NewCustomMsgHandler (Delegate E) (Undelegate E) (defaultMaxCapAuthorizator E)"
  by (simp add: NewDefaultCustomMsgHandler_def NewCustomMsgHandler_def)

section \<open>What messages do to limits and totals\<close>

context keeper
begin

lemma DispatchMsg_no_limit:
  assumes "DispatchMsg E (NewDefaultCustomMsgHandler E) contract port msg s = (r, t)"
    and "limitOf E s contract = None"
  shows "t = s" and "r \<noteq> Ok evs"
  using msgs.dispatch_unlimited [OF assms(1) [unfolded default_handler]] assms(2) by simp_all

lemma DispatchMsg_limits:
  assumes "bondGood E valid_denom s"
    and "DispatchMsg E (NewDefaultCustomMsgHandler E) contract port msg s = (r, t)"
    and "totalOf E s c \<le> capOf E s c"
  shows "totalOf E t c \<le> capOf E t c"
  using msgs.dispatch_within_limit [OF assms(1) assms(2) [unfolded default_handler] assms(3)] .

lemma DispatchMsg_others:
  assumes "bondGood E valid_denom s"
    and "DispatchMsg E (NewDefaultCustomMsgHandler E) contract port msg s = (r, t)" and "c \<noteq> contract"
  shows "totalOf E t c = totalOf E s c" and "capOf E t c = capOf E s c"
  using msgs.dispatch_other [OF assms(1) assms(2) [unfolded default_handler] assms(3)] .

end

section \<open>What the queries answer\<close>

abbreviation bondCoin :: "('s, 'x) sdk \<Rightarrow> ('s, 'x) chain \<Rightarrow> int \<Rightarrow> coin" where
  "bondCoin E s n \<equiv> Coin (staking_BondDenom E (ext s)) (Some n)"

definition capInfo :: "('s, 'x) sdk \<Rightarrow> ('s, 'x) chain \<Rightarrow> address \<times> int \<Rightarrow> max_cap_info" where
  "capInfo E s e = \<lparr>info_Contract = AccAddress_String E (fst e),
     info_Delegated = bondCoin E s (totalOf E s (fst e)), info_Cap = bondCoin E s (snd e)\<rparr>"

context keeper
begin

lemma VirtualStakingMaxCapLimit_eq:
  assumes "bondGood E valid_denom s" and "AccAddressFromBech32 E a = Ok c"
  shows "VirtualStakingMaxCapLimit E s a =
    Ok \<lparr>rsp_Cap = bondCoin E s (capOf E s c), rsp_DelegatedCoin = bondCoin E s (totalOf E s c)\<rparr>"
  using assms GetTotalDelegated_eq(1) [of s c] GetMaxCapLimit_eq(1) [of s c]
  by (simp add: VirtualStakingMaxCapLimit_def bondGood_def)

lemma iterCaps_infos:
  assumes "bondGood E valid_denom s"
    and "\<forall>(k, v) \<in> set es. Int_Unmarshal E v = Ok (f k) \<and> 0 \<le> f k"
  shows "iterCaps E es (addMaxCapInfo E) (infos, s) =
    (Ok (), (infos @ map (\<lambda>(k, v). capInfo E s (k, f k)) es, s))"
  using assms(2)
proof (induction es arbitrary: infos)
  case (Cons e es)
  obtain k v where e: "e = (k, v)" by (cases e)
  show ?case
    using Cons assms(1) GetTotalDelegated_eq(1) [of s k]
    by (simp add: e addMaxCapInfo_def act_simps bindA_def Coin_New capInfo_def bondGood_def)
qed (simp add: act_simps)

lemma VirtualStakingMaxCapLimits_eq:
  assumes "bondGood E valid_denom s"
  shows "VirtualStakingMaxCapLimits E s = Ok (map (capInfo E s) (capEntries E s))"
proof -
  let ?it = "kv_PrefixIterator E (store s) MaxCapLimitKeyPrefix"
  have "\<forall>(k, v) \<in> set ?it. Int_Unmarshal E v = Ok (the (limitOf E s k)) \<and> 0 \<le> the (limitOf E s k)"
    using capIterator_amounts assms by (auto simp: bondGood_def)
  from iterCaps_infos [OF assms this] show ?thesis
    by (simp add: VirtualStakingMaxCapLimits_def withLocal_def IterateMaxCapLimit_def act_simps
        capEntries_def comp_def case_prod_beta)
qed

text \<open>The contract query of the bond status, and the queries that are not the module's.\<close>

lemma BondStatus_query:
  assumes "bondGood E valid_denom s" and "req_Custom request = Some bz"
    and "json_CustomQuery E bz = Ok \<lparr>QVirtualStake = Some \<lparr>BondStatus = Some a, SlashRatio = sr\<rparr>\<rparr>"
    and "AccAddressFromBech32 E a = Ok c"
  shows "NewQueryDecorator E nxt s caller request = json_Response E (BondStatusResponse
    \<lparr>rsp_MaxCap = ConvertSdkCoinToWasmCoin E (bondCoin E s (capOf E s c)),
     rsp_Delegated = ConvertSdkCoinToWasmCoin E (bondCoin E s (totalOf E s c))\<rparr>)"
  using assms GetTotalDelegated_eq(1) [of s c] GetMaxCapLimit_eq(1) [of s c]
  by (simp add: NewQueryDecorator_def ChainedCustomQuerier_def bondGood_def)

end

lemma foreign_query:
  assumes "req_Custom request = None \<or> (\<exists>bz. req_Custom request = Some bz \<and>
    json_CustomQuery E bz = Ok \<lparr>QVirtualStake = None\<rparr>)"
  shows "NewQueryDecorator E nxt s caller request = nxt s caller request"
  using assms by (auto simp: NewQueryDecorator_def ChainedCustomQuerier_def)

end
