(* ===== verification/MsgServer.thy ===== *)
theory MsgServer
  imports Stake
begin

text \<open>
  The governance message that sets a contract's max cap limit (\<open>keeper/msg_server.go\<close>,
  \<open>types/tx.go\<close>): it checks the authority, stores the limit and arranges the rebalance
  tasks of the contract. The lemmas give the limits and the tasks after a successful message,
  case by case, and show that only the authority gets there.
\<close>

record MsgSetVirtualStakingMaxCap =
  msg_Authority :: string
  msg_Contract :: string
  msg_MaxCap :: coin

definition ValidateBasic :: "('s, 'x) sdk \<Rightarrow> MsgSetVirtualStakingMaxCap \<Rightarrow> unit result" where
  "ValidateBasic E msg =
     (case AccAddressFromBech32 E (msg_Authority msg) of
        Err e \<Rightarrow> Err ErrInvalidAddress
      | Panic \<Rightarrow> Panic
      | Ok _ \<Rightarrow>
          bindR (AccAddressFromBech32 E (msg_Contract msg)) (\<lambda>_.
          Coin_Validate E (msg_MaxCap msg)))"

text \<open>A signer that does not parse is the nil address.\<close>

definition GetSigners :: "('s, 'x) sdk \<Rightarrow> MsgSetVirtualStakingMaxCap \<Rightarrow> address list result" where
  "GetSigners E msg =
     (case AccAddressFromBech32 E (msg_Authority msg) of
        Ok addr \<Rightarrow> Ok [addr] | Err e \<Rightarrow> Ok [[]] | Panic \<Rightarrow> Panic)"

text \<open>The second half of the handler: the rebalance tasks after the limit was stored.\<close>

definition arrangeRebalanceTasks ::
    "('s, 'x) sdk \<Rightarrow> MsgSetVirtualStakingMaxCap \<Rightarrow> address \<Rightarrow> (('s, 'x) chain, unit) act" where
  "arrangeRebalanceTasks E req acc = withState (\<lambda>ctx.
     bindA (liftR (HasScheduledTask E ctx SchedulerTaskHandleEpoch acc True)) (\<lambda>hasTask.
     if \<not> hasTask then ScheduleRegularRebalanceTask E acc else
     bindA (liftR (nonNil (amount (msg_MaxCap req)))) (\<lambda>cap.
     bindA (if cap = 0 then DeleteAllScheduledTasks E SchedulerTaskHandleEpoch acc else ret ()) (\<lambda>_.
     ScheduleOneShotTask E SchedulerTaskHandleEpoch acc (height ctx)))))"

definition SetVirtualStakingMaxCap ::
    "('s, 'x) sdk \<Rightarrow> MsgSetVirtualStakingMaxCap \<Rightarrow> (('s, 'x) chain, unit) act" where
  "SetVirtualStakingMaxCap E req =
     bindA (liftR (ValidateBasic E req)) (\<lambda>_.
     if GetAuthority E \<noteq> msg_Authority req then fail ErrInvalidSigner else
     bindA (liftR (AccAddressFromBech32 E (msg_Contract req))) (\<lambda>acc.
     bindA (SetMaxCapLimit E acc (msg_MaxCap req)) (\<lambda>_.
     arrangeRebalanceTasks E req acc)))"

section \<open>Lemmas\<close>

lemma SetVirtualStakingMaxCap_authority:
  assumes "GetAuthority E \<noteq> msg_Authority req"
  shows "snd (SetVirtualStakingMaxCap E req s) = s"
    and "fst (SetVirtualStakingMaxCap E req s) \<noteq> Ok ()"
    and "ValidateBasic E req = Ok () \<Longrightarrow> fst (SetVirtualStakingMaxCap E req s) = Err ErrInvalidSigner"
  using assms
  by (cases "ValidateBasic E req"; simp add: SetVirtualStakingMaxCap_def act_simps)+

context keeper
begin

text \<open>
  After a successful message: the limit is set and within the total, and the rebalance tasks
  of the contract are arranged. Without a repeating task one is registered an epoch ahead,
  whatever the limit; with one, a one-shot task is registered for this block, after all tasks
  were removed when the limit is zero.
\<close>

lemma SetVirtualStakingMaxCap_OkD:
  assumes ok: "SetVirtualStakingMaxCap E req s = (Ok u, t)"
    and "wfAmounts E s" and "wfTasks E s"
    and "GetTotalContractsMaxCap E s = Ok (Coin d (Some L))"
    and "GetRebalanceEpochLength E s = Ok epoch"
    and "amount (msg_MaxCap req) = Some n"
  obtains c where "AccAddressFromBech32 E (msg_Contract req) = Ok c"
    and "msg_Authority req = authority E"
    and "limitOf E t c = Some n" and "\<And>c'. c' \<noteq> c \<Longrightarrow> limitOf E t c' = limitOf E s c'"
    and "totalCaps E t = otherCaps E s c + n" and "totalCaps E t \<le> L"
    and "\<And>c'. delegatedOf E t c' = delegatedOf E s c'"
    and "0 \<le> n \<Longrightarrow> wfAmounts E t" and "wfTasks E t" and "GetParams E t = GetParams E s"
    and "mem t = mem s \<and> ext t = ext s \<and> height t = height s \<and> blockTime t = blockTime s"
    and "\<And>tp h c'. taskAt E t tp h c' =
      (if tp \<noteq> SchedulerTaskHandleEpoch \<or> c' \<noteq> c then taskAt E s tp h c'
       else if \<nexists>h. taskAt E s SchedulerTaskHandleEpoch h c = Some True
       then (if h = height s + epoch then Some True else taskAt E s tp h c')
       else if n = 0 then (if h = height s then Some False else None)
       else if h = height s \<and> taskAt E s tp h c' = None then Some False else taskAt E s tp h c')"
    and "(\<exists>h. taskAt E s SchedulerTaskHandleEpoch h c = Some True) \<or>
      wasm_HasContractInfo E (ext s) c \<and> height s \<le> height s + epoch"
proof -
  obtain c v s1 where c: "AccAddressFromBech32 E (msg_Contract req) = Ok c"
    and auth: "msg_Authority req = authority E"
    and set: "SetMaxCapLimit E c (msg_MaxCap req) s = (Ok v, s1)"
    and rest: "arrangeRebalanceTasks E req c s1 = (Ok u, t)"
    using ok unfolding SetVirtualStakingMaxCap_def
    by (auto simp: ok_iffs act_simps GetAuthority_def split: if_splits)
  note s1 = SetMaxCapLimit_OkD [OF set assms(2,6,4)]
  have at1: "taskAt E s1 tp h c' = taskAt E s tp h c'" for tp h c'
    by (rule taskAt_cong [OF s1(6)])
  have par1: "GetParams E s1 = GetParams E s"
    by (rule GetParams_cong [OF s1(7)])
  have wf1: "wfTasks E s1"
  proof -
    have "SchedulerKeyPrefix @ k \<noteq> BuildMaxCapLimitKey c" for k
      by (simp add: key_defs)
    then have "kv_Get E (store s1) (SchedulerKeyPrefix @ k) = kv_Get E (store s) (SchedulerKeyPrefix @ k)" for k
      using set unfolding SetMaxCapLimit_eq [OF assms(2,6,4)]
      by (auto simp: get_set split: if_splits result.splits)
    with assms(3) show ?thesis by (simp add: wfTasks_def)
  qed
  let ?tp = "SchedulerTaskHandleEpoch"
  have tp: "?tp \<noteq> SchedulerTaskUndefined"
    by (simp add: task_defs)
  have has: "HasScheduledTask E s1 ?tp c True = Ok (\<exists>h. taskAt E s ?tp h c = Some True)"
    using HasScheduledTask_eq [OF wf1, of ?tp c True] tp by (simp add: at1)
  have final: "tasksOnly E s1 t \<and> wfTasks E t \<and>
    (\<forall>tp h c'. taskAt E t tp h c' =
      (if tp \<noteq> ?tp \<or> c' \<noteq> c then taskAt E s tp h c'
       else if \<nexists>h. taskAt E s ?tp h c = Some True
       then (if h = height s + epoch then Some True else taskAt E s tp h c')
       else if n = 0 then (if h = height s then Some False else None)
       else if h = height s \<and> taskAt E s tp h c' = None then Some False else taskAt E s tp h c')) \<and>
    ((\<exists>h. taskAt E s ?tp h c = Some True) \<or>
      wasm_HasContractInfo E (ext s) c \<and> height s \<le> height s + epoch)"
  proof (cases "\<exists>h. taskAt E s ?tp h c = Some True")
    case False
    have "ScheduleRegularRebalanceTask E c s1 = (Ok u, t)"
      using rest False by (simp add: arrangeRebalanceTasks_def has act_simps)
    then have info: "wasm_HasContractInfo E (ext s) c"
      and sched: "ScheduleRepeatingTask E ?tp c (height s + epoch) s1 = (Ok u, t)"
      using s1(9) params_reads_cong(2) [OF par1] assms(5)
      by (auto simp: ScheduleRegularRebalanceTask_eq split: if_splits)
    from ScheduleRepeatingTask_OkD [OF sched] wf1 info False s1(9) show ?thesis
      by (simp add: at1)
  next
    case True
    show ?thesis
    proof (cases "n = 0")
      case False
      then have sched: "ScheduleOneShotTask E ?tp c (height s) s1 = (Ok u, t)"
        using rest True assms(6) s1(9) by (simp add: arrangeRebalanceTasks_def has act_simps)
      from ScheduleOneShotTask_OkD [OF sched] wf1 True False show ?thesis
        by (auto simp: at1)
    next
      case z: True
      obtain s2 where s2: "DeleteAllScheduledTasks E ?tp c s1 = (Ok (), s2)"
        "tasksOnly E s1 s2" "wfTasks E s2"
        "\<And>tp' h c'. taskAt E s2 tp' h c' = (if tp' = ?tp \<and> c' = c then None else taskAt E s1 tp' h c')"
        by (rule DeleteAllScheduledTasks_eq [OF wf1 tp, of c]) (rule that; assumption)
      have sched: "ScheduleOneShotTask E ?tp c (height s) s2 = (Ok u, t)"
        using rest True assms(6) s1(9) s2(2) z
        by (simp add: arrangeRebalanceTasks_def has act_simps bindA_def s2(1) tasksOnly_def)
      from ScheduleOneShotTask_OkD [OF sched] s2 True z tasksOnly_trans [OF s2(2), of t] show ?thesis
        by (auto simp: at1)
    qed
  qed
  have only: "tasksOnly E s1 t"
    using final by blast
  have caps: "totalCaps E t = totalCaps E s1"
    by (rule totalCaps_cong) (rule tasksOnly_amounts(1) [OF only])
  show thesis
  proof (rule that [OF c auth])
    show "limitOf E t c = Some n" "\<And>c'. c' \<noteq> c \<Longrightarrow> limitOf E t c' = limitOf E s c'"
      "\<And>c'. delegatedOf E t c' = delegatedOf E s c'"
      using tasksOnly_amounts(1,2) [OF only] s1(3,5) by simp_all
    show "totalCaps E t = otherCaps E s c + n" "totalCaps E t \<le> L"
      using caps s1(2,4) by simp_all
    show "0 \<le> n \<Longrightarrow> wfAmounts E t"
      using tasksOnly_amounts(3) [OF only] s1(8) by simp
    show "GetParams E t = GetParams E s"
      using tasksOnly_params [OF only] par1 by simp
    show "mem t = mem s \<and> ext t = ext s \<and> height t = height s \<and> blockTime t = blockTime s"
      using only s1(9) by (simp add: tasksOnly_def)
  qed (use final in blast)+
qed

end

end
