(* ===== verification/Execution.thy ===== *)
theory Execution
  imports Scheduler
begin

text \<open>
  Running the due tasks (\<open>ExecScheduledTasks\<close> in \<open>keeper/scheduler.go\<close>): every due
  task's callback runs under a gas meter in a branch of the state that is committed only when
  the callback returns no error; the task is then registered again one epoch later when it
  repeats, and deleted. The lemmas give the state after one task and after all of them: a
  failing callback changes nothing, and the task table afterwards does not depend on what
  the callbacks did, as long as they leave the table alone.
\<close>

section \<open>Operations\<close>

record exec_result =
  Contract :: address
  ExecErr :: "error option"
  RescheduleErr :: "error option"
  DeleteTaskErr :: "error option"
  GasUsed :: u64
  GasLimit :: u64
  NextRunHeight :: u64

text \<open>\<open>safeExec\<close> recovers a panic of the callback as an error.\<close>

definition safeExec :: "unit result \<Rightarrow> error option" where
  "safeExec r = (case r of Ok _ \<Rightarrow> None | Err e \<Rightarrow> Some e | Panic \<Rightarrow> Some ErrPanic)"

text \<open>The body of the loop of \<open>ExecScheduledTasks\<close>, for one task.\<close>

definition execTask :: "('s, 'x) sdk \<Rightarrow> task_type \<Rightarrow> u64 \<Rightarrow>
    (address \<Rightarrow> (('s, 'x) chain, unit) act) \<Rightarrow> address \<Rightarrow> u64 \<Rightarrow> bool \<Rightarrow>
    (('s, 'x) chain, exec_result) act" where
  "execTask E tp epochLength cb contract scheduledHeight repeat = withState (\<lambda>pCtx.
     bindA (liftR (GetMaxSudoGas E pCtx)) (\<lambda>gasLimit.
     let ((r, cachedCtx), gasConsumed) = gas_Metered E gasLimit (cb contract) pCtx;
         execErr = safeExec r
     in
     bindA (modify (\<lambda>p. if execErr = None then commitCache p cachedCtx else p)) (\<lambda>_.
     bindA (emit (EmitSchedulerExecutionEvent contract execErr)) (\<lambda>_.
     let nextExecBlock = height pCtx + epochLength in
     bindA (if repeat \<and> epochLength \<noteq> 0
            then bindA (attempt (ScheduleRepeatingTask E tp contract nextExecBlock)) (\<lambda>err.
                 ret (nextExecBlock, err))
            else ret (0, None)) (\<lambda>(nextRun, rescheduleErr).
     bindA (attempt (deleteScheduledTask E tp contract scheduledHeight)) (\<lambda>deleteErr.
     ret \<lparr>Contract = contract, ExecErr = execErr, RescheduleErr = rescheduleErr,
          DeleteTaskErr = deleteErr, GasUsed = gasConsumed, GasLimit = gasLimit,
          NextRunHeight = nextRun\<rparr>))))))"

text \<open>The closure of \<open>ExecScheduledTasks\<close> captures \<open>allResults\<close>.\<close>

definition execCallback :: "('s, 'x) sdk \<Rightarrow> task_type \<Rightarrow> u64 \<Rightarrow>
    (address \<Rightarrow> (('s, 'x) chain, unit) act) \<Rightarrow> address \<Rightarrow> u64 \<Rightarrow> bool \<Rightarrow>
    (exec_result list \<times> ('s, 'x) chain, bool) act" where
  "execCallback E tp epochLength cb contract scheduledHeight repeat =
     bindA (onChain (execTask E tp epochLength cb contract scheduledHeight repeat)) (\<lambda>result.
     bindA (updLocal (\<lambda>allResults. Ok (allResults @ [result]))) (\<lambda>_.
     ret False))"

definition ExecScheduledTasks :: "('s, 'x) sdk \<Rightarrow> task_type \<Rightarrow> u64 \<Rightarrow>
    (address \<Rightarrow> (('s, 'x) chain, unit) act) \<Rightarrow> (('s, 'x) chain, exec_result list) act" where
  "ExecScheduledTasks E tp epochLength cb = withState (\<lambda>pCtx.
     withLocal [] (IterateScheduledTasks E tp (height pCtx) (execCallback E tp epochLength cb))
       ret)"

section \<open>One task\<close>

text \<open>
  What the scheduler asks of a callback: it leaves the scheduler's entries and the parameters
  alone.
\<close>

definition keepsTasks :: "('s, 'x) sdk \<Rightarrow> ('s, 'x) chain \<Rightarrow> ('s, 'x) chain \<Rightarrow> bool" where
  "keepsTasks E s t \<longleftrightarrow>
     (\<forall>k. kv_Get E (store t) (SchedulerKeyPrefix @ k) = kv_Get E (store s) (SchedulerKeyPrefix @ k)) \<and>
     kv_Get E (store t) ParamsKey = kv_Get E (store s) ParamsKey"

definition goodExecutor :: "('s, 'x) sdk \<Rightarrow> (address \<Rightarrow> (('s, 'x) chain, unit) act) \<Rightarrow> bool" where
  "goodExecutor E cb \<longleftrightarrow> (\<forall>c s. keepsTasks E s (snd (cb c s)))"

lemma keepsTasks_taskAt: "keepsTasks E s t \<Longrightarrow> taskAt E t tp h c = taskAt E s tp h c"
  by (simp add: keepsTasks_def taskAt_def taskKey_def)

lemma keepsTasks_wfTasks: "keepsTasks E s t \<Longrightarrow> wfTasks E t = wfTasks E s"
  by (simp add: keepsTasks_def wfTasks_def)

lemma keepsTasks_params: "keepsTasks E s t \<Longrightarrow> GetParams E t = GetParams E s"
  by (rule GetParams_cong) (simp add: keepsTasks_def)

lemma keepsTasks_commitCache [simp]: "keepsTasks E s (commitCache p t) = keepsTasks E s t"
  by (simp add: keepsTasks_def)

text \<open>The outcome of a callback under its gas limit, as \<open>ExecScheduledTasks\<close> sees it.\<close>

definition meteredErr :: "('s, 'x) sdk \<Rightarrow> u64 \<Rightarrow> (('s, 'x) chain, unit) act \<Rightarrow>
    ('s, 'x) chain \<Rightarrow> error option" where
  "meteredErr E g f s = safeExec (fst (fst (gas_Metered E g f s)))"

definition branchState :: "('s, 'x) sdk \<Rightarrow> u64 \<Rightarrow> (('s, 'x) chain, unit) act \<Rightarrow>
    ('s, 'x) chain \<Rightarrow> ('s, 'x) chain" where
  "branchState E g f s =
     (if meteredErr E g f s = None then commitCache s (snd (f s)) else s)"

locale task_runner = mesh_store E + gas_meter E
  for E :: "('s, 'x) sdk"
begin

lemma metered_Ok:
  assumes "meteredErr E g f s = None"
  shows "\<exists>u. f s = (Ok u, snd (fst (gas_Metered E g f s)))"
proof -
  obtain r s' used where m: "gas_Metered E g f s = ((r, s'), used)"
    by (metis prod.collapse)
  with assms obtain u where "r = Ok u"
    by (auto simp: meteredErr_def safeExec_def split: result.splits)
  with metered [OF m] m show ?thesis
    by (auto simp: prod_eq_iff)
qed

text \<open>The state after one task: the branch, the event, the registration, the deletion.\<close>

definition registeredAgain :: "task_type \<Rightarrow> u64 \<Rightarrow> address \<Rightarrow> bool \<Rightarrow> ('s, 'x) chain \<Rightarrow> bool" where
  "registeredAgain tp ep c r s \<longleftrightarrow> r \<and> ep \<noteq> 0 \<and> height s \<le> height s + ep"

lemma execTask_eq:
  assumes "tp \<noteq> SchedulerTaskUndefined" and "GetMaxSudoGas E s = Ok g"
  obtains res t where "execTask E tp ep cb c h r s = (Ok res, t)"
    and "Contract res = c" and "ExecErr res = meteredErr E g (cb c) s"
    and "GasLimit res = g" and "DeleteTaskErr res = None"
    and "RescheduleErr res = (if r \<and> ep \<noteq> 0 \<and> height s + ep < height s then Some ErrInvalid else None)"
    and "tasksOnly E (branchState E g (cb c) s) t"
    and "wfTasks E (branchState E g (cb c) s) \<Longrightarrow> wfTasks E t"
    and "\<And>tp' h' c'. taskAt E t tp' h' c' =
      (if (tp', h', c') = (tp, h, c) then None
       else if registeredAgain tp ep c r s \<and> (tp', h', c') = (tp, height s + ep, c) then Some True
       else taskAt E (branchState E g (cb c) s) tp' h' c')"
proof -
  let ?b = "branchState E g (cb c) s"
  have branch: "(if meteredErr E g (cb c) s = None
      then commitCache s (snd (fst (gas_Metered E g (cb c) s))) else s) = ?b"
    using metered_Ok [of g "cb c" s] by (auto simp: branchState_def)
  have height_b: "height ?b = height s"
    by (simp add: branchState_def)
  let ?e = "EmitSchedulerExecutionEvent c (meteredErr E g (cb c) s)"
  let ?b1 = "?b\<lparr>events := events ?b @ [?e]\<rparr>"
  define n where "n = height s + ep"
  define b2 where "b2 = (if registeredAgain tp ep c r s
    then ?b1\<lparr>store := kv_Set E (store ?b) (taskKey tp n c) [toByte True],
             events := events ?b1 @ [EmitSchedulerRegisteredEvent c n True]\<rparr>
    else ?b1)"
  define res where "res = \<lparr>Contract = c, ExecErr = meteredErr E g (cb c) s,
    RescheduleErr = (if r \<and> ep \<noteq> 0 \<and> n < height s then Some ErrInvalid else None),
    DeleteTaskErr = None, GasUsed = snd (gas_Metered E g (cb c) s), GasLimit = g,
    NextRunHeight = (if r \<and> ep \<noteq> 0 then n else 0)\<rparr>"
  have run: "execTask E tp ep cb c h r s =
      (Ok res, b2\<lparr>store := kv_Delete E (store b2) (taskKey tp h c)\<rparr>)"
    using assms branch
    by (auto simp: execTask_def act_simps bindA_def Let_def case_prod_beta meteredErr_def [symmetric]
        attempt_def ScheduleRepeatingTask_eq deleteScheduledTask_eq height_b res_def b2_def n_def
        registeredAgain_def)
  have b2: "tasksOnly E ?b b2" "wfTasks E ?b \<Longrightarrow> wfTasks E b2"
    "taskAt E b2 tp' h' c' = (if registeredAgain tp ep c r s \<and> (tp', h', c') = (tp, n, c)
       then Some True else taskAt E ?b tp' h' c')" for tp' h' c'
    by (auto simp: b2_def tasksOnly_set wfTasks_set taskAt_set [of ?b])
  show thesis
    by (rule that [OF run])
      (use b2 tasksOnly_trans [OF b2(1) tasksOnly_delete] in
        \<open>auto simp: res_def n_def taskAt_delete wfTasks_delete\<close>)
qed


lemma goodExecutor_branch:
  assumes "goodExecutor E cb"
  shows "keepsTasks E s (branchState E g (cb c) s)"
  using assms by (auto simp: goodExecutor_def branchState_def) (simp add: keepsTasks_def)

section \<open>All due tasks\<close>

lemma execRun:
  assumes "goodExecutor E cb" and "tp \<noteq> SchedulerTaskUndefined"
    and "GetMaxSudoGas E s = Ok g" and "wfTasks E s" and "height s \<le> height s + ep"
    and "\<forall>x \<in> set ts. fst x \<le> height s"
  shows "\<exists>rs t. runTasks ts (execCallback E tp ep cb) (acc, s) = (Ok (), (acc @ rs, t))
    \<and> map Contract rs = map (fst \<circ> snd) ts
    \<and> (\<forall>res \<in> set rs. RescheduleErr res = None \<and> DeleteTaskErr res = None \<and> GasLimit res = g)
    \<and> height t = height s \<and> blockTime t = blockTime s
    \<and> GetParams E t = GetParams E s \<and> wfTasks E t
    \<and> (\<forall>tp' h' c'. taskAt E t tp' h' c' =
        (if tp' = tp \<and> (\<exists>r. (h', c', r) \<in> set ts) then None
         else if tp' = tp \<and> ep \<noteq> 0 \<and> h' = height s + ep \<and> (\<exists>h. (h, c', True) \<in> set ts) then Some True
         else taskAt E s tp' h' c'))"
  using assms(3-)
proof (induction ts arbitrary: s acc)
  case Nil
  then show ?case by (auto simp: act_simps)
next
  case (Cons x ts)
  obtain h c r where x: "x = (h, c, r)" by (cases x) auto
  let ?b = "branchState E g (cb c) s"
  have b: "keepsTasks E s ?b"
    by (rule goodExecutor_branch [OF assms(1)])
  have b_head: "height ?b = height s" "blockTime ?b = blockTime s"
    by (simp_all add: branchState_def)
  obtain res s1 where run: "execTask E tp ep cb c h r s = (Ok res, s1)"
    and res: "Contract res = c" "DeleteTaskErr res = None" "GasLimit res = g"
      "RescheduleErr res = (if r \<and> ep \<noteq> 0 \<and> height s + ep < height s then Some ErrInvalid else None)"
    and s1: "tasksOnly E ?b s1" "wfTasks E ?b \<Longrightarrow> wfTasks E s1"
    and at1: "\<And>tp' h' c'. taskAt E s1 tp' h' c' =
      (if (tp', h', c') = (tp, h, c) then None
       else if registeredAgain tp ep c r s \<and> (tp', h', c') = (tp, height s + ep, c) then Some True
       else taskAt E ?b tp' h' c')"
    by (rule execTask_eq [OF assms(2) Cons.prems(1), where ep = ep and cb = cb and c = c and h = h
          and r = r]) (rule that; assumption)
  have head1: "height s1 = height s" "blockTime s1 = blockTime s"
    using s1(1) b_head by (simp_all add: tasksOnly_def)
  have params1: "GetParams E s1 = GetParams E s"
    using tasksOnly_params [OF s1(1)] keepsTasks_params [OF b] by simp
  have wf1: "wfTasks E s1"
    using s1(2) keepsTasks_wfTasks [OF b] Cons.prems(2) by simp
  have gas1: "GetMaxSudoGas E s1 = Ok g"
    using params_reads_cong(1) [OF params1] Cons.prems(1) by simp
  have le: "\<forall>x \<in> set ts. fst x \<le> height s1" "height s1 \<le> height s1 + ep"
    using Cons.prems(3,4) by (auto simp: head1)
  obtain rs t where rest: "runTasks ts (execCallback E tp ep cb) (acc @ [res], s1)
        = (Ok (), ((acc @ [res]) @ rs, t))"
    and rs: "map Contract rs = map (fst \<circ> snd) ts"
      "\<forall>res \<in> set rs. RescheduleErr res = None \<and> DeleteTaskErr res = None \<and> GasLimit res = g"
    and t: "height t = height s1" "blockTime t = blockTime s1" "GetParams E t = GetParams E s1"
      "wfTasks E t"
    and at: "\<And>tp' h' c'. taskAt E t tp' h' c' =
        (if tp' = tp \<and> (\<exists>r. (h', c', r) \<in> set ts) then None
         else if tp' = tp \<and> ep \<noteq> 0 \<and> h' = height s1 + ep \<and> (\<exists>h. (h, c', True) \<in> set ts) then Some True
         else taskAt E s1 tp' h' c')"
    using Cons.IH [where s = s1 and acc = "acc @ [res]", OF gas1 wf1 le(2,1)]
    by blast
  have full: "runTasks (x # ts) (execCallback E tp ep cb) (acc, s) = (Ok (), (acc @ res # rs, t))"
    using rest by (simp add: x execCallback_def act_simps bindA_def run)
  have "h \<le> height s"
    using Cons.prems(4) by (simp add: x)
  moreover have "ep \<noteq> 0 \<Longrightarrow> height s < height s + ep"
    using Cons.prems(3) by (simp add: order.strict_iff_order)
  ultimately have later: "ep \<noteq> 0 \<Longrightarrow> h \<noteq> height s + ep"
    by auto
  have table: "taskAt E t tp' h' c' =
        (if tp' = tp \<and> (\<exists>r. (h', c', r) \<in> set (x # ts)) then None
         else if tp' = tp \<and> ep \<noteq> 0 \<and> h' = height s + ep \<and> (\<exists>h. (h, c', True) \<in> set (x # ts))
         then Some True else taskAt E s tp' h' c')" for tp' h' c'
  proof -
    define n where "n = height s + ep"
    have again: "registeredAgain tp ep c r s \<longleftrightarrow> r \<and> ep \<noteq> 0"
      using Cons.prems(3) by (auto simp: registeredAgain_def)
    have later: "ep \<noteq> 0 \<Longrightarrow> h \<noteq> n"
      using later by (simp add: n_def)
    show ?thesis
      unfolding at at1 keepsTasks_taskAt [OF b] head1 again x n_def [symmetric]
      using later by (cases "ep = 0"; cases r) auto
  qed
  show ?case
    using full rs t table res head1 params1 Cons.prems(3)
    by (intro exI [of _ "res # rs"] exI [of _ t]) (auto simp: x not_less)
qed

text \<open>
  The state a block's run leaves behind: no task of the type is due any more, the repeating
  ones are registered one epoch ahead, the future ones and the other types are untouched.
\<close>

lemma ExecScheduledTasks_eq:
  assumes "goodExecutor E cb" and "tp \<noteq> SchedulerTaskUndefined"
    and "GetMaxSudoGas E s = Ok g" and "wfTasks E s" and "height s \<le> height s + ep"
  obtains rs t where "ExecScheduledTasks E tp ep cb s = (Ok rs, t)"
    and "map Contract rs = map (fst \<circ> snd) (dueTasks E s tp (height s))"
    and "\<forall>res \<in> set rs. RescheduleErr res = None \<and> DeleteTaskErr res = None \<and> GasLimit res = g"
    and "height t = height s" and "blockTime t = blockTime s"
    and "GetParams E t = GetParams E s" and "wfTasks E t"
    and "\<And>tp' h c. taskAt E t tp' h c =
      (if tp' = tp \<and> h \<le> height s then None
       else if tp' = tp \<and> ep \<noteq> 0 \<and> h = height s + ep \<and> (\<exists>h0 \<le> height s. taskAt E s tp h0 c = Some True)
       then Some True else taskAt E s tp' h c)"
proof -
  let ?ts = "dueTasks E s tp (height s)"
  obtain rs t where run: "runTasks ?ts (execCallback E tp ep cb) ([], s) = (Ok (), ([] @ rs, t))"
    and rs: "map Contract rs = map (fst \<circ> snd) ?ts"
      "\<forall>res \<in> set rs. RescheduleErr res = None \<and> DeleteTaskErr res = None \<and> GasLimit res = g"
    and t: "height t = height s" "blockTime t = blockTime s" "GetParams E t = GetParams E s" "wfTasks E t"
    and at: "\<And>tp' h' c'. taskAt E t tp' h' c' =
        (if tp' = tp \<and> (\<exists>r. (h', c', r) \<in> set ?ts) then None
         else if tp' = tp \<and> ep \<noteq> 0 \<and> h' = height s + ep \<and> (\<exists>h. (h, c', True) \<in> set ?ts) then Some True
         else taskAt E s tp' h' c')"
    using execRun [where acc = "[]", OF assms, of ?ts] by (auto simp: dueTasks_def)
  have later: "ep \<noteq> 0 \<Longrightarrow> \<not> height s + ep \<le> height s"
    using assms(5) by (auto dest: antisym)
  have "ExecScheduledTasks E tp ep cb s = (Ok rs, t)"
    using run assms(2,4)
    by (simp add: ExecScheduledTasks_def withLocal_def act_simps IterateScheduledTasks_eq)
  moreover have "taskAt E t tp' h c =
      (if tp' = tp \<and> h \<le> height s then None
       else if tp' = tp \<and> ep \<noteq> 0 \<and> h = height s + ep \<and> (\<exists>h0 \<le> height s. taskAt E s tp h0 c = Some True)
       then Some True else taskAt E s tp' h c)" for tp' h c
    using later by (auto simp: at dueTasks_iff [OF assms(4)])
  ultimately show thesis
    using that rs t by blast
qed

text \<open>
  A property that the branches and the scheduler's own writes keep is kept by the whole run.
\<close>

lemma execRun_keeps:
  assumes "goodExecutor E cb" and "tp \<noteq> SchedulerTaskUndefined"
    and branch: "\<And>s c. P s \<Longrightarrow> P (branchState E g (cb c) s)"
    and table: "\<And>s t. P s \<Longrightarrow> tasksOnly E s t \<Longrightarrow> P t"
    and "GetMaxSudoGas E s = Ok g" and "P s"
  shows "P (snd (snd (runTasks ts (execCallback E tp ep cb) (acc, s))))"
  using assms(5,6)
proof (induction ts arbitrary: s acc)
  case Nil
  then show ?case by (simp add: act_simps)
next
  case (Cons x ts)
  obtain h c r where x: "x = (h, c, r)" by (cases x) auto
  let ?b = "branchState E g (cb c) s"
  obtain res s1 where run: "execTask E tp ep cb c h r s = (Ok res, s1)" and s1: "tasksOnly E ?b s1"
    by (rule execTask_eq [OF assms(2) Cons.prems(1), where ep = ep and cb = cb and c = c and h = h
          and r = r]) (rule that; assumption)
  have "GetParams E s1 = GetParams E s"
    using tasksOnly_params [OF s1] keepsTasks_params [OF goodExecutor_branch [OF assms(1)]] by metis
  then have "GetMaxSudoGas E s1 = Ok g"
    using params_reads_cong(1) Cons.prems(1) by metis
  moreover have "P s1"
    by (rule table [OF branch [OF Cons.prems(2)] s1])
  ultimately have "P (snd (snd (runTasks ts (execCallback E tp ep cb) (acc @ [res], s1))))"
    by (rule Cons.IH)
  moreover have "execCallback E tp ep cb c h r (acc, s) = (Ok False, (acc @ [res], s1))"
    by (simp add: execCallback_def act_simps bindA_def run)
  ultimately show ?case
    by (simp add: x bindA_def)
qed

lemma ExecScheduledTasks_keeps:
  assumes "goodExecutor E cb" and "tp \<noteq> SchedulerTaskUndefined"
    and "\<And>s c. P s \<Longrightarrow> P (branchState E g (cb c) s)"
    and "\<And>s t. P s \<Longrightarrow> tasksOnly E s t \<Longrightarrow> P t"
    and "GetMaxSudoGas E s = Ok g" and "wfTasks E s" and "P s"
  shows "P (snd (ExecScheduledTasks E tp ep cb s))"
proof -
  let ?run = "runTasks (dueTasks E s tp (height s)) (execCallback E tp ep cb) ([], s)"
  obtain r rs t where run: "?run = (r, (rs, t))"
    by (metis prod_cases3)
  have "P (snd (snd ?run))"
    by (rule execRun_keeps [where P = P and g = g]) (fact assms)+
  then have "P t"
    by (simp add: run)
  then show ?thesis
    using assms(2,6) run
    by (cases r) (simp_all add: ExecScheduledTasks_def withLocal_def act_simps IterateScheduledTasks_eq)
qed

end

end
