(* ===== verification/Valset.thy ===== *)
theory Valset
  imports Execution
begin

text \<open>
  Validator set changes (\<open>keeper/valset_updates.go\<close>, \<open>keeper/staking_hooks.go\<close> and the
  decorators of \<open>keeper/adapter.go\<close>). A change is stored in the memory store under a key
  that packs operation, validator and slash details, and a one-shot update task is
  registered for every contract with a positive limit; at the end of the block the keys are
  unpacked into one report. The lemmas show what a change stores and registers, that
  unpacking inverts packing up to the exchange of two fields, which keys survive the
  byte-wide index arithmetic, and what the report holds.
\<close>

section \<open>Storing changes\<close>

text \<open>The closure of \<open>sendAsync\<close> captures \<open>innerErr\<close>.\<close>

definition scheduleValsetUpdate :: "('s, 'x) sdk \<Rightarrow> address \<Rightarrow> int \<Rightarrow>
    (error option \<times> ('s, 'x) chain, bool) act" where
  "scheduleValsetUpdate E contractAddr m =
     (if 0 < m then withState (\<lambda>(_, ctx).
        bindA (onChain (attempt
          (ScheduleOneShotTask E SchedulerTaskValsetUpdate contractAddr (height ctx)))) (\<lambda>innerErr.
        bindA (updLocal (\<lambda>_. Ok innerErr)) (\<lambda>_.
        ret (innerErr \<noteq> None))))
      else ret False)"

definition sendAsync :: "('s, 'x) sdk \<Rightarrow> valset_op \<Rightarrow> address \<Rightarrow> slash_info option \<Rightarrow>
    (('s, 'x) chain, unit) act" where
  "sendAsync E op valAddr slashInfo =
     bindA (liftR (BuildPipedValsetOpKey E op valAddr slashInfo)) (\<lambda>key.
     bindA (modify (\<lambda>s. s\<lparr>mem := kv_Set E (mem s) key []\<rparr>)) (\<lambda>_.
     withLocal None (IterateMaxCapLimit E (scheduleValsetUpdate E)) (\<lambda>innerErr.
     case innerErr of None \<Rightarrow> ret () | Some e \<Rightarrow> fail e)))"

definition ScheduleBonded :: "('s, 'x) sdk \<Rightarrow> address \<Rightarrow> (('s, 'x) chain, unit) act" where
  "ScheduleBonded E addr = sendAsync E ValidatorBonded addr None"

definition ScheduleUnbonded :: "('s, 'x) sdk \<Rightarrow> address \<Rightarrow> (('s, 'x) chain, unit) act" where
  "ScheduleUnbonded E addr = sendAsync E ValidatorUnbonded addr None"

definition ScheduleSlashed :: "('s, 'x) sdk \<Rightarrow> address \<Rightarrow> u64 \<Rightarrow> u64 \<Rightarrow> int \<Rightarrow> dec \<Rightarrow>
    (('s, 'x) chain, unit) act" where
  "ScheduleSlashed E addr pow h totalSlashAmount slashRatio =
     sendAsync E ValidatorSlashed addr
       (Some \<lparr>InfractionHeight = h, Power = pow,
              TotalSlashAmount = Int_String E totalSlashAmount,
              SlashFraction = Dec_String E slashRatio\<rparr>)"

definition ScheduleJailed :: "('s, 'x) sdk \<Rightarrow> address \<Rightarrow> (('s, 'x) chain, unit) act" where
  "ScheduleJailed E addr = sendAsync E ValidatorJailed addr None"

definition ScheduleTombstoned :: "('s, 'x) sdk \<Rightarrow> address \<Rightarrow> (('s, 'x) chain, unit) act" where
  "ScheduleTombstoned E addr = sendAsync E ValidatorTombstoned addr None"

definition ScheduleUnjailed :: "('s, 'x) sdk \<Rightarrow> address \<Rightarrow> (('s, 'x) chain, unit) act" where
  "ScheduleUnjailed E addr = sendAsync E ValidatorUnjailed addr None"

definition ScheduleModified :: "('s, 'x) sdk \<Rightarrow> address \<Rightarrow> (('s, 'x) chain, unit) act" where
  "ScheduleModified E addr = sendAsync E ValidatorModified addr None"

section \<open>Staking hooks\<close>

definition AfterValidatorBonded :: "('s, 'x) sdk \<Rightarrow> address \<Rightarrow> address \<Rightarrow> (('s, 'x) chain, unit) act" where
  "AfterValidatorBonded E consAddr valAddr = ScheduleBonded E valAddr"

definition AfterValidatorBeginUnbonding ::
    "('s, 'x) sdk \<Rightarrow> address \<Rightarrow> address \<Rightarrow> (('s, 'x) chain, unit) act" where
  "AfterValidatorBeginUnbonding E consAddr valAddr = ScheduleUnbonded E valAddr"

definition BeforeValidatorModified :: "('s, 'x) sdk \<Rightarrow> address \<Rightarrow> (('s, 'x) chain, unit) act" where
  "BeforeValidatorModified E valAddr = ScheduleModified E valAddr"

text \<open>The hooks the module ignores.\<close>

definition BeforeValidatorSlashed :: "('s, 'x) sdk \<Rightarrow> address \<Rightarrow> dec \<Rightarrow> (('s, 'x) chain, unit) act" where
  "BeforeValidatorSlashed E valAddr fraction = ret ()"

definition AfterUnbondingInitiated :: "('s, 'x) sdk \<Rightarrow> u64 \<Rightarrow> (('s, 'x) chain, unit) act" where
  "AfterUnbondingInitiated E i = ret ()"

definition AfterValidatorCreated :: "('s, 'x) sdk \<Rightarrow> address \<Rightarrow> (('s, 'x) chain, unit) act" where
  "AfterValidatorCreated E valAddr = ret ()"

definition AfterValidatorRemoved ::
    "('s, 'x) sdk \<Rightarrow> address \<Rightarrow> address \<Rightarrow> (('s, 'x) chain, unit) act" where
  "AfterValidatorRemoved E consAddr valAddr = ret ()"

definition BeforeDelegationCreated ::
    "('s, 'x) sdk \<Rightarrow> address \<Rightarrow> address \<Rightarrow> (('s, 'x) chain, unit) act" where
  "BeforeDelegationCreated E delAddr valAddr = ret ()"

definition BeforeDelegationSharesModified ::
    "('s, 'x) sdk \<Rightarrow> address \<Rightarrow> address \<Rightarrow> (('s, 'x) chain, unit) act" where
  "BeforeDelegationSharesModified E delAddr valAddr = ret ()"

definition BeforeDelegationRemoved ::
    "('s, 'x) sdk \<Rightarrow> address \<Rightarrow> address \<Rightarrow> (('s, 'x) chain, unit) act" where
  "BeforeDelegationRemoved E delAddr valAddr = ret ()"

definition AfterDelegationModified ::
    "('s, 'x) sdk \<Rightarrow> address \<Rightarrow> address \<Rightarrow> (('s, 'x) chain, unit) act" where
  "AfterDelegationModified E delAddr valAddr = ret ()"

section \<open>Decorators\<close>

text \<open>
  The decorators propagate a change and then call the keeper they wrap. A validator that is
  not found, or an error of the propagation, is only logged.
\<close>

definition propagate :: "('s, 'x) sdk \<Rightarrow> validator option \<Rightarrow>
    (address \<Rightarrow> (('s, 'x) chain, unit) act) \<Rightarrow> (('s, 'x) chain, unit) act" where
  "propagate E val schedule =
     (case val of
        None \<Rightarrow> ret ()
      | Some v \<Rightarrow>
          bindA (liftR (validator_GetOperator E v)) (\<lambda>operator.
          bindA (attempt (schedule operator)) (\<lambda>_. ret ())))"

definition Tombstone :: "('s, 'x) sdk \<Rightarrow> address \<Rightarrow> (('s, 'x) chain, unit) act" where
  "Tombstone E address = withState (\<lambda>ctx.
     bindA (propagate E (staking_ValidatorByConsAddr E (ext ctx) address) (ScheduleTombstoned E)) (\<lambda>_.
     onExt (slashing_Tombstone E address)))"

definition Slash :: "('s, 'x) sdk \<Rightarrow> address \<Rightarrow> u64 \<Rightarrow> u64 \<Rightarrow> dec \<Rightarrow> (('s, 'x) chain, int) act" where
  "Slash E consAddr pow h slashRatio = withState (\<lambda>ctx.
     let val = staking_ValidatorByConsAddr E (ext ctx) consAddr in
     bindA (onExt (staking_Slash E consAddr pow h slashRatio)) (\<lambda>totalSlashAmount.
     bindA (propagate E val (\<lambda>operator.
       ScheduleSlashed E operator pow h totalSlashAmount slashRatio)) (\<lambda>_.
     ret totalSlashAmount)))"

definition SlashWithInfractionReason ::
    "('s, 'x) sdk \<Rightarrow> address \<Rightarrow> u64 \<Rightarrow> u64 \<Rightarrow> dec \<Rightarrow> (('s, 'x) chain, int) act" where
  "SlashWithInfractionReason E consAddr infractionHeight pow slashFactor =
     Slash E consAddr infractionHeight pow slashFactor"

definition Jail :: "('s, 'x) sdk \<Rightarrow> address \<Rightarrow> (('s, 'x) chain, unit) act" where
  "Jail E consAddr = withState (\<lambda>ctx.
     bindA (propagate E (staking_ValidatorByConsAddr E (ext ctx) consAddr) (ScheduleJailed E)) (\<lambda>_.
     onExt (staking_Jail E consAddr)))"

definition Unjail :: "('s, 'x) sdk \<Rightarrow> address \<Rightarrow> (('s, 'x) chain, unit) act" where
  "Unjail E consAddr = withState (\<lambda>ctx.
     bindA (propagate E (staking_ValidatorByConsAddr E (ext ctx) consAddr) (ScheduleUnjailed E)) (\<lambda>_.
     onExt (staking_Unjail E consAddr)))"

text \<open>
  The decorators as values: what the slashing module gets as its staking keeper, the evidence
  module as its slashing keeper, and staking as hooks.
\<close>

record ('s, 'x) staking_decorator =
  dec_Slash :: "address \<Rightarrow> u64 \<Rightarrow> u64 \<Rightarrow> dec \<Rightarrow> (('s, 'x) chain, int) act"
  dec_SlashWithInfractionReason :: "address \<Rightarrow> u64 \<Rightarrow> u64 \<Rightarrow> dec \<Rightarrow> (('s, 'x) chain, int) act"
  dec_Jail :: "address \<Rightarrow> (('s, 'x) chain, unit) act"
  dec_Unjail :: "address \<Rightarrow> (('s, 'x) chain, unit) act"

definition NewStakingDecorator :: "('s, 'x) sdk \<Rightarrow> ('s, 'x) staking_decorator" where
  "NewStakingDecorator E = \<lparr>dec_Slash = Slash E,
     dec_SlashWithInfractionReason = SlashWithInfractionReason E,
     dec_Jail = Jail E, dec_Unjail = Unjail E\<rparr>"

definition CaptureTombstoneDecorator :: "('s, 'x) sdk \<Rightarrow> address \<Rightarrow> (('s, 'x) chain, unit) act" where
  "CaptureTombstoneDecorator E = Tombstone E"

section \<open>Reading changes\<close>

text \<open>
  Unpacking a key. \<open>addrLen\<close> and the total slash amount's length are bytes, and so are the
  index expressions made from them: they wrap around at 256, except in the length check,
  which is done on \<open>int\<close>.
\<close>

definition decodeSlashInfo :: "bytes \<Rightarrow> byte \<Rightarrow> slash_info result" where
  "decodeSlashInfo key addrLen =
     (if length key \<le> 1 + unat addrLen + 1 + 8 + 8 + 1 then Err ErrInvalid else
      bindR (go_index key (unat (addrLen + 2 + 8 + 8))) (\<lambda>totalSlashAmountLen.
      bindR (bindR (go_slice key (unat (addrLen + 2)) (unat (addrLen + 2 + 8)))
        BigEndianToUint64) (\<lambda>power.
      bindR (bindR (go_slice key (unat (addrLen + 2 + 8)) (unat (addrLen + 2 + 8 + 8)))
        BigEndianToUint64) (\<lambda>infractionHeight.
      bindR (go_slice key (unat (addrLen + 2 + 8 + 8 + 1))
        (unat (addrLen + 2 + 8 + 8 + 1 + totalSlashAmountLen))) (\<lambda>totalSlashAmount.
      bindR (go_slice key (unat (addrLen + 2 + 8 + 8 + 1 + totalSlashAmountLen))
        (length key)) (\<lambda>slashFraction.
      Ok \<lparr>InfractionHeight = infractionHeight, Power = power,
          TotalSlashAmount = string_of_bytes totalSlashAmount,
          SlashFraction = string_of_bytes slashFraction\<rparr>))))))"

definition decodeOpKey :: "bytes \<Rightarrow> (address \<times> valset_op \<times> slash_info option) result" where
  "decodeOpKey key =
     bindR (go_index key 0) (\<lambda>addrLen.
     bindR (go_slice key 1 (unat (addrLen + 1))) (\<lambda>addr.
     bindR (go_index key (unat (addrLen + 1))) (\<lambda>op.
     if op = ValidatorSlashed
     then bindR (decodeSlashInfo key addrLen) (\<lambda>slashInfo. Ok (addr, op, Some slashInfo))
     else Ok (addr, op, None))))"

fun iterOps :: "(bytes \<times> bytes) list \<Rightarrow>
    (address \<Rightarrow> valset_op \<Rightarrow> slash_info option \<Rightarrow> ('w, bool) act) \<Rightarrow> ('w, unit) act" where
  "iterOps [] cb = ret ()"
| "iterOps ((key, v) # es) cb =
     bindA (liftR (decodeOpKey key)) (\<lambda>(addr, op, slashInfo).
     bindA (cb addr op slashInfo) (\<lambda>stop.
     if stop then ret () else iterOps es cb))"

definition iteratePipedValsetOperations :: "('s, 'x) sdk \<Rightarrow> ('s, 'x) chain \<Rightarrow>
    (address \<Rightarrow> valset_op \<Rightarrow> slash_info option \<Rightarrow> ('w, bool) act) \<Rightarrow> ('w, unit) act" where
  "iteratePipedValsetOperations E ctx cb =
     iterOps (kv_PrefixIterator E (mem ctx) PipedValsetPrefix) cb"

definition ConvertSdkValidatorToWasm :: "('s, 'x) sdk \<Rightarrow> validator \<Rightarrow> wasm_validator" where
  "ConvertSdkValidatorToWasm E v =
     \<lparr>wv_address = OperatorAddress v,
      wv_commission = Dec_String E (CommissionRate v),
      wv_max_commission = Dec_String E (CommissionMaxRate v),
      wv_max_change_rate = Dec_String E (CommissionMaxChangeRate v)\<rparr>"

definition emptyReport :: valset_update where
  "emptyReport = \<lparr>Additions = [], Removals = [], Updated = [], Jailed = [], Unjailed = [],
     Tombstoned = [], Slashed = []\<rparr>"

text \<open>The closures of \<open>ValsetUpdateReport\<close> capture the report and \<open>innerErr\<close>.\<close>

definition appendValidator :: "('s, 'x) sdk \<Rightarrow> ('s, 'x) chain \<Rightarrow>
    (wasm_validator \<Rightarrow> valset_update \<Rightarrow> valset_update) \<Rightarrow> address \<Rightarrow>
    (valset_update \<times> error option, bool) act" where
  "appendValidator E ctx add valAddr =
     (case staking_GetValidator E (ext ctx) valAddr of
        None \<Rightarrow> bindA (modify (\<lambda>(r, innerErr). (r, Some ErrUnknown))) (\<lambda>_. ret True)
      | Some val \<Rightarrow> bindA (modify (\<lambda>(r, innerErr). (add (ConvertSdkValidatorToWasm E val) r, innerErr)))
          (\<lambda>_. ret False))"

definition slashValidator :: "('s, 'x) sdk \<Rightarrow> ('s, 'x) chain \<Rightarrow> address \<Rightarrow> slash_info \<Rightarrow> validator_slash" where
  "slashValidator E ctx valAddr si =
     \<lparr>vs_ValidatorAddr = ValAddress_String E valAddr,
      vs_Height = height ctx,
      vs_Time = blockTime ctx,
      vs_InfractionHeight = InfractionHeight si,
      vs_InfractionTime = 0,
      vs_Power = Power si,
      vs_SlashAmount = TotalSlashAmount si,
      vs_SlashRatio = SlashFraction si\<rparr>"

definition reportOperation :: "('s, 'x) sdk \<Rightarrow> ('s, 'x) chain \<Rightarrow> address \<Rightarrow> valset_op \<Rightarrow> slash_info option \<Rightarrow>
    (valset_update \<times> error option, bool) act" where
  "reportOperation E ctx valAddr op slashInfo = (
     let append = (\<lambda>f. bindA (modify (\<lambda>(r, innerErr). (f r, innerErr))) (\<lambda>_. ret False));
         addr = ValAddress_String E valAddr
     in
     if op = ValidatorBonded then
       appendValidator E ctx (\<lambda>v r. r\<lparr>Additions := Additions r @ [v]\<rparr>) valAddr
     else if op = ValidatorUnbonded then append (\<lambda>r. r\<lparr>Removals := Removals r @ [addr]\<rparr>)
     else if op = ValidatorJailed then append (\<lambda>r. r\<lparr>Jailed := Jailed r @ [addr]\<rparr>)
     else if op = ValidatorTombstoned then append (\<lambda>r. r\<lparr>Tombstoned := Tombstoned r @ [addr]\<rparr>)
     else if op = ValidatorUnjailed then append (\<lambda>r. r\<lparr>Unjailed := Unjailed r @ [addr]\<rparr>)
     else if op = ValidatorModified then
       appendValidator E ctx (\<lambda>v r. r\<lparr>Updated := Updated r @ [v]\<rparr>) valAddr
     else if op = ValidatorSlashed then
       (case slashInfo of
          None \<Rightarrow> panic
        | Some si \<Rightarrow> append (\<lambda>r. r\<lparr>Slashed := Slashed r @ [slashValidator E ctx valAddr si]\<rparr>))
     else bindA (modify (\<lambda>(r, innerErr). (r, Some ErrInvalid))) (\<lambda>_. ret True))"

definition ValsetUpdateReport :: "('s, 'x) sdk \<Rightarrow> ('s, 'x) chain \<Rightarrow> valset_update result" where
  "ValsetUpdateReport E ctx =
     (case iteratePipedValsetOperations E ctx (reportOperation E ctx) (emptyReport, None) of
        (Ok _, (r, innerErr)) \<Rightarrow> (case innerErr of None \<Rightarrow> Ok r | Some e \<Rightarrow> Err e)
      | (Err e, _) \<Rightarrow> Err e
      | (Panic, _) \<Rightarrow> Panic)"

definition ClearPipedValsetOperations :: "('s, 'x) sdk \<Rightarrow> (('s, 'x) chain, unit) act" where
  "ClearPipedValsetOperations E = withState (\<lambda>ctx.
     let keys = map fst (kv_PrefixIterator E (mem ctx) PipedValsetPrefix) in
     modify (\<lambda>s. s\<lparr>mem := fold (\<lambda>k m. kv_Delete E m (PipedValsetPrefix @ k)) keys (mem s)\<rparr>))"

end
