(* ===== verification/ValsetFacts.thy ===== *)
theory ValsetFacts
  imports Valset
begin

text \<open>
  The lemmas on validator set changes: packing and unpacking a change, the report as a
  function of the stored changes, what storing a change does to the chain, and clearing.
\<close>

section \<open>Unpacking inverts packing\<close>

text \<open>
  The operations the code stores. \<open>shortOp\<close> is when no index byte wraps: the address
  and, for a slash, the total slash amount fit in the bytes left.
\<close>

definition shortOp :: "valset_op \<Rightarrow> address \<Rightarrow> slash_info option \<Rightarrow> bool" where
  "shortOp op val slashInfo \<longleftrightarrow> length val \<le> 254 \<and>
     (op = ValidatorSlashed \<longrightarrow> (case slashInfo of None \<Rightarrow> False | Some si \<Rightarrow>
        length val + 19 + length (TotalSlashAmount si) \<le> 255 \<and>
        (TotalSlashAmount si \<noteq> [] \<or> SlashFraction si \<noteq> [])))"

definition swapHeights :: "slash_info \<Rightarrow> slash_info" where
  "swapHeights si = si\<lparr>InfractionHeight := Power si, Power := InfractionHeight si\<rparr>"

lemma swapHeights_twice [simp]: "swapHeights (swapHeights si) = si"
  by (simp add: swapHeights_def)

text \<open>Byte arithmetic that stays below 256.\<close>

lemma unat_byte_add:
  "n + m \<le> 255 \<Longrightarrow> unat (of_nat n + of_nat m :: byte) = n + m"
  by (simp add: unat_of_nat flip: of_nat_add)

lemma unat_byte_sums:
  assumes "n \<le> 236"
  shows "unat (of_nat n + 2 :: byte) = n + 2" "unat (of_nat n + 2 + 8 :: byte) = n + 10"
    "unat (of_nat n + 2 + 8 + 8 :: byte) = n + 18" "unat (of_nat n + 2 + 8 + 8 + 1 :: byte) = n + 19"
  using assms unat_byte_add [of n 2] unat_byte_add [of n 10] unat_byte_add [of n 18]
    unat_byte_add [of n 19] by (simp_all add: add.assoc)

lemma unat_byte_end:
  assumes "n + 19 + m \<le> 255"
  shows "unat (of_nat n + 2 + 8 + 8 + 1 + of_nat m :: byte) = n + 19 + m"
  using assms unat_byte_add [of n "19 + m"] by (simp add: add.assoc)

text \<open>The fields of a packed slash, at the offsets the code reads them from.\<close>

lemma slash_fields:
  fixes b op :: byte and val :: address and si :: slash_info
  defines "key \<equiv> b # val @ op # slashBytes si"
  defines "an \<equiv> length val" and "tn \<equiv> length (TotalSlashAmount si)"
  shows "go_index key (an + 18) = Ok (of_nat tn)"
    and "go_slice key (an + 2) (an + 10) = Ok (Uint64ToBigEndian (InfractionHeight si))"
    and "go_slice key (an + 10) (an + 18) = Ok (Uint64ToBigEndian (Power si))"
    and "go_slice key (an + 19) (an + 19 + tn) = Ok (bytes_of_string (TotalSlashAmount si))"
    and "go_slice key (an + 19 + tn) (length key) = Ok (bytes_of_string (SlashFraction si))"
    and "length key = an + 19 + tn + length (SlashFraction si)"
proof -
  let ?h = "Uint64ToBigEndian (InfractionHeight si)" and ?p = "Uint64ToBigEndian (Power si)"
  let ?t = "bytes_of_string (TotalSlashAmount si)" and ?f = "bytes_of_string (SlashFraction si)"
  show "length key = an + 19 + tn + length (SlashFraction si)"
    by (simp add: key_def slashBytes_def an_def tn_def)
  show "go_index key (an + 18) = Ok (of_nat tn)"
    by (simp add: go_index_def key_def slashBytes_def an_def tn_def nth_append numeral_eq_Suc)
  have "go_slice ((b # val @ [op]) @ ?h @ (?p @ of_nat tn # ?t @ ?f)) (an + 2) (an + 10) = Ok ?h"
    by (rule go_slice_append) (simp_all add: an_def)
  then show "go_slice key (an + 2) (an + 10) = Ok ?h"
    by (simp add: key_def slashBytes_def tn_def)
  have "go_slice ((b # val @ op # ?h) @ ?p @ (of_nat tn # ?t @ ?f)) (an + 10) (an + 18) = Ok ?p"
    by (rule go_slice_append) (simp_all add: an_def)
  then show "go_slice key (an + 10) (an + 18) = Ok ?p"
    by (simp add: key_def slashBytes_def tn_def)
  have "go_slice ((b # val @ op # ?h @ ?p @ [of_nat tn]) @ ?t @ ?f) (an + 19) (an + 19 + tn) = Ok ?t"
    by (rule go_slice_append) (simp_all add: an_def tn_def)
  then show "go_slice key (an + 19) (an + 19 + tn) = Ok ?t"
    by (simp add: key_def slashBytes_def tn_def)
  have "go_slice ((b # val @ op # ?h @ ?p @ of_nat tn # ?t) @ ?f @ []) (an + 19 + tn)
      (an + 19 + tn + length ?f) = Ok ?f"
    by (rule go_slice_append) (simp_all add: an_def tn_def)
  then show "go_slice key (an + 19 + tn) (length key) = Ok ?f"
    by (simp add: key_def slashBytes_def tn_def an_def ac_simps)
qed

lemma opKey_head:
  fixes val :: address and op :: byte and slashInfo :: "slash_info option"
  assumes "length val \<le> 254"
  defines "key \<equiv> opKeyBytes op val slashInfo"
  shows "go_index key 0 = Ok (of_nat (length val))"
    and "go_slice key 1 (unat (of_nat (length val) + 1 :: byte)) = Ok val"
    and "go_index key (unat (of_nat (length val) + 1 :: byte)) = Ok op"
proof -
  have u: "unat (of_nat (length val) + 1 :: byte) = length val + 1"
    using assms(1) unat_byte_add [of "length val" 1] by simp
  obtain r where r: "key = of_nat (length val) # val @ op # r"
    by (simp add: key_def opKeyBytes_def)
  show "go_index key 0 = Ok (of_nat (length val))" "go_index key (unat (of_nat (length val) + 1 :: byte)) = Ok op"
    by (simp_all add: go_index_def r u)
  have "go_slice ([of_nat (length val)] @ val @ (op # r)) 1 (length val + 1) = Ok val"
    by (rule go_slice_append) simp_all
  then show "go_slice key 1 (unat (of_nat (length val) + 1 :: byte)) = Ok val"
    by (simp add: r u)
qed

lemma decodeOpKey_opKeyBytes:
  assumes "shortOp op val slashInfo"
  shows "decodeOpKey (opKeyBytes op val slashInfo) =
    Ok (val, op, if op = ValidatorSlashed then map_option swapHeights slashInfo else None)"
proof -
  have "length val \<le> 254"
    using assms by (simp add: shortOp_def)
  note head = opKey_head [OF this, of op slashInfo]
  show ?thesis
  proof (cases "op = ValidatorSlashed")
    case False
    with head show ?thesis by (simp add: decodeOpKey_def)
  next
    case True
    then obtain si where si: "slashInfo = Some si"
      and short: "length val + 19 + length (TotalSlashAmount si) \<le> 255"
      and nonempty: "TotalSlashAmount si \<noteq> [] \<or> SlashFraction si \<noteq> []"
      using assms by (auto simp: shortOp_def split: option.splits)
    let ?key = "of_nat (length val) # val @ op # slashBytes si"
    have key: "opKeyBytes ValidatorSlashed val (Some si) = of_nat (length val) # val @ ValidatorSlashed # slashBytes si"
      by (simp add: opKeyBytes_def)
    have an: "length val \<le> 236"
      using short by simp
    then have "unat (of_nat (length val) :: byte) = length val"
      by (simp add: unat_of_nat)
    moreover have "0 < length (TotalSlashAmount si) + length (SlashFraction si)"
      using nonempty by auto
    ultimately have "decodeSlashInfo ?key (of_nat (length val)) = Ok (swapHeights si)"
      using slash_fields [of "of_nat (length val)" val op si]
      by (simp add: decodeSlashInfo_def unat_byte_sums [OF an, simplified]
          unat_byte_end [OF short, simplified] swapHeights_def not_le)
    with head show ?thesis
      by (simp add: decodeOpKey_def key True si)
  qed
qed

text \<open>What wraps: an address of 255 bytes, and a slash amount too long for the bytes left.\<close>

lemma decodeOpKey_wrap_address:
  assumes "length val = 255"
  shows "decodeOpKey (opKeyBytes op val slashInfo) = Panic"
proof -
  have "(of_nat 255 :: byte) + 1 = 0"
    by simp
  with assms show ?thesis
    by (simp add: decodeOpKey_def opKeyBytes_def go_index_def go_slice_def)
qed

lemma decodeOpKey_wrap_amount:
  assumes "length val \<le> 236" and "length (TotalSlashAmount si) \<le> 255"
    and "255 < length val + 19 + length (TotalSlashAmount si)"
  shows "decodeOpKey (opKeyBytes ValidatorSlashed val (Some si)) = Panic"
proof -
  let ?an = "length val" and ?tn = "length (TotalSlashAmount si)"
  let ?key = "of_nat ?an # val @ ValidatorSlashed # slashBytes si"
  note head = opKey_head [of val ValidatorSlashed "Some si"]
  have wrap: "unat (of_nat ?an + 2 + 8 + 8 + 1 + of_nat ?tn :: byte) = ?an + 19 + ?tn - 256"
  proof -
    have "(of_nat ?an + 2 + 8 + 8 + 1 + of_nat ?tn :: byte) = of_nat (?an + 19 + ?tn)"
      by simp
    also have "unat \<dots> = (?an + 19 + ?tn) mod 256"
      by (simp only: unat_of_nat) simp
    also have "\<dots> = ?an + 19 + ?tn - 256"
      using assms by (simp add: mod_if)
    finally show ?thesis .
  qed
  have "unat (of_nat ?an :: byte) = ?an" "TotalSlashAmount si \<noteq> []"
    using assms by (auto simp: unat_of_nat)
  moreover have "?an + ?tn - 237 < ?an + 19"
    using assms by arith
  ultimately have "decodeSlashInfo ?key (of_nat ?an) = Panic"
    using slash_fields [of "of_nat ?an" val ValidatorSlashed si] assms
    by (simp add: decodeSlashInfo_def unat_byte_sums [simplified] wrap [simplified] go_slice_def not_le)
  then show ?thesis
    using head assms(1) by (simp add: decodeOpKey_def opKeyBytes_def)
qed

text \<open>What becomes of a packed slash, for addresses and amounts whose own lengths are in range.\<close>

lemma decodeOpKey_slash:
  assumes "length val \<le> 236" and "length (TotalSlashAmount si) \<le> 255"
  shows "decodeOpKey (opKeyBytes ValidatorSlashed val (Some si)) =
    (if 255 < length val + 19 + length (TotalSlashAmount si) then Panic
     else if TotalSlashAmount si = [] \<and> SlashFraction si = [] then Err ErrInvalid
     else Ok (val, ValidatorSlashed, Some (swapHeights si)))"
proof (cases "255 < length val + 19 + length (TotalSlashAmount si)")
  case True
  then show ?thesis using decodeOpKey_wrap_amount [OF assms] by simp
next
  case short: False
  show ?thesis
  proof (cases "TotalSlashAmount si = [] \<and> SlashFraction si = []")
    case False
    with short assms have "shortOp ValidatorSlashed val (Some si)"
      by (auto simp: shortOp_def)
    with short False show ?thesis
      by (auto simp: decodeOpKey_opKeyBytes)
  next
    case True
    let ?key = "of_nat (length val) # val @ ValidatorSlashed # slashBytes si"
    have "unat (of_nat (length val) :: byte) = length val"
      using assms(1) by (simp add: unat_of_nat)
    then have "decodeSlashInfo ?key (of_nat (length val)) = Err ErrInvalid"
      using slash_fields(6) [of "of_nat (length val)" val ValidatorSlashed si] True
      by (simp add: decodeSlashInfo_def)
    then show ?thesis
      using short True opKey_head [of val ValidatorSlashed "Some si"] assms(1)
      by (simp add: decodeOpKey_def opKeyBytes_def)
  qed
qed

section \<open>The stored changes\<close>

text \<open>
  The memory store is well formed when every key under its prefix packs one of the seven
  operations, short enough to unpack. \<open>pipedOps\<close> unpacks them in iteration order.
\<close>

type_synonym piped_op = "address \<times> valset_op \<times> slash_info option"

definition knownOps :: "valset_op set" where
  "knownOps = {ValidatorBonded, ValidatorUnbonded, ValidatorJailed, ValidatorTombstoned,
     ValidatorUnjailed, ValidatorModified, ValidatorSlashed}"

definition goodOp :: "valset_op \<Rightarrow> address \<Rightarrow> slash_info option \<Rightarrow> bool" where
  "goodOp op val slashInfo \<longleftrightarrow> op \<in> knownOps \<and> shortOp op val slashInfo"

definition wfOps :: "('s, 'x) sdk \<Rightarrow> ('s, 'x) chain \<Rightarrow> bool" where
  "wfOps E s \<longleftrightarrow> (\<forall>k v. kv_Get E (mem s) (PipedValsetPrefix @ k) = Some v \<longrightarrow>
     (\<exists>op val slashInfo. k = opKeyBytes op val slashInfo \<and> goodOp op val slashInfo))"

definition unpackedOp :: "bytes \<Rightarrow> piped_op" where
  "unpackedOp k = (case decodeOpKey k of Ok x \<Rightarrow> x | _ \<Rightarrow> ([], ValsetOperationUndefined, None))"

definition pipedOps :: "('s, 'x) sdk \<Rightarrow> ('s, 'x) chain \<Rightarrow> piped_op list" where
  "pipedOps E s = map (\<lambda>(k, v). unpackedOp k) (kv_PrefixIterator E (mem s) PipedValsetPrefix)"

text \<open>What an operation with its details unpacks to.\<close>

definition reportedOp :: "valset_op \<Rightarrow> address \<Rightarrow> slash_info option \<Rightarrow> piped_op" where
  "reportedOp op val slashInfo =
     (val, op, if op = ValidatorSlashed then map_option swapHeights slashInfo else None)"

lemma unpackedOp_opKeyBytes:
  "goodOp op val slashInfo \<Longrightarrow> unpackedOp (opKeyBytes op val slashInfo) = reportedOp op val slashInfo"
  by (simp add: unpackedOp_def goodOp_def decodeOpKey_opKeyBytes reportedOp_def)

lemma goodOp_decode:
  "goodOp op val slashInfo \<Longrightarrow>
     decodeOpKey (opKeyBytes op val slashInfo) = Ok (reportedOp op val slashInfo)"
  by (simp add: goodOp_def decodeOpKey_opKeyBytes reportedOp_def)

lemma goodOp_short: "goodOp op val slashInfo \<Longrightarrow> length val \<le> 254"
  by (simp add: goodOp_def shortOp_def)

lemma goodOp_defined:
  "goodOp op val slashInfo \<Longrightarrow> op \<noteq> ValsetOperationUndefined \<and>
     (op = ValidatorSlashed \<longrightarrow> slashInfo \<noteq> None)"
  by (auto simp: goodOp_def knownOps_def shortOp_def valset_op_defs split: option.splits)

context mesh_store
begin

lemma pipedOps_iff:
  assumes "wfOps E s"
  shows "x \<in> set (pipedOps E s) \<longleftrightarrow>
    (\<exists>op val si. x = reportedOp op val si \<and> goodOp op val si \<and>
      kv_Get E (mem s) (PipedValsetPrefix @ opKeyBytes op val si) \<noteq> None)"
proof
  assume "x \<in> set (pipedOps E s)"
  then obtain k v where k: "kv_Get E (mem s) (PipedValsetPrefix @ k) = Some v" "x = unpackedOp k"
    by (auto simp: pipedOps_def iter_iff)
  with assms obtain op val si where "k = opKeyBytes op val si" "goodOp op val si"
    by (auto simp: wfOps_def)
  with k show "\<exists>op val si. x = reportedOp op val si \<and> goodOp op val si \<and>
      kv_Get E (mem s) (PipedValsetPrefix @ opKeyBytes op val si) \<noteq> None"
    by (auto simp: unpackedOp_opKeyBytes)
next
  assume "\<exists>op val si. x = reportedOp op val si \<and> goodOp op val si \<and>
      kv_Get E (mem s) (PipedValsetPrefix @ opKeyBytes op val si) \<noteq> None"
  then obtain op val si v where "x = reportedOp op val si" "goodOp op val si"
    "(opKeyBytes op val si, v) \<in> set (kv_PrefixIterator E (mem s) PipedValsetPrefix)"
    by (auto simp: iter_iff)
  then have "x = unpackedOp (opKeyBytes op val si)"
    "(opKeyBytes op val si, v) \<in> set (kv_PrefixIterator E (mem s) PipedValsetPrefix)"
    by (simp_all add: unpackedOp_opKeyBytes)
  then show "x \<in> set (pipedOps E s)"
    by (force simp: pipedOps_def)
qed

end

section \<open>The report\<close>

text \<open>The report as a function of the stored changes, list by list.\<close>

definition opsOf :: "valset_op \<Rightarrow> piped_op list \<Rightarrow> piped_op list" where
  "opsOf op ops = filter (\<lambda>x. fst (snd x) = op) ops"

definition addrsOf :: "('s, 'x) sdk \<Rightarrow> valset_op \<Rightarrow> piped_op list \<Rightarrow> string list" where
  "addrsOf E op ops = map (\<lambda>x. ValAddress_String E (fst x)) (opsOf op ops)"

definition valsOf :: "('s, 'x) sdk \<Rightarrow> ('s, 'x) chain \<Rightarrow> valset_op \<Rightarrow> piped_op list \<Rightarrow> wasm_validator list" where
  "valsOf E s op ops =
     map (\<lambda>x. ConvertSdkValidatorToWasm E (the (staking_GetValidator E (ext s) (fst x)))) (opsOf op ops)"

definition reportOf :: "('s, 'x) sdk \<Rightarrow> ('s, 'x) chain \<Rightarrow> piped_op list \<Rightarrow> valset_update" where
  "reportOf E s ops =
     \<lparr>Additions = valsOf E s ValidatorBonded ops,
      Removals = addrsOf E ValidatorUnbonded ops,
      Updated = valsOf E s ValidatorModified ops,
      Jailed = addrsOf E ValidatorJailed ops,
      Unjailed = addrsOf E ValidatorUnjailed ops,
      Tombstoned = addrsOf E ValidatorTombstoned ops,
      Slashed = map (\<lambda>x. slashValidator E s (fst x) (the (snd (snd x)))) (opsOf ValidatorSlashed ops)\<rparr>"

definition joinReports :: "valset_update \<Rightarrow> valset_update \<Rightarrow> valset_update" where
  "joinReports r r' =
     \<lparr>Additions = Additions r @ Additions r', Removals = Removals r @ Removals r',
      Updated = Updated r @ Updated r', Jailed = Jailed r @ Jailed r',
      Unjailed = Unjailed r @ Unjailed r', Tombstoned = Tombstoned r @ Tombstoned r',
      Slashed = Slashed r @ Slashed r'\<rparr>"

text \<open>A stored change that needs a validator record finds it.\<close>

definition validatorKnown :: "('s, 'x) sdk \<Rightarrow> ('s, 'x) chain \<Rightarrow> piped_op \<Rightarrow> bool" where
  "validatorKnown E s x \<longleftrightarrow>
     (fst (snd x) \<in> {ValidatorBonded, ValidatorModified} \<longrightarrow> staking_GetValidator E (ext s) (fst x) \<noteq> None)"

lemma opsOf_append: "opsOf op (xs @ ys) = opsOf op xs @ opsOf op ys"
  by (simp add: opsOf_def)

lemma opsOf_Nil [simp]: "opsOf op [] = []"
  by (simp add: opsOf_def)

lemma opsOf_single: "opsOf op [x] = (if fst (snd x) = op then [x] else [])"
  by (simp add: opsOf_def)

lemma reportOf_Nil [simp]: "reportOf E s [] = emptyReport"
  by (simp add: reportOf_def emptyReport_def valsOf_def addrsOf_def)

lemma reportOf_append: "reportOf E s (xs @ ys) = joinReports (reportOf E s xs) (reportOf E s ys)"
  by (simp add: reportOf_def joinReports_def valsOf_def addrsOf_def opsOf_append)

lemma reportOf_Cons: "reportOf E s (x # ops) = joinReports (reportOf E s [x]) (reportOf E s ops)"
  using reportOf_append [of E s "[x]" ops] by simp

lemma joinReports_assoc: "joinReports (joinReports a b) c = joinReports a (joinReports b c)"
  by (simp add: joinReports_def)

lemma joinReports_empty [simp]: "joinReports r emptyReport = r" "joinReports emptyReport r = r"
  by (simp_all add: joinReports_def emptyReport_def)

lemma reportOperation_good:
  assumes "goodOp op val si"
  shows "reportOperation E s (fst (reportedOp op val si)) (fst (snd (reportedOp op val si)))
      (snd (snd (reportedOp op val si))) (r, None) =
    (if validatorKnown E s (reportedOp op val si)
     then (Ok False, (joinReports r (reportOf E s [reportedOp op val si]), None))
     else (Ok True, (r, Some ErrUnknown)))"
proof -
  have op: "op = ValidatorBonded \<or> op = ValidatorUnbonded \<or> op = ValidatorJailed \<or>
      op = ValidatorTombstoned \<or> op = ValidatorUnjailed \<or> op = ValidatorModified \<or>
      op = ValidatorSlashed \<and> (\<exists>i. si = Some i)"
    using assms goodOp_defined [OF assms] by (auto simp: goodOp_def knownOps_def)
  have single: "reportOf E s [x] =
      \<lparr>Additions = (if fst (snd x) = ValidatorBonded then
         [ConvertSdkValidatorToWasm E (the (staking_GetValidator E (ext s) (fst x)))] else []),
       Removals = (if fst (snd x) = ValidatorUnbonded then [ValAddress_String E (fst x)] else []),
       Updated = (if fst (snd x) = ValidatorModified then
         [ConvertSdkValidatorToWasm E (the (staking_GetValidator E (ext s) (fst x)))] else []),
       Jailed = (if fst (snd x) = ValidatorJailed then [ValAddress_String E (fst x)] else []),
       Unjailed = (if fst (snd x) = ValidatorUnjailed then [ValAddress_String E (fst x)] else []),
       Tombstoned = (if fst (snd x) = ValidatorTombstoned then [ValAddress_String E (fst x)] else []),
       Slashed = (if fst (snd x) = ValidatorSlashed then
         [slashValidator E s (fst x) (the (snd (snd x)))] else [])\<rparr>" for x
    unfolding reportOf_def valsOf_def addrsOf_def opsOf_single if_distrib [of "map f" for f] list.map
    by (rule refl)
  note defs = Let_def appendValidator_def act_simps bindA_def validatorKnown_def joinReports_def
  show ?thesis
    unfolding single
    using op by (elim disjE conjE exE)
      (simp_all add: reportedOp_def reportOperation_def defs valset_op_defs split: option.split)
qed

lemma iterOps_report:
  assumes "\<forall>e \<in> set es. \<exists>op val si. fst e = opKeyBytes op val si \<and> goodOp op val si"
  defines "ops \<equiv> map (\<lambda>(k, v). unpackedOp k) es"
  shows "if \<forall>x \<in> set ops. validatorKnown E s x
    then iterOps es (reportOperation E s) (r, None) = (Ok (), (joinReports r (reportOf E s ops), None))
    else \<exists>r'. iterOps es (reportOperation E s) (r, None) = (Ok (), (r', Some ErrUnknown))"
  using assms(1) unfolding ops_def
proof (induction es arbitrary: r)
  case Nil
  then show ?case by (simp add: act_simps)
next
  case (Cons e es)
  obtain k v where e: "e = (k, v)" by (cases e)
  with Cons.prems obtain op val si where k: "k = opKeyBytes op val si" and good: "goodOp op val si"
    by auto
  let ?x = "reportedOp op val si"
  let ?ops = "map (\<lambda>(k, v). unpackedOp k) es"
  have x: "unpackedOp k = ?x"
    by (simp add: k unpackedOp_opKeyBytes [OF good])
  have run: "iterOps (e # es) (reportOperation E s) (r, None) =
      (if validatorKnown E s ?x
       then iterOps es (reportOperation E s) (joinReports r (reportOf E s [?x]), None)
       else (Ok (), (r, Some ErrUnknown)))"
    using reportOperation_good [OF good, of E s r]
    by (simp add: e k goodOp_decode [OF good] act_simps bindA_def case_prod_beta)
  have all: "(\<forall>y \<in> set (map (\<lambda>(k, v). unpackedOp k) (e # es)). validatorKnown E s y) \<longleftrightarrow>
      validatorKnown E s ?x \<and> (\<forall>y \<in> set ?ops. validatorKnown E s y)"
    by (simp add: e x)
  have whole: "reportOf E s (map (\<lambda>(k, v). unpackedOp k) (e # es)) =
      joinReports (reportOf E s [?x]) (reportOf E s ?ops)"
    using reportOf_Cons [of E s ?x ?ops] by (simp add: e x)
  have "\<forall>e \<in> set es. \<exists>op val si. fst e = opKeyBytes op val si \<and> goodOp op val si"
    using Cons.prems by auto
  from Cons.IH [OF this, of "joinReports r (reportOf E s [?x])"] show ?case
    unfolding run all whole by (auto simp: joinReports_assoc)
qed

context mesh_store
begin

lemma ValsetUpdateReport_eq:
  assumes "wfOps E s"
  shows "ValsetUpdateReport E s =
    (if \<forall>x \<in> set (pipedOps E s). validatorKnown E s x then Ok (reportOf E s (pipedOps E s))
     else Err ErrUnknown)"
proof -
  let ?it = "kv_PrefixIterator E (mem s) PipedValsetPrefix"
  have "\<forall>e \<in> set ?it. \<exists>op val si. fst e = opKeyBytes op val si \<and> goodOp op val si"
    using assms by (auto simp: iter_iff wfOps_def)
  from iterOps_report [OF this, where r = emptyReport and E = E and s = s]
  show ?thesis
    unfolding ValsetUpdateReport_def iteratePipedValsetOperations_def pipedOps_def
    by (auto split: if_splits simp del: set_map)
qed

end

section \<open>Storing a change\<close>

text \<open>What storing a change does to the chain: one key in memory, update tasks, events.\<close>

locale mesh_keeper = keeper E valid_denom + sdk_addresses E
  for E :: "('s, 'x) sdk" and valid_denom :: "string \<Rightarrow> bool"
begin

lemma iterCaps_schedule:
  assumes "\<forall>(k, v) \<in> set es. Int_Unmarshal E v = Ok (f k)"
  shows "\<exists>t. iterCaps E es (scheduleValsetUpdate E) (None, s) = (Ok (), (None, t))
    \<and> tasksOnly E s t \<and> (wfTasks E s \<longrightarrow> wfTasks E t)
    \<and> (\<forall>tp h c. taskAt E t tp h c =
        (if tp = SchedulerTaskValsetUpdate \<and> h = height s \<and> taskAt E s tp h c = None \<and>
            c \<in> fst ` set es \<and> 0 < f c
         then Some False else taskAt E s tp h c))"
  using assms
proof (induction es arbitrary: s)
  case Nil
  then show ?case by (simp add: act_simps)
next
  case (Cons e es)
  obtain k v where e: "e = (k, v)" by (cases e)
  with Cons.prems have v: "Int_Unmarshal E v = Ok (f k)" by simp
  have tp: "SchedulerTaskValsetUpdate \<noteq> SchedulerTaskUndefined"
    by (simp add: task_defs)
  show ?case
  proof (cases "0 < f k")
    case False
    obtain t where t: "iterCaps E es (scheduleValsetUpdate E) (None, s) = (Ok (), (None, t))"
      "tasksOnly E s t" "wfTasks E s \<longrightarrow> wfTasks E t"
      "\<forall>tp h c. taskAt E t tp h c =
        (if tp = SchedulerTaskValsetUpdate \<and> h = height s \<and> taskAt E s tp h c = None \<and>
            c \<in> fst ` set es \<and> 0 < f c
         then Some False else taskAt E s tp h c)"
      using Cons.IH [of s] Cons.prems by auto
    moreover have "iterCaps E (e # es) (scheduleValsetUpdate E) (None, s) = (Ok (), (None, t))"
      using t(1) False by (simp add: e v act_simps scheduleValsetUpdate_def bindA_def)
    ultimately show ?thesis
      using False by (intro exI [of _ t]) (auto simp: e)
  next
    case True
    obtain s' where s': "ScheduleOneShotTask E SchedulerTaskValsetUpdate k (height s) s = (Ok (), s')"
      using tp by (cases "taskAt E s SchedulerTaskValsetUpdate (height s) k")
        (simp_all add: ScheduleOneShotTask_eq)
    note one = ScheduleOneShotTask_OkD [OF s']
    obtain t where t: "iterCaps E es (scheduleValsetUpdate E) (None, s') = (Ok (), (None, t))"
      "tasksOnly E s' t" "wfTasks E s' \<longrightarrow> wfTasks E t"
      "\<forall>tp h c. taskAt E t tp h c =
        (if tp = SchedulerTaskValsetUpdate \<and> h = height s' \<and> taskAt E s' tp h c = None \<and>
            c \<in> fst ` set es \<and> 0 < f c
         then Some False else taskAt E s' tp h c)"
      using Cons.IH [of s'] Cons.prems by auto
    have "height s' = height s"
      using one(3) by (simp add: tasksOnly_def)
    moreover have "iterCaps E (e # es) (scheduleValsetUpdate E) (None, s) = (Ok (), (None, t))"
      using t(1) True
      by (simp add: e v act_simps scheduleValsetUpdate_def bindA_def attempt_def s')
    ultimately show ?thesis
      using t(2-4) one(4,5) tasksOnly_trans [OF one(3) t(2)] True
      by (intro exI [of _ t]) (auto simp: e)
  qed
qed

definition storedOp :: "('s, 'x) chain \<Rightarrow> valset_op \<Rightarrow> address \<Rightarrow> slash_info option \<Rightarrow> ('s, 'x) chain" where
  "storedOp s op val si =
     s\<lparr>mem := kv_Set E (mem s) (PipedValsetPrefix @ opKeyBytes op val si) []\<rparr>"

lemma sendAsync_eq:
  assumes "goodOp op val si" and "wfAmounts E s"
  obtains t where "sendAsync E op val si s = (Ok (), t)" and "tasksOnly E (storedOp s op val si) t"
    and "wfTasks E s \<Longrightarrow> wfTasks E t"
    and "\<And>tp h c. taskAt E t tp h c =
      (if tp = SchedulerTaskValsetUpdate \<and> h = height s \<and> taskAt E s tp h c = None \<and>
          (\<exists>n. limitOf E s c = Some n \<and> 0 < n)
       then Some False else taskAt E s tp h c)"
proof -
  let ?s = "storedOp s op val si"
  let ?it = "kv_PrefixIterator E (store s) MaxCapLimitKeyPrefix"
  have key: "BuildPipedValsetOpKey E op val si = Ok (PipedValsetPrefix @ opKeyBytes op val si)"
    using goodOp_defined [OF assms(1)] goodOp_short [OF assms(1)]
    by (intro BuildPipedValsetOpKey_eq) auto
  have "\<forall>(k, v) \<in> set ?it. Int_Unmarshal E v = Ok (the (limitOf E s k))"
    using capIterator_amounts [OF assms(2)] by auto
  from iterCaps_schedule [OF this, of ?s] obtain t where
    t: "iterCaps E ?it (scheduleValsetUpdate E) (None, ?s) = (Ok (), (None, t))"
    "tasksOnly E ?s t" "wfTasks E ?s \<longrightarrow> wfTasks E t"
    "\<And>tp h c. taskAt E t tp h c =
        (if tp = SchedulerTaskValsetUpdate \<and> h = height ?s \<and> taskAt E ?s tp h c = None \<and>
            c \<in> fst ` set ?it \<and> 0 < the (limitOf E s c)
         then Some False else taskAt E ?s tp h c)"
    by blast
  have keys: "c \<in> fst ` set ?it \<longleftrightarrow> limitOf E s c \<noteq> None" for c
  proof -
    have "c \<in> fst ` set ?it \<longleftrightarrow> (\<exists>v. (c, v) \<in> set ?it)"
      by force
    then show ?thesis
      by (simp add: capEntry_iff amountAt_None_iff)
  qed
  have same: "taskAt E ?s = taskAt E s" "height ?s = height s" "store ?s = store s"
    "wfTasks E ?s = wfTasks E s"
    by (simp_all add: storedOp_def taskAt_def wfTasks_def fun_eq_iff)
  have run: "sendAsync E op val si s = (Ok (), t)"
    using t(1) same(3)
    by (simp add: sendAsync_def key act_simps bindA_def withLocal_def IterateMaxCapLimit_def
        storedOp_def [symmetric])
  show thesis
    by (rule that [OF run t(2)]) (use t(3,4) in \<open>auto simp: same keys\<close>)
qed

text \<open>The stored changes afterwards: one more.\<close>

lemma wfOps_storedOp:
  "wfOps E s \<Longrightarrow> goodOp op val si \<Longrightarrow> wfOps E (storedOp s op val si)"
  by (auto simp: wfOps_def storedOp_def get_set split: if_splits)

lemma pipedOps_storedOp:
  assumes "wfOps E s" and "goodOp op val si"
  shows "set (pipedOps E (storedOp s op val si)) = insert (reportedOp op val si) (set (pipedOps E s))"
proof (rule set_eqI)
  fix x
  have get: "kv_Get E (mem (storedOp s op val si)) (PipedValsetPrefix @ k) \<noteq> None \<longleftrightarrow>
      k = opKeyBytes op val si \<or> kv_Get E (mem s) (PipedValsetPrefix @ k) \<noteq> None" for k
    by (simp add: storedOp_def get_set)
  have "reportedOp op' val' si' = reportedOp op val si"
    if "goodOp op' val' si'" "opKeyBytes op' val' si' = opKeyBytes op val si" for op' val' si'
    using that unpackedOp_opKeyBytes assms(2) by metis
  then show "x \<in> set (pipedOps E (storedOp s op val si)) \<longleftrightarrow>
      x \<in> insert (reportedOp op val si) (set (pipedOps E s))"
    unfolding pipedOps_iff [OF assms(1)] pipedOps_iff [OF wfOps_storedOp [OF assms]] get insert_iff
    using assms(2) by blast
qed

lemma pipedOps_cong: "mem s = mem t \<Longrightarrow> pipedOps E s = pipedOps E t"
  by (simp add: pipedOps_def)

lemma wfOps_cong: "mem s = mem t \<Longrightarrow> wfOps E s = wfOps E t"
  by (simp add: wfOps_def)

lemma tasksOnly_mem: "tasksOnly E s t \<Longrightarrow> mem t = mem s"
  by (simp add: tasksOnly_def)

text \<open>Clearing removes every stored change and nothing else.\<close>

lemma fold_delete:
  "kv_Get E (fold (\<lambda>k m. kv_Delete E m (p @ k)) ks m) k' =
     (if \<exists>k \<in> set ks. k' = p @ k then None else kv_Get E m k')"
  by (induction ks arbitrary: m) (auto simp: get_del)

lemma ClearPipedValsetOperations_eq:
  obtains t where "ClearPipedValsetOperations E s = (Ok (), t)"
    and "pipedOps E t = []" and "wfOps E t"
    and "\<And>k. kv_Get E (mem t) k =
      (if \<exists>k'. k = PipedValsetPrefix @ k' then None else kv_Get E (mem s) k)"
    and "t = s\<lparr>mem := mem t\<rparr>"
proof -
  let ?it = "kv_PrefixIterator E (mem s) PipedValsetPrefix"
  let ?t = "s\<lparr>mem := fold (\<lambda>k m. kv_Delete E m (PipedValsetPrefix @ k)) (map fst ?it) (mem s)\<rparr>"
  have iter_mem: "k \<in> fst ` set ?it \<longleftrightarrow> kv_Get E (mem s) (PipedValsetPrefix @ k) \<noteq> None" for k
  proof -
    have "k \<in> fst ` set ?it \<longleftrightarrow> (\<exists>v. (k, v) \<in> set ?it)" by force
    then show ?thesis by (simp add: iter_iff)
  qed
  have get: "kv_Get E (mem ?t) k =
      (if \<exists>k'. k = PipedValsetPrefix @ k' then None else kv_Get E (mem s) k)" for k
  proof (cases "\<exists>k'. k = PipedValsetPrefix @ k'")
    case False
    then have "\<not> (\<exists>k' \<in> set (map fst ?it). k = PipedValsetPrefix @ k')" by blast
    with False show ?thesis by (simp only: fold_delete chain.select_convs chain.update_convs if_False)
      (simp add: fold_delete)
  next
    case True
    then obtain k' where k': "k = PipedValsetPrefix @ k'" by blast
    show ?thesis
    proof (cases "k' \<in> fst ` set ?it")
      case True
      then show ?thesis by (auto simp: fold_delete k')
    next
      case False
      then have "kv_Get E (mem s) (PipedValsetPrefix @ k') = None"
        by (simp add: iter_mem)
      then show ?thesis by (simp add: fold_delete k')
    qed
  qed
  have none: "kv_PrefixIterator E (mem ?t) PipedValsetPrefix = []"
  proof (rule ccontr)
    assume "kv_PrefixIterator E (mem ?t) PipedValsetPrefix \<noteq> []"
    then obtain k v where "(k, v) \<in> set (kv_PrefixIterator E (mem ?t) PipedValsetPrefix)"
      by (metis list.set_intros(1) neq_Nil_conv prod.collapse)
    then show False
      unfolding iter_iff using get [of "PipedValsetPrefix @ k"] by simp
  qed
  have run: "ClearPipedValsetOperations E s = (Ok (), ?t)"
    by (simp add: ClearPipedValsetOperations_def Let_def act_simps)
  show thesis
    by (rule that [OF run]) (use none get in \<open>simp_all add: pipedOps_def wfOps_def del: fold_simps\<close>)
qed

text \<open>A decorator stores the change of a validator it finds, whatever the wrapped keeper does next.\<close>

lemma propagate_stored:
  assumes "wfAmounts E s" and "validator_GetOperator E v = Ok val" and "goodOp op val si"
    and "\<And>a. a = val \<Longrightarrow> schedule a = sendAsync E op a si"
  obtains t where "propagate E (Some v) schedule s = (Ok (), t)"
    and "tasksOnly E (storedOp s op val si) t" and "wfTasks E s \<Longrightarrow> wfTasks E t"
    and "\<And>tp h c. taskAt E t tp h c =
      (if tp = SchedulerTaskValsetUpdate \<and> h = height s \<and> taskAt E s tp h c = None \<and>
          (\<exists>n. limitOf E s c = Some n \<and> 0 < n)
       then Some False else taskAt E s tp h c)"
proof -
  obtain t where t: "sendAsync E op val si s = (Ok (), t)" "tasksOnly E (storedOp s op val si) t"
    "wfTasks E s \<Longrightarrow> wfTasks E t"
    "\<And>tp h c. taskAt E t tp h c =
      (if tp = SchedulerTaskValsetUpdate \<and> h = height s \<and> taskAt E s tp h c = None \<and>
          (\<exists>n. limitOf E s c = Some n \<and> 0 < n)
       then Some False else taskAt E s tp h c)"
    by (rule sendAsync_eq [OF assms(3,1)]) (rule that; assumption)
  have "propagate E (Some v) schedule s = (Ok (), t)"
    by (simp add: propagate_def assms(2,4) act_simps bindA_def attempt_def t(1))
  then show thesis
    using that t(2-4) by blast
qed

lemma storedOp_simps [simp]:
  "store (storedOp s op val si) = store s" "ext (storedOp s op val si) = ext s"
  "height (storedOp s op val si) = height s" "blockTime (storedOp s op val si) = blockTime s"
  by (simp_all add: storedOp_def)

lemma wfAmounts_ext [simp]: "wfAmounts E (s\<lparr>ext := x\<rparr>) = wfAmounts E s"
  by (simp add: wfAmounts_def)

text \<open>
  A slash, end to end. The staking module passes the infraction height and the power, in this
  order; the decorator's parameters have the other order, and packing and unpacking exchange
  the two once more.
\<close>

lemma Slash_stored:
  assumes "wfAmounts E s" and "wfOps E s"
    and "staking_ValidatorByConsAddr E (ext s) consAddr = Some v"
    and "validator_GetOperator E v = Ok val"
    and "staking_Slash E consAddr infractionHeight pow ratio (ext s) = (Ok amt, x')"
    and "length val + 19 + length (Int_String E amt) \<le> 255" and "Int_String E amt \<noteq> []"
  obtains t where "SlashWithInfractionReason E consAddr infractionHeight pow ratio s = (Ok amt, t)"
    and "ext t = x'" and "wfOps E t" and "tasksOnly E (s\<lparr>ext := x', mem := mem t\<rparr>) t"
    and "set (pipedOps E t) = insert (val, ValidatorSlashed,
        Some \<lparr>InfractionHeight = infractionHeight, Power = pow,
              TotalSlashAmount = Int_String E amt, SlashFraction = Dec_String E ratio\<rparr>)
      (set (pipedOps E s))"
proof -
  let ?si = "\<lparr>InfractionHeight = pow, Power = infractionHeight,
    TotalSlashAmount = Int_String E amt, SlashFraction = Dec_String E ratio\<rparr>"
  let ?s = "s\<lparr>ext := x'\<rparr>"
  have good: "goodOp ValidatorSlashed val (Some ?si)"
    using assms(6,7) by (simp add: goodOp_def shortOp_def knownOps_def)
  have wf: "wfAmounts E ?s" "wfOps E ?s"
    using assms(1,2) by (simp_all add: wfOps_def)
  obtain t where t: "propagate E (Some v)
      (\<lambda>operator. ScheduleSlashed E operator infractionHeight pow amt ratio) ?s = (Ok (), t)"
    "tasksOnly E (storedOp ?s ValidatorSlashed val (Some ?si)) t"
    by (rule propagate_stored [OF wf(1) assms(4) good,
          where schedule = "\<lambda>operator. ScheduleSlashed E operator infractionHeight pow amt ratio"])
      (simp_all add: ScheduleSlashed_def that)
  have run: "SlashWithInfractionReason E consAddr infractionHeight pow ratio s = (Ok amt, t)"
    using t(1) by (simp add: SlashWithInfractionReason_def Slash_def act_simps Let_def bindA_def
        assms(3,5))
  have mem_t: "mem t = mem (storedOp ?s ValidatorSlashed val (Some ?si))"
    by (rule tasksOnly_mem [OF t(2)])
  have ops: "set (pipedOps E t) = insert (reportedOp ValidatorSlashed val (Some ?si)) (set (pipedOps E s))"
    using pipedOps_storedOp [OF wf(2) good] pipedOps_cong [OF mem_t] pipedOps_cong [of ?s s] by simp
  show thesis
  proof (rule that [OF run])
    show "ext t = x'" using t(2) by (simp add: tasksOnly_def)
    show "wfOps E t"
      using wfOps_cong [OF mem_t] wfOps_storedOp [OF wf(2) good] by simp
    show "tasksOnly E (s\<lparr>ext := x', mem := mem t\<rparr>) t"
      using t(2) by (simp add: tasksOnly_def)
  qed (simp add: ops reportedOp_def swapHeights_def)
qed

text \<open>Jailing, unjailing and tombstoning: the change is stored and the wrapped keeper called.\<close>

lemma Jail_stored:
  assumes "wfAmounts E s" and "wfOps E s"
    and "staking_ValidatorByConsAddr E (ext s) consAddr = Some v"
    and "validator_GetOperator E v = Ok val" and "length val \<le> 254"
  shows "ext (snd (Jail E consAddr s)) = snd (staking_Jail E consAddr (ext s))"
    and "set (pipedOps E (snd (Jail E consAddr s))) = insert (val, ValidatorJailed, None) (set (pipedOps E s))"
proof -
  have good: "goodOp ValidatorJailed val None"
    using assms(5) by (simp add: goodOp_def shortOp_def knownOps_def valset_op_defs)
  obtain t where t: "propagate E (Some v) (ScheduleJailed E) s = (Ok (), t)"
    "tasksOnly E (storedOp s ValidatorJailed val None) t"
    by (rule propagate_stored [OF assms(1,4) good, where schedule = "ScheduleJailed E"])
      (simp_all add: ScheduleJailed_def that)
  have run: "snd (Jail E consAddr s) = t\<lparr>ext := snd (staking_Jail E consAddr (ext t))\<rparr>"
    using t(1) by (simp add: Jail_def act_simps bindA_def assms(3))
  have "ext t = ext s" "mem t = mem (storedOp s ValidatorJailed val None)"
    using t(2) by (simp_all add: tasksOnly_def)
  then show "ext (snd (Jail E consAddr s)) = snd (staking_Jail E consAddr (ext s))"
    "set (pipedOps E (snd (Jail E consAddr s))) = insert (val, ValidatorJailed, None) (set (pipedOps E s))"
    using pipedOps_storedOp [OF assms(2) good]
      pipedOps_cong [of "t\<lparr>ext := x\<rparr>" "storedOp s ValidatorJailed val None" for x]
    by (simp_all add: run reportedOp_def valset_op_defs)
qed

end

end
