(* ===== verification/EndBlock.thy ===== *)
theory EndBlock
  imports ValsetFacts
begin

text \<open>
  The end of a block (\<open>abci.go\<close>, \<open>keeper/wasm.go\<close>): first the validator set update
  tasks, each with the block's report in which every slash is scaled to the contract's share,
  then the stored changes are cleared, then the epoch tasks. Results go to a response handler,
  which may panic. The lemmas show that with the default handler a block end always comes
  through, and give the tasks and changes it leaves.
\<close>

section \<open>Calls to the contracts\<close>

definition doSudoCall :: "('s, 'x) sdk \<Rightarrow> address \<Rightarrow> sudo_msg \<Rightarrow> (('s, 'x) chain, unit) act" where
  "doSudoCall E contractAddr msg =
     bindA (liftR (json_SudoMsg E msg)) (\<lambda>bz.
     bindA (wasm_Sudo E contractAddr bz) (\<lambda>_. ret ()))"

definition SendHandleEpoch :: "('s, 'x) sdk \<Rightarrow> address \<Rightarrow> (('s, 'x) chain, unit) act" where
  "SendHandleEpoch E contractAddr =
     doSudoCall E contractAddr \<lparr>sudo_HandleEpoch = True, sudo_ValsetUpdate = None\<rparr>"

definition SendValsetUpdate :: "('s, 'x) sdk \<Rightarrow> address \<Rightarrow> valset_update \<Rightarrow> (('s, 'x) chain, unit) act" where
  "SendValsetUpdate E contractAddr v =
     doSudoCall E contractAddr \<lparr>sudo_HandleEpoch = False, sudo_ValsetUpdate = Some v\<rparr>"

section \<open>Scaling a slash to the contract\<close>

definition delegatorSlashAmount ::
    "('s, 'x) sdk \<Rightarrow> ('s, 'x) chain \<Rightarrow> address \<Rightarrow> address \<Rightarrow> validator \<Rightarrow> int \<Rightarrow> dec result" where
  "delegatorSlashAmount E ctx contract valAddr validator totalSlashAmount = (
     let validatorShares = DelegatorShares validator in
     if validatorShares = 0 then Ok 0 else
     let delegatorShares =
       (case staking_GetDelegation E (ext ctx) contract valAddr of None \<Rightarrow> 0 | Some shares \<Rightarrow> shares) in
     bindR (Dec_Quo E delegatorShares validatorShares) (\<lambda>share.
     Dec_MulInt E share totalSlashAmount))"

definition scaleSlash ::
    "('s, 'x) sdk \<Rightarrow> ('s, 'x) chain \<Rightarrow> address \<Rightarrow> validator_slash \<Rightarrow> validator_slash result" where
  "scaleSlash E ctx contract slash =
     (case ValAddressFromBech32 E (vs_ValidatorAddr slash) of
        Err e \<Rightarrow> Err (ErrOther ''invalid validator address'')
      | Panic \<Rightarrow> Panic
      | Ok valAddr \<Rightarrow>
          (case Int_FromString E (vs_SlashAmount slash) of
             None \<Rightarrow> Err (ErrOther ''invalid slash amount'')
           | Some totalSlashAmount \<Rightarrow>
               (case staking_GetValidator E (ext ctx) valAddr of
                  None \<Rightarrow> Err (ErrOther ''validator not found'')
                | Some validator \<Rightarrow>
                    bindR (delegatorSlashAmount E ctx contract valAddr validator totalSlashAmount) (\<lambda>d.
                    bindR (Dec_RoundInt E d) (\<lambda>n.
                    Ok (slash\<lparr>vs_SlashAmount := Int_String E n\<rparr>))))))"

fun scaleSlashes :: "('s, 'x) sdk \<Rightarrow> ('s, 'x) chain \<Rightarrow> address \<Rightarrow> validator_slash list \<Rightarrow>
    validator_slash list result" where
  "scaleSlashes E ctx contract [] = Ok []"
| "scaleSlashes E ctx contract (slash # rest) =
     bindR (scaleSlash E ctx contract slash) (\<lambda>s.
     bindR (scaleSlashes E ctx contract rest) (\<lambda>ss. Ok (s # ss)))"

definition valsetUpdateTask :: "('s, 'x) sdk \<Rightarrow> address \<Rightarrow> (('s, 'x) chain, unit) act" where
  "valsetUpdateTask E contract = withState (\<lambda>ctx.
     bindA (liftR (ValsetUpdateReport E ctx)) (\<lambda>report.
     bindA (liftR (scaleSlashes E ctx contract (Slashed report))) (\<lambda>slashed.
     SendValsetUpdate E contract (report\<lparr>Slashed := slashed\<rparr>))))"

section \<open>The block end\<close>

type_synonym ('s, 'x) response_handler = "exec_result \<Rightarrow> (('s, 'x) chain, unit) act"

fun handleAll :: "('s, 'x) response_handler \<Rightarrow> exec_result list \<Rightarrow> (('s, 'x) chain, unit) act" where
  "handleAll h [] = ret ()"
| "handleAll h (r # rs) = bindA (h r) (\<lambda>_. handleAll h rs)"

definition rspHandler :: "('s, 'x) response_handler \<Rightarrow> (('s, 'x) chain, exec_result list) act \<Rightarrow>
    (('s, 'x) chain, unit) act" where
  "rspHandler h m =
     bindA (caught m) (\<lambda>r. case r of Ok results \<Rightarrow> handleAll h results | _ \<Rightarrow> panic)"

definition EndBlocker :: "('s, 'x) sdk \<Rightarrow> ('s, 'x) response_handler \<Rightarrow> (('s, 'x) chain, unit) act" where
  "EndBlocker E h = withState (\<lambda>ctx.
     bindA (liftR (GetRebalanceEpochLength E ctx)) (\<lambda>epochLength.
     bindA (rspHandler h
       (ExecScheduledTasks E SchedulerTaskValsetUpdate epochLength (valsetUpdateTask E))) (\<lambda>_.
     bindA (ClearPipedValsetOperations E) (\<lambda>_.
     rspHandler h
       (ExecScheduledTasks E SchedulerTaskHandleEpoch epochLength (SendHandleEpoch E))))))"

text \<open>The two response handlers; what they log is dropped.\<close>

definition DefaultExecutionResponseHandler :: "('s, 'x) response_handler" where
  "DefaultExecutionResponseHandler r =
     (if ExecErr r \<noteq> None then ret ()
      else if RescheduleErr r \<noteq> None then panic
      else if DeleteTaskErr r \<noteq> None then ret ()
      else ret ())"

definition PanicOnErrorExecutionResponseHandler :: "('s, 'x) response_handler" where
  "PanicOnErrorExecutionResponseHandler r =
     (if ExecErr r \<noteq> None then panic
      else if RescheduleErr r \<noteq> None then panic
      else if DeleteTaskErr r \<noteq> None then panic
      else ret ())"

section \<open>Lemmas on scaling\<close>

text \<open>
  Decimals: a share of a whole is between zero and one, and that share of an amount, rounded,
  is between zero and the amount. One is the decimal \<open>10 ^ 18\<close>.
\<close>

locale sdk_decimals =
  fixes E :: "('s, 'x) sdk"
  assumes Quo_share: "0 \<le> a \<Longrightarrow> a \<le> b \<Longrightarrow> 0 < b \<Longrightarrow> Dec_Quo E a b = Ok q \<Longrightarrow> 0 \<le> q \<and> q \<le> 10 ^ 18"
    and MulInt: "Dec_MulInt E q n = Ok d \<Longrightarrow> d = q * n"
    and RoundInt: "0 \<le> d \<Longrightarrow> d \<le> n * 10 ^ 18 \<Longrightarrow> Dec_RoundInt E d = Ok m \<Longrightarrow> 0 \<le> m \<and> m \<le> n"
begin

lemma scaleSlash_bound:
  assumes "scaleSlash E s contract slash = Ok slash'"
    and "Int_FromString E (vs_SlashAmount slash) = Some n" and "0 \<le> n"
    and "\<And>val v. ValAddressFromBech32 E (vs_ValidatorAddr slash) = Ok val \<Longrightarrow>
      staking_GetValidator E (ext s) val = Some v \<Longrightarrow>
      0 \<le> DelegatorShares v \<and> (\<forall>sh. staking_GetDelegation E (ext s) contract val = Some sh \<longrightarrow>
        0 \<le> sh \<and> sh \<le> DelegatorShares v)"
  obtains m where "slash' = slash\<lparr>vs_SlashAmount := Int_String E m\<rparr>" and "0 \<le> m" and "m \<le> n"
proof -
  obtain val v d m where v: "ValAddressFromBech32 E (vs_ValidatorAddr slash) = Ok val"
    "staking_GetValidator E (ext s) val = Some v"
    and d: "delegatorSlashAmount E s contract val v n = Ok d"
    and m: "Dec_RoundInt E d = Ok m" "slash' = slash\<lparr>vs_SlashAmount := Int_String E m\<rparr>"
    using assms(1,2) by (auto simp: scaleSlash_def ok_iffs split: result.splits option.splits)
  have "0 \<le> d \<and> d \<le> n * 10 ^ 18"
  proof (cases "DelegatorShares v = 0")
    case True
    then show ?thesis using d assms(3) by (simp add: delegatorSlashAmount_def)
  next
    case False
    let ?sh = "case staking_GetDelegation E (ext s) contract val of None \<Rightarrow> 0 | Some sh \<Rightarrow> sh"
    obtain q where q: "Dec_Quo E ?sh (DelegatorShares v) = Ok q" "Dec_MulInt E q n = Ok d"
      using d False by (auto simp: delegatorSlashAmount_def Let_def ok_iffs)
    have "0 \<le> ?sh" "?sh \<le> DelegatorShares v" "0 < DelegatorShares v"
      using assms(4) [OF v] False by (auto split: option.split)
    from Quo_share [OF this q(1)] have "0 \<le> q" "q \<le> 10 ^ 18" by simp_all
    then show ?thesis
      using MulInt [OF q(2)] assms(3) mult_right_mono [of q "10 ^ 18" n] by (simp add: mult.commute)
  qed
  with RoundInt m that show thesis by metis
qed

end

lemma scaleSlashes_length: "scaleSlashes E s c xs = Ok ys \<Longrightarrow> length ys = length xs"
  by (induction xs arbitrary: ys) (auto simp: ok_iffs)

text \<open>A contract without a delegation to the validator is told of a slash of zero.\<close>

lemma delegatorSlashAmount_none:
  assumes "staking_GetDelegation E (ext s) contract val = None"
    and "\<And>b. b \<noteq> 0 \<Longrightarrow> Dec_Quo E 0 b = Ok 0" and "Dec_MulInt E 0 n = Ok 0"
  shows "delegatorSlashAmount E s contract val v n = Ok 0"
  using assms by (simp add: delegatorSlashAmount_def Let_def)

section \<open>Lemmas on the block end\<close>

lemma handleAll_default:
  assumes "\<forall>r \<in> set rs. RescheduleErr r = None"
  shows "handleAll DefaultExecutionResponseHandler rs s = (Ok (), s)"
  using assms by (induction rs) (simp_all add: DefaultExecutionResponseHandler_def act_simps)

lemma handleAll_panic:
  assumes "\<forall>r \<in> set rs. RescheduleErr r = None \<and> DeleteTaskErr r = None"
  shows "handleAll PanicOnErrorExecutionResponseHandler rs s =
    ((if \<forall>r \<in> set rs. ExecErr r = None then Ok () else Panic), s)"
  using assms
  by (induction rs) (auto simp: PanicOnErrorExecutionResponseHandler_def act_simps bindA_def)

text \<open>The sudo calls of a wasm module that leaves the scheduler alone are good executors.\<close>

definition goodSudo :: "('s, 'x) sdk \<Rightarrow> bool" where
  "goodSudo E \<longleftrightarrow> (\<forall>c bz s. keepsTasks E s (snd (wasm_Sudo E c bz s)))"

lemma keepsTasks_refl [simp]: "keepsTasks E s s"
  by (simp add: keepsTasks_def)

lemma doSudoCall_state:
  "snd (doSudoCall E c m s) = s \<or> (\<exists>bz. snd (doSudoCall E c m s) = snd (wasm_Sudo E c bz s))"
proof (cases "json_SudoMsg E m")
  case (Ok bz)
  then have "snd (doSudoCall E c m s) = snd (wasm_Sudo E c bz s)"
    by (simp add: doSudoCall_def act_simps bindA_def split: prod.split result.split)
  then show ?thesis by blast
qed (simp_all add: doSudoCall_def act_simps)

lemma goodExecutor_epoch: "goodSudo E \<Longrightarrow> goodExecutor E (SendHandleEpoch E)"
  unfolding goodExecutor_def goodSudo_def SendHandleEpoch_def
  by (metis doSudoCall_state keepsTasks_refl)

lemma valsetUpdateTask_state:
  "snd (valsetUpdateTask E c s) = s \<or> (\<exists>bz. snd (valsetUpdateTask E c s) = snd (wasm_Sudo E c bz s))"
proof (cases "ValsetUpdateReport E s")
  case (Ok report)
  show ?thesis
  proof (cases "scaleSlashes E s c (Slashed report)")
    case Ok': (Ok slashed)
    have "snd (valsetUpdateTask E c s) = snd (doSudoCall E c
        \<lparr>sudo_HandleEpoch = False, sudo_ValsetUpdate = Some (report\<lparr>Slashed := slashed\<rparr>)\<rparr> s)"
      by (simp add: valsetUpdateTask_def SendValsetUpdate_def act_simps Ok Ok')
    then show ?thesis
      using doSudoCall_state [of E c _ s] by metis
  qed (simp_all add: valsetUpdateTask_def act_simps Ok)
qed (simp_all add: valsetUpdateTask_def act_simps)

lemma goodExecutor_valset: "goodSudo E \<Longrightarrow> goodExecutor E (valsetUpdateTask E)"
  unfolding goodExecutor_def goodSudo_def by (metis valsetUpdateTask_state keepsTasks_refl)

text \<open>A keeper with its gas meter.\<close>

locale block_end = mesh_keeper E valid_denom + task_runner E
  for E :: "('s, 'x) sdk" and valid_denom :: "string \<Rightarrow> bool"
begin

lemma EndBlocker_eq:
  assumes "goodSudo E" and "wfTasks E s"
    and "GetMaxSudoGas E s = Ok g" and "GetRebalanceEpochLength E s = Ok epoch"
    and "height s \<le> height s + epoch"
  obtains t where "EndBlocker E DefaultExecutionResponseHandler s = (Ok (), t)"
    and "height t = height s" and "blockTime t = blockTime s"
    and "GetParams E t = GetParams E s" and "wfTasks E t"
    and "\<And>tp h c. taskAt E t tp h c =
      (if tp = SchedulerTaskValsetUpdate \<or> tp = SchedulerTaskHandleEpoch then
        (if h \<le> height s then None
         else if epoch \<noteq> 0 \<and> h = height s + epoch \<and> (\<exists>h0 \<le> height s. taskAt E s tp h0 c = Some True)
         then Some True else taskAt E s tp h c)
       else taskAt E s tp h c)"
proof -
  let ?V = SchedulerTaskValsetUpdate and ?H = SchedulerTaskHandleEpoch
  have tps: "?V \<noteq> SchedulerTaskUndefined" "?H \<noteq> SchedulerTaskUndefined" "?V \<noteq> ?H"
    by (simp_all add: task_defs)
  obtain rs s1 where run1: "ExecScheduledTasks E ?V epoch (valsetUpdateTask E) s = (Ok rs, s1)"
    and rs: "\<forall>res \<in> set rs. RescheduleErr res = None \<and> DeleteTaskErr res = None \<and> GasLimit res = g"
    and s1: "height s1 = height s" "blockTime s1 = blockTime s"
      "GetParams E s1 = GetParams E s" "wfTasks E s1"
    and at1: "\<And>tp h c. taskAt E s1 tp h c =
      (if tp = ?V \<and> h \<le> height s then None
       else if tp = ?V \<and> epoch \<noteq> 0 \<and> h = height s + epoch \<and> (\<exists>h0 \<le> height s. taskAt E s ?V h0 c = Some True)
       then Some True else taskAt E s tp h c)"
    by (rule ExecScheduledTasks_eq [OF goodExecutor_valset [OF assms(1)] tps(1) assms(3,2,5)])
      (rule that; assumption)
  obtain s2 where run2: "ClearPipedValsetOperations E s1 = (Ok (), s2)"
    and s2: "s2 = s1\<lparr>mem := mem s2\<rparr>"
    by (rule ClearPipedValsetOperations_eq [of s1]) (rule that; assumption)
  have same: "height s2 = height s" "blockTime s2 = blockTime s" "store s2 = store s1"
    using arg_cong [OF s2, of height] arg_cong [OF s2, of blockTime] arg_cong [OF s2, of store] s1
    by simp_all
  then have s2': "GetParams E s2 = GetParams E s" "wfTasks E s2"
    "taskAt E s2 tp h c = taskAt E s1 tp h c" for tp h c
    using s1 GetParams_cong [of E s2 s1] by (simp_all add: wfTasks_def taskAt_def)
  have gas2: "GetMaxSudoGas E s2 = Ok g" and le2: "height s2 \<le> height s2 + epoch"
    using params_reads_cong(1) [OF s2'(1)] assms(3,5) same by simp_all
  obtain rs' t where run3: "ExecScheduledTasks E ?H epoch (SendHandleEpoch E) s2 = (Ok rs', t)"
    and rs': "\<forall>res \<in> set rs'. RescheduleErr res = None \<and> DeleteTaskErr res = None \<and> GasLimit res = g"
    and t: "height t = height s2" "blockTime t = blockTime s2"
      "GetParams E t = GetParams E s2" "wfTasks E t"
    and at3: "\<And>tp h c. taskAt E t tp h c =
      (if tp = ?H \<and> h \<le> height s2 then None
       else if tp = ?H \<and> epoch \<noteq> 0 \<and> h = height s2 + epoch \<and>
         (\<exists>h0 \<le> height s2. taskAt E s2 ?H h0 c = Some True)
       then Some True else taskAt E s2 tp h c)"
    by (rule ExecScheduledTasks_eq [OF goodExecutor_epoch [OF assms(1)] tps(2) gas2 s2'(2) le2])
      (rule that; assumption)
  have "EndBlocker E DefaultExecutionResponseHandler s = (Ok (), t)"
    using rs rs'
    by (simp add: EndBlocker_def act_simps assms(4) rspHandler_def bindA_def caught_def run1 run2 run3
        handleAll_default)
  moreover have "taskAt E t tp h c =
      (if tp = ?V \<or> tp = ?H then
        (if h \<le> height s then None
         else if epoch \<noteq> 0 \<and> h = height s + epoch \<and> (\<exists>h0 \<le> height s. taskAt E s tp h0 c = Some True)
         then Some True else taskAt E s tp h c)
       else taskAt E s tp h c)" for tp h c
  proof (cases "tp = ?V")
    case True
    then show ?thesis using tps(3) by (auto simp: at3 s2'(3) at1)
  next
    case False
    then show ?thesis by (auto simp: at3 s2'(3) at1 same)
  qed
  ultimately show thesis
    using that [of t] t same s2' by simp
qed

end

end
