(* ===== verification/Ledger.thy ===== *)
theory Ledger
  imports ValsetFacts
begin

text \<open>
  What the module promises, without stores and encodings: a ledger of the contracts' limits and
  bonded amounts, the agenda of tasks, and the validator changes since the last block end, with
  the five things that can happen to them. \<open>Refinement\<close> shows that the code does nothing else.
\<close>

section \<open>The abstract ledger\<close>

type_synonym agenda = "task_type \<Rightarrow> u64 \<Rightarrow> address \<Rightarrow> bool option"

record ledger =
  caps :: "address \<Rightarrow> int option"
  bonded :: "address \<Rightarrow> int"
  agenda :: agenda
  changes :: "piped_op set"
  now :: u64

text \<open>Bonding and unbonding, for given limits.\<close>

inductive bonding :: "(address \<Rightarrow> int option) \<Rightarrow> (address \<Rightarrow> int) \<Rightarrow> (address \<Rightarrow> int) \<Rightarrow> bool"
  for f where
  bond: "f c = Some cap \<Longrightarrow> 0 < n \<Longrightarrow> b c + n \<le> cap \<Longrightarrow> bonding f b (b(c := b c + n))"
| unbond: "f c \<noteq> None \<Longrightarrow> 0 \<le> n \<Longrightarrow> n \<le> b c \<Longrightarrow> bonding f b (b(c := b c - n))"

abbreviation bondings :: "(address \<Rightarrow> int option) \<Rightarrow> (address \<Rightarrow> int) \<Rightarrow> (address \<Rightarrow> int) \<Rightarrow> bool" where
  "bondings f \<equiv> (bonding f)\<^sup>*\<^sup>*"

text \<open>The sum of all limits.\<close>

definition sumCaps :: "(address \<Rightarrow> int option) \<Rightarrow> int" where
  "sumCaps f = (\<Sum>c | f c \<noteq> None. the (f c))"

text \<open>
  What a new limit \<open>n\<close> of a contract does to the agenda: without regular rebalances it gets
  them, from the next epoch on; with them it gets a rebalance now, and no other after it when
  the limit is zero.
\<close>

definition rearranged :: "u64 \<Rightarrow> u64 \<Rightarrow> address \<Rightarrow> int \<Rightarrow> agenda \<Rightarrow> agenda" where
  "rearranged epoch t c n ag = (\<lambda>tp h c'.
     if tp \<noteq> SchedulerTaskHandleEpoch \<or> c' \<noteq> c then ag tp h c'
     else if \<nexists>h. ag SchedulerTaskHandleEpoch h c = Some True
     then (if h = t + epoch then Some True else ag tp h c')
     else if n = 0 then (if h = t then Some False else None)
     else if h = t \<and> ag tp h c' = None then Some False else ag tp h c')"

text \<open>After a validator change, every contract with a positive limit is due for an update.\<close>

definition announced :: "u64 \<Rightarrow> (address \<Rightarrow> int option) \<Rightarrow> agenda \<Rightarrow> agenda" where
  "announced t f ag = (\<lambda>tp h c.
     if tp = SchedulerTaskValsetUpdate \<and> h = t \<and> ag tp h c = None \<and> (\<exists>n. f c = Some n \<and> 0 < n)
     then Some False else ag tp h c)"

text \<open>At the block end nothing stays due, and what repeats comes again after an epoch.\<close>

definition performed :: "u64 \<Rightarrow> u64 \<Rightarrow> agenda \<Rightarrow> agenda" where
  "performed epoch t ag = (\<lambda>tp h c.
     if tp = SchedulerTaskValsetUpdate \<or> tp = SchedulerTaskHandleEpoch then
       (if h \<le> t then None
        else if epoch \<noteq> 0 \<and> h = t + epoch \<and> (\<exists>h0 \<le> t. ag tp h0 c = Some True)
        then Some True else ag tp h c)
     else ag tp h c)"

text \<open>
  The steps, for an epoch length and a total of all limits. Block heights do not wrap around,
  and a limit that needs a first rebalance past the last height is refused.
\<close>

inductive ledger_step :: "u64 \<Rightarrow> int \<Rightarrow> ledger \<Rightarrow> ledger \<Rightarrow> bool" for epoch L where
  stake: "bonding (caps a) (bonded a) b \<Longrightarrow> ledger_step epoch L a (a\<lparr>bonded := b\<rparr>)"
| limit: "0 \<le> n \<Longrightarrow> sumCaps ((caps a)(c \<mapsto> n)) \<le> L \<Longrightarrow>
    (\<exists>h. agenda a SchedulerTaskHandleEpoch h c = Some True) \<or> now a \<le> now a + epoch \<Longrightarrow>
    ledger_step epoch L a (a\<lparr>caps := (caps a)(c \<mapsto> n),
      agenda := rearranged epoch (now a) c n (agenda a)\<rparr>)"
| change: "ledger_step epoch L a (a\<lparr>changes := insert x (changes a),
      agenda := announced (now a) (caps a) (agenda a)\<rparr>)"
| tick: "bondings (caps a) (bonded a) b \<Longrightarrow> now a \<le> now a + epoch \<Longrightarrow> now a < now a + 1 \<Longrightarrow>
    ledger_step epoch L a (a\<lparr>bonded := b, changes := {},
      agenda := performed epoch (now a) (agenda a), now := now a + 1\<rparr>)"

definition emptyLedger :: "u64 \<Rightarrow> ledger" where
  "emptyLedger t = \<lparr>caps = (\<lambda>_. None), bonded = (\<lambda>_. 0), agenda = (\<lambda>_ _ _. None),
     changes = {}, now = t\<rparr>"

inductive ledger_reachable :: "u64 \<Rightarrow> int \<Rightarrow> ledger \<Rightarrow> bool" for epoch L where
  start: "ledger_reachable epoch L (emptyLedger t)"
| more: "ledger_reachable epoch L a \<Longrightarrow> ledger_step epoch L a b \<Longrightarrow> ledger_reachable epoch L b"

section \<open>What holds of the ledger\<close>

text \<open>
  The limits are readable and within the total, and a contract has bonded something only when it
  has a limit, and never more than the total.
\<close>

definition ledgerInv :: "int \<Rightarrow> ledger \<Rightarrow> bool" where
  "ledgerInv L a \<longleftrightarrow> finite {c. caps a c \<noteq> None} \<and> (\<forall>c n. caps a c = Some n \<longrightarrow> 0 \<le> n) \<and>
     sumCaps (caps a) \<le> L \<and>
     (\<forall>c. 0 \<le> bonded a c \<and> bonded a c \<le> L \<and> (caps a c = None \<longrightarrow> bonded a c = 0))"

lemma cap_le_sum:
  assumes "finite {c. f c \<noteq> None}" and "\<And>c n. f c = Some n \<Longrightarrow> 0 \<le> n" and "f c = Some n"
  shows "n \<le> sumCaps f"
proof -
  have "the (f c) \<le> (\<Sum>c | f c \<noteq> None. the (f c))"
    by (rule member_le_sum) (use assms in auto)
  then show ?thesis using assms(3) by (simp add: sumCaps_def)
qed

lemma bonding_inv:
  assumes "bonding (caps a) (bonded a) b" and "ledgerInv L a"
  shows "ledgerInv L (a\<lparr>bonded := b\<rparr>)"
  using assms(1)
proof cases
  case (bond c cap n)
  have "cap \<le> L"
    using cap_le_sum [of "caps a" c cap] bond(2) assms(2) unfolding ledgerInv_def by force
  then show ?thesis
    using bond assms(2) by (auto simp: ledgerInv_def)
next
  case (unbond c n)
  have "bonded a c \<le> L" using assms(2) by (simp add: ledgerInv_def)
  then have "bonded a c - n \<le> L" using unbond(3) by simp
  with unbond assms(2) show ?thesis
    by (auto simp: ledgerInv_def)
qed

lemma bondings_inv:
  assumes "bondings (caps a) (bonded a) b" and "ledgerInv L a"
  shows "ledgerInv L (a\<lparr>bonded := b\<rparr>)"
  using assms(1)
proof (induction rule: rtranclp_induct)
  case (step b b')
  then show ?case
    using bonding_inv [of "a\<lparr>bonded := b\<rparr>" b' L] by simp
qed (use assms(2) in simp)

lemma ledger_step_inv:
  assumes "ledger_step epoch L a b" and "ledgerInv L a"
  shows "ledgerInv L b"
  using assms(1)
proof cases
  case (stake b)
  then show ?thesis using bonding_inv assms(2) by simp
next
  case (limit n c)
  have "{c'. ((caps a)(c \<mapsto> n)) c' \<noteq> None} = insert c {c'. caps a c' \<noteq> None}"
    by auto
  with limit assms(2) show ?thesis
    by (auto simp: ledgerInv_def)
next
  case (change x)
  then show ?thesis using assms(2) by (simp add: ledgerInv_def)
next
  case (tick b)
  then have "ledgerInv L (a\<lparr>bonded := b\<rparr>)"
    using bondings_inv assms(2) by blast
  then show ?thesis using tick by (simp add: ledgerInv_def)
qed

lemma ledger_reachable_inv:
  assumes "ledger_reachable epoch L a" and "0 \<le> L"
  shows "ledgerInv L a"
  using assms(1)
proof induction
  case (start t)
  then show ?case using assms(2) by (simp add: emptyLedger_def ledgerInv_def sumCaps_def)
qed (use ledger_step_inv in blast)

section \<open>Regular rebalances\<close>

text \<open>
  With a nonzero epoch length, a contract has at most one repeating task, at a height between
  the current block and one epoch ahead, and it has one when its limit is positive.
\<close>

definition repeatsAt :: "ledger \<Rightarrow> address \<Rightarrow> u64 \<Rightarrow> bool" where
  "repeatsAt a c h \<longleftrightarrow> agenda a SchedulerTaskHandleEpoch h c = Some True"

definition agendaInv :: "u64 \<Rightarrow> ledger \<Rightarrow> bool" where
  "agendaInv epoch a \<longleftrightarrow> (\<forall>c.
     (\<forall>h. repeatsAt a c h \<longrightarrow> now a \<le> h \<and> unat h \<le> unat (now a) + unat epoch) \<and>
     (\<forall>h h'. repeatsAt a c h \<longrightarrow> repeatsAt a c h' \<longrightarrow> h = h') \<and>
     (\<forall>n. caps a c = Some n \<longrightarrow> 0 < n \<longrightarrow> (\<exists>h. repeatsAt a c h)))"

lemma unat_no_wrap:
  fixes x y :: u64
  shows "x \<le> x + y \<Longrightarrow> unat (x + y) = unat x + unat y"
  using no_plus_overflow_unat_size [of x y] unat_add_lem [of x y] by (simp add: word_size)

lemma repeatsAt_limit:
  "repeatsAt (a\<lparr>caps := f, agenda := rearranged epoch (now a) c n (agenda a)\<rparr>) c' h \<longleftrightarrow>
     (if c' \<noteq> c then repeatsAt a c' h
      else if \<nexists>h. repeatsAt a c h then h = now a + epoch
      else n \<noteq> 0 \<and> repeatsAt a c h)"
  by (auto simp: repeatsAt_def rearranged_def)

lemma repeatsAt_change:
  "repeatsAt (a\<lparr>changes := x, agenda := announced t f (agenda a)\<rparr>) c h \<longleftrightarrow> repeatsAt a c h"
  by (simp add: repeatsAt_def announced_def task_defs)

lemma repeatsAt_tick:
  "repeatsAt (a\<lparr>bonded := b, changes := x, agenda := performed epoch t (agenda a), now := t'\<rparr>) c h \<longleftrightarrow>
     t < h \<and> (epoch \<noteq> 0 \<and> h = t + epoch \<and> (\<exists>h0 \<le> t. repeatsAt a c h0) \<or> repeatsAt a c h)"
  by (auto simp: repeatsAt_def performed_def not_le [symmetric])

lemma agendaInvD:
  assumes "agendaInv epoch a" and "repeatsAt a c h"
  shows "now a \<le> h" and "unat h \<le> unat (now a) + unat epoch" and "repeatsAt a c h' \<Longrightarrow> h' = h"
  using assms unfolding agendaInv_def by blast+

lemma agendaInv_positive:
  "agendaInv epoch a \<Longrightarrow> caps a c = Some n \<Longrightarrow> 0 < n \<Longrightarrow> \<exists>h. repeatsAt a c h"
  unfolding agendaInv_def by blast

lemma agendaInv_limit:
  assumes "agendaInv epoch a"
    and fits: "(\<exists>h. repeatsAt a c h) \<or> now a \<le> now a + epoch"
  shows "agendaInv epoch (a\<lparr>caps := (caps a)(c \<mapsto> n), agenda := rearranged epoch (now a) c n (agenda a)\<rparr>)"
proof -
  let ?b = "a\<lparr>caps := (caps a)(c \<mapsto> n), agenda := rearranged epoch (now a) c n (agenda a)\<rparr>"
  show ?thesis
  proof (cases "\<exists>h. repeatsAt a c h")
    case True
    then have at: "repeatsAt ?b = (\<lambda>c' h. (c' = c \<longrightarrow> n \<noteq> 0) \<and> repeatsAt a c' h)"
      by (auto simp: repeatsAt_limit fun_eq_iff)
    show ?thesis
      using assms(1) True agendaInv_positive [OF assms(1)] unfolding agendaInv_def at by auto
  next
    case False
    then have at: "repeatsAt ?b = (\<lambda>c' h. if c' = c then h = now a + epoch else repeatsAt a c' h)"
      by (auto simp: repeatsAt_limit fun_eq_iff)
    show ?thesis
      using assms False unat_no_wrap [of "now a" epoch] agendaInv_positive [OF assms(1)]
      unfolding agendaInv_def at by auto
  qed
qed

lemma agendaInv_tick:
  assumes inv: "agendaInv epoch a" and "epoch \<noteq> 0"
    and no_wrap: "now a \<le> now a + epoch" "now a < now a + 1"
  shows "agendaInv epoch (a\<lparr>bonded := b, changes := {},
    agenda := performed epoch (now a) (agenda a), now := now a + 1\<rparr>)" (is "agendaInv epoch ?b")
  unfolding agendaInv_def
proof (intro allI conjI impI)
  fix c h h' n
  have one: "unat (now a + 1) = unat (now a) + 1"
    using unat_no_wrap [of "now a" 1] no_wrap(2) by simp
  have sum: "unat (now a + epoch) = unat (now a) + unat epoch"
    by (rule unat_no_wrap [OF no_wrap(1)])
  have ahead: "now a < now a + epoch"
    using no_wrap(1) assms(2) by (simp add: order_less_le)
  have up: "unat h \<le> unat (now a) + unat epoch" if "repeatsAt ?b c h" for h
    using that agendaInvD(2) [OF inv] sum by (auto simp: repeatsAt_tick)
  show "now ?b \<le> h" "unat h \<le> unat (now ?b) + unat epoch" if "repeatsAt ?b c h"
    using that up [OF that] one by (simp_all add: repeatsAt_tick word_le_nat_alt word_less_nat_alt)
  show "h = h'" if "repeatsAt ?b c h" "repeatsAt ?b c h'"
  proof -
    have alone: False if "h0 \<le> now a" "repeatsAt a c h0" "now a < k" "repeatsAt a c k" for h0 k
      using agendaInvD(3) [OF inv that(2,4)] that(1,3) by simp
    show ?thesis
      using that agendaInvD(3) [OF inv] alone unfolding repeatsAt_tick by metis
  qed
  show "\<exists>h. repeatsAt ?b c h" if cap: "caps ?b c = Some n" "0 < n"
  proof -
    obtain h where h: "repeatsAt a c h"
      using agendaInv_positive [OF inv] cap by auto
    then show ?thesis
      using ahead assms(2) by (cases "h \<le> now a") (auto simp: repeatsAt_tick not_le)
  qed
qed

lemma ledger_step_agenda:
  assumes "ledger_step epoch L a b" and "agendaInv epoch a" and "epoch \<noteq> 0"
  shows "agendaInv epoch b"
  using assms(1)
proof cases
  case (limit n c)
  then show ?thesis
    using agendaInv_limit [OF assms(2), of c n] by (simp add: repeatsAt_def)
next
  case (tick b')
  then show ?thesis
    using agendaInv_tick [OF assms(2,3)] by simp
qed (use assms(2) in \<open>simp_all add: agendaInv_def repeatsAt_def announced_def task_defs\<close>)

lemma ledger_reachable_agenda:
  assumes "ledger_reachable epoch L a" and "epoch \<noteq> 0"
  shows "agendaInv epoch a"
  using assms(1)
proof induction
  case (start t)
  then show ?case by (simp add: agendaInv_def repeatsAt_def emptyLedger_def)
qed (use ledger_step_agenda assms(2) in blast)

end
