(* ===== verification/Machine.thy ===== *)
theory Machine
  imports Handlers MsgServer EndBlock Ledger
begin

text \<open>
  The module as a state machine: after genesis the chain moves by contract messages, by
  governance messages, by validator set changes, by block ends, and by whatever the other
  modules do to their own state. Reachability is an inductive relation; its invariant, proved
  by rule induction, says that all tables stay readable, that the limits together stay within
  the total of the parameters, and that no task is ever left behind in a past block.
\<close>

section \<open>What an action writes\<close>

text \<open>
  The part of the chain an action of a contract cannot reach: all of the module's store but
  the delegated totals, the memory store, and the header.
\<close>

definition onlyTotals :: "('s, 'x) sdk \<Rightarrow> ('s, 'x) chain \<Rightarrow> ('s, 'x) chain \<Rightarrow> bool" where
  "onlyTotals E s t \<longleftrightarrow>
     (\<forall>k. (\<forall>c. k \<noteq> BuildTotalDelegatedAmountKey c) \<longrightarrow> kv_Get E (store t) k = kv_Get E (store s) k) \<and>
     mem t = mem s \<and> height t = height s \<and> blockTime t = blockTime s"

lemma onlyTotals_refl [simp]: "onlyTotals E s s"
  by (simp add: onlyTotals_def)

lemma onlyTotals_trans: "onlyTotals E s t \<Longrightarrow> onlyTotals E t u \<Longrightarrow> onlyTotals E s u"
  by (simp add: onlyTotals_def)

lemma onlyTotals_ext [simp]: "onlyTotals E s (t\<lparr>ext := x\<rparr>) = onlyTotals E s t"
  by (simp add: onlyTotals_def)

lemma onlyTotals_events [simp]: "onlyTotals E s (t\<lparr>events := es\<rparr>) = onlyTotals E s t"
  by (simp add: onlyTotals_def)

lemma onlyTotals_commitCache: "onlyTotals E s c \<Longrightarrow> onlyTotals E s (commitCache s c)"
  by (simp add: onlyTotals_def)

lemma onlyTotals_keys:
  assumes "onlyTotals E s t"
  shows "kv_Get E (store t) (SchedulerKeyPrefix @ k) = kv_Get E (store s) (SchedulerKeyPrefix @ k)"
    and "kv_Get E (store t) (BuildMaxCapLimitKey c) = kv_Get E (store s) (BuildMaxCapLimitKey c)"
    and "kv_Get E (store t) ParamsKey = kv_Get E (store s) ParamsKey"
  using assms by (simp_all add: onlyTotals_def key_defs)

lemma onlyTotals_keepsTasks: "onlyTotals E s t \<Longrightarrow> keepsTasks E s t"
  by (simp add: keepsTasks_def onlyTotals_keys)

lemma onlyTotals_limit: "onlyTotals E s t \<Longrightarrow> limitOf E t c = limitOf E s c"
  by (rule amountAt_cong) (rule onlyTotals_keys(2))

abbreviation writesTotals :: "('s, 'x) sdk \<Rightarrow> (('s, 'x) chain, 'a) act \<Rightarrow> bool" where
  "writesTotals E m \<equiv> \<forall>s0. preserves (onlyTotals E s0) m"

lemma writesTotals_onExt: "writesTotals E (onExt f)"
  by (simp add: preserves_def act_simps)

lemma writesTotals_caught: "writesTotals E m \<Longrightarrow> writesTotals E (caught m)"
proof (intro allI preservesI)
  fix s0 s assume m: "writesTotals E m" and s: "onlyTotals E s0 s"
  obtain r c where c: "m s = (r, c)" by (cases "m s")
  with m s have "onlyTotals E s0 c"
    using preservesD by fast
  with c show "onlyTotals E s0 (snd (caught m s))"
    by (simp add: caught_def split: result.split)
qed

lemma writesTotals_cacheContext:
  assumes "writesTotals E m"
  shows "writesTotals E (cacheContext m)"
proof (intro allI preservesI)
  fix s0 s assume s: "onlyTotals E s0 s"
  obtain r c where m: "m s = (r, c)" by (cases "m s")
  have "onlyTotals E s c"
    using assms m preservesD onlyTotals_refl by fast
  then have "onlyTotals E s0 (commitCache s c)"
    using onlyTotals_trans [OF s] onlyTotals_commitCache by blast
  then show "onlyTotals E s0 (snd (cacheContext m s))"
    using s by (simp add: cacheContext_def m split: result.split prod.split)
qed

lemma writesTotals_bindA: "writesTotals E m \<Longrightarrow> (\<And>x. writesTotals E (f x)) \<Longrightarrow> writesTotals E (bindA m f)"
  by blast

lemma writesTotals_withState: "(\<And>s. writesTotals E (f s)) \<Longrightarrow> writesTotals E (withState f)"
  by (auto simp: preserves_def act_simps)

lemma writesTotals_basic:
  "writesTotals E (ret x)" "writesTotals E (fail e)" "writesTotals E panic" "writesTotals E (liftR r)"
  by simp_all

lemmas writesTotals_rules = writesTotals_basic writesTotals_onExt writesTotals_caught
  writesTotals_cacheContext writesTotals_bindA writesTotals_withState

context mesh_store
begin

lemma setTotalDelegated_writes: "writesTotals E (setTotalDelegated E c coin)"
proof -
  have "writesTotals E (storeSet E (BuildTotalDelegatedAmountKey c) bz)" for bz
    by (simp add: preserves_def act_simps onlyTotals_def get_set)
  then have "writesTotals E (if d then panic else bindA (liftR r) (\<lambda>bz. storeSet E (BuildTotalDelegatedAmountKey c) bz))"
    for d r
    by (cases d) (simp_all add: preserves_bindA)
  then show ?thesis
    unfolding setTotalDelegated_def by (intro writesTotals_withState)
qed

lemma Delegate_writes: "writesTotals E (Delegate E actor val amt)"
proof -
  have "writesTotals E (delegateOnBranch E actor v amt n new)" for v n new
    unfolding delegateOnBranch_def by (intro writesTotals_rules setTotalDelegated_writes)
  then have branch: "writesTotals E (cacheContext (bindA (delegateOnBranch E actor v amt n new)
      (\<lambda>sh. ret (sh, True))))" for v n new
    by (intro writesTotals_rules)
  have rest: "writesTotals E (if exceeded then fail ErrMaxCapExceeded else
      bindA (cacheContext (bindA (delegateOnBranch E actor v amt n new) (\<lambda>sh. ret (sh, True)))) liftR)"
    for exceeded v n new
    using branch by (cases exceeded) (auto intro: preserves_bindA)
  show ?thesis
    unfolding Delegate_def Let_def
    by (intro writesTotals_withState writesTotals_bindA writesTotals_basic)
      (use rest in \<open>auto split: option.split intro!: preserves_bindA\<close>)
qed

lemma Undelegate_writes: "writesTotals E (Undelegate E actor val amt)"
proof -
  have burn: "writesTotals E (unbondAndBurn E actor val d tot shares)" for d tot shares
    unfolding unbondAndBurn_def by (intro writesTotals_rules setTotalDelegated_writes)
  have branch: "writesTotals E (undelegateOnBranch E actor val amt n)" for n
    unfolding undelegateOnBranch_def
    by (intro writesTotals_withState writesTotals_bindA writesTotals_basic)
      (use burn in \<open>auto split: result.split intro!: preserves_bindA\<close>)
  then have "writesTotals E (cacheContext (undelegateOnBranch E actor val amt n))" for n
    by (intro writesTotals_cacheContext)
  then show ?thesis
    unfolding Undelegate_def Let_def
    by (intro writesTotals_withState writesTotals_bindA writesTotals_basic) auto
qed

lemma DispatchMsg_writes: "onlyTotals E s (snd (DispatchMsg E (NewDefaultCustomMsgHandler E) c port msg s))"
proof -
  have d: "writesTotals E (handleBondMsg E (NewDefaultCustomMsgHandler E) c b)" for b
    unfolding handleBondMsg_def NewDefaultCustomMsgHandler_def
    by (simp del: split_paired_All) (intro allI preserves_bindA preserves_basic, use Delegate_writes in blast)
  have u: "writesTotals E (handleUnbondMsg E (NewDefaultCustomMsgHandler E) c b)" for b
    unfolding handleUnbondMsg_def NewDefaultCustomMsgHandler_def
    by (simp del: split_paired_All) (intro allI preserves_bindA preserves_basic, use Undelegate_writes in blast)
  have "preserves (onlyTotals E s) (DispatchMsg E (NewDefaultCustomMsgHandler E) c port msg)"
    unfolding DispatchMsg_def
    by (intro preserves_withState)
      (use d u in \<open>auto simp: preserves_def act_simps split: option.split result.split\<close>)
  then show ?thesis by (simp add: preserves_def)
qed

end

section \<open>The machine\<close>

text \<open>
  A contract moves the module by its messages, and the rest of the chain moves the other
  modules' state. A sudo call into a contract is taken to be a run of such steps: it may bond and
  unbond and change what the other modules store, but it is not taken to reach the hooks and
  decorated keepers, which record changes and schedule tasks. Theory \<open>Reentry\<close> goes without that.
\<close>

inductive contract_step :: "('s, 'x) sdk \<Rightarrow> ('s, 'x) chain \<Rightarrow> ('s, 'x) chain \<Rightarrow> bool" for E where
  other_modules: "contract_step E s (s\<lparr>ext := x, events := es\<rparr>)"
| dispatch: "DispatchMsg E (NewDefaultCustomMsgHandler E) contract port msg s = (Ok evs, t) \<Longrightarrow>
    contract_step E s t"

abbreviation contract_run :: "('s, 'x) sdk \<Rightarrow> ('s, 'x) chain \<Rightarrow> ('s, 'x) chain \<Rightarrow> bool" where
  "contract_run E \<equiv> (contract_step E)\<^sup>*\<^sup>*"

definition wasmRuns :: "('s, 'x) sdk \<Rightarrow> bool" where
  "wasmRuns E \<longleftrightarrow> (\<forall>c bz s. contract_run E s (snd (wasm_Sudo E c bz s)))"

text \<open>
  The steps of the chain. A message that fails is rolled back by the SDK. After the block end
  the next block starts; block heights are int64 and stay positive.
\<close>

inductive mesh_step :: "('s, 'x) sdk \<Rightarrow> ('s, 'x) chain \<Rightarrow> ('s, 'x) chain \<Rightarrow> bool" for E where
  contract: "contract_step E s t \<Longrightarrow> mesh_step E s t"
| set_cap: "SetVirtualStakingMaxCap E req s = (Ok u, t) \<Longrightarrow> mesh_step E s t"
| valset: "goodOp op val si \<Longrightarrow> sendAsync E op val si s = (Ok u, t) \<Longrightarrow> mesh_step E s t"
| end_block: "EndBlocker E DefaultExecutionResponseHandler s = (Ok u, t) \<Longrightarrow> height s < 2 ^ 63 \<Longrightarrow>
    mesh_step E s (t\<lparr>height := height t + 1, blockTime := bt\<rparr>)"

text \<open>The first state: empty stores and the parameters of the genesis.\<close>

definition emptyChain :: "('s, 'x) sdk \<Rightarrow> ('s, 'x) chain \<Rightarrow> bool" where
  "emptyChain E s \<longleftrightarrow> (\<forall>k. kv_Get E (store s) k = None \<and> kv_Get E (mem s) k = None)"

inductive mesh_reachable :: "('s, 'x) sdk \<Rightarrow> params \<Rightarrow> ('s, 'x) chain \<Rightarrow> bool" for E p where
  genesis: "emptyChain E s \<Longrightarrow> InitGenesis E (NewGenesisState p) s = (Ok u, t) \<Longrightarrow> mesh_reachable E p t"
| step: "mesh_reachable E p s \<Longrightarrow> mesh_step E s t \<Longrightarrow> mesh_reachable E p t"

inductive_cases contract_stepE: "contract_step E s t"
inductive_cases mesh_stepE: "mesh_step E s t"

text \<open>The invariant.\<close>

definition tasksAhead :: "('s, 'x) sdk \<Rightarrow> ('s, 'x) chain \<Rightarrow> bool" where
  "tasksAhead E s \<longleftrightarrow> (\<forall>tp h c r. taskAt E s tp h c = Some r \<longrightarrow>
     (tp = SchedulerTaskHandleEpoch \<or> tp = SchedulerTaskValsetUpdate) \<and> height s \<le> h)"

lemma tasksAheadI:
  assumes "\<And>tp h c r. taskAt E s tp h c = Some r \<Longrightarrow>
    (tp = SchedulerTaskHandleEpoch \<or> tp = SchedulerTaskValsetUpdate) \<and> height s \<le> h"
  shows "tasksAhead E s"
  using assms by (auto simp: tasksAhead_def)

lemma tasksAheadD:
  assumes "tasksAhead E s" and "taskAt E s tp h c = Some r"
  shows "tp = SchedulerTaskHandleEpoch \<or> tp = SchedulerTaskValsetUpdate" and "height s \<le> h"
  using assms unfolding tasksAhead_def by blast+

definition meshInv :: "('s, 'x) sdk \<Rightarrow> params \<Rightarrow> int \<Rightarrow> ('s, 'x) chain \<Rightarrow> bool" where
  "meshInv E p L s \<longleftrightarrow> GetParams E s = Ok p \<and> wfAmounts E s \<and> wfTasks E s \<and> wfOps E s \<and>
     totalCaps E s \<le> L \<and> tasksAhead E s"

text \<open>
  The laws the machine rests on besides the keeper's: a valid coin has a nonnegative amount,
  and staking only reports valid bond denominations.
\<close>

locale mesh_machine = block_end E valid_denom + codec: params_codec "cdc_MarshalParams E" "cdc_UnmarshalParams E" setCap
  for E :: "('s, 'x) sdk" and valid_denom :: "string \<Rightarrow> bool" +
  assumes Coin_Validate: "Coin_Validate E c = Ok () \<Longrightarrow> \<exists>n. amount c = Some n \<and> 0 \<le> n"
    and bond_denom: "valid_denom (staking_BondDenom E x)"
begin

sublocale mesh_params E ..

text \<open>Contract steps and runs.\<close>

lemma contract_step_frame:
  assumes "contract_step E s t"
  shows "onlyTotals E s t"
  using assms
proof (rule contract_stepE)
  fix contract port msg evs
  assume "DispatchMsg E (NewDefaultCustomMsgHandler E) contract port msg s = (Ok evs, t)"
  then show ?thesis
    using DispatchMsg_writes [of s contract port msg] by simp
qed simp

lemma contract_step_wf:
  assumes "contract_step E s t" and "wfAmounts E s"
  shows "wfAmounts E t"
  using assms(1)
proof cases
  case (other_modules x es)
  with assms(2) show ?thesis by (simp add: wfAmounts_def)
next
  case (dispatch contract port msg evs)
  from dispatch [unfolded default_handler] show ?thesis
  proof (cases rule: msgs.dispatch_cases)
    case (2 val c r')
    then show ?thesis
      using assms(2) bond_denom by (cases rule: Delegate_cases [OF assms(2) bond_denom 2(2)]) auto
  next
    case (3 val c r')
    show ?thesis
    proof (cases "r' = Ok ()")
      case True
      with 3 have "Undelegate E contract val c s = (Ok (), t)" by simp
      then show ?thesis
        by (rule Undelegate_OkD [OF assms(2) bond_denom]) (use assms(2) in simp_all)
    qed (use 3 Undelegate_not_Ok assms(2) in auto)
  qed (use assms(2) in simp)
qed

lemma contract_run_frame:
  assumes "contract_run E s t"
  shows "onlyTotals E s t" and "wfAmounts E s \<Longrightarrow> wfAmounts E t"
  using assms
  by (induction rule: rtranclp_induct)
    (auto intro: onlyTotals_trans contract_step_frame contract_step_wf)

text \<open>On the totals, a contract step is a step of bonding, if anything.\<close>

lemma contract_step_bonding:
  assumes "contract_step E s t" and "wfAmounts E s"
  shows "(bonding (limitOf E s))\<^sup>=\<^sup>= (totalOf E s) (totalOf E t)"
  using assms(1)
proof cases
  case (other_modules x es)
  then have "totalOf E t = totalOf E s"
    by (simp add: totalOf_def amountAt_def fun_eq_iff)
  then show ?thesis by simp
next
  case (dispatch contract port msg evs)
  from dispatch [unfolded default_handler] show ?thesis
  proof (cases rule: msgs.dispatch_cases)
    case (2 val c r')
    then obtain cap where cap: "limitOf E s contract = Some cap" by blast
    from Delegate_cases [OF assms(2) bond_denom 2(2)] show ?thesis
    proof cases
      case (2 n v cs x1 x2 x3)
      have "totalOf E t = (totalOf E s)(contract := totalOf E s contract + n)"
        using onlyTotalD(1) [OF 2(11)] by (simp add: fun_eq_iff)
      moreover have "totalOf E s contract + n \<le> cap"
        using 2(5) cap by (simp add: capOf_def)
      ultimately show ?thesis
        using bonding.bond [of "limitOf E s" contract cap n "totalOf E s"] cap 2(2) by simp
    qed simp
  next
    case (3 val c r')
    then have "Undelegate E contract val c s = (Ok (), t)" by simp
    from Undelegate_OkD [OF assms(2) bond_denom this] show ?thesis
    proof cases
      case (2 n shares cs x1 x2 x3 m)
      have "totalOf E t = (totalOf E s)(contract := totalOf E s contract - m)"
        using onlyTotalD(1) [OF 2(13)] by (simp add: fun_eq_iff)
      then show ?thesis
        using bonding.unbond [of "limitOf E s" contract m "totalOf E s"] 3(1) 2(11,12) by simp
    qed simp
  qed simp
qed

lemma contract_run_bondings:
  assumes "contract_run E s t" and "wfAmounts E s"
  shows "bondings (limitOf E s) (totalOf E s) (totalOf E t)"
  using assms
proof (induction rule: rtranclp_induct)
  case (step t u)
  have "limitOf E t = limitOf E s"
    using onlyTotals_limit [OF contract_run_frame(1) [OF step(1)]] by (simp add: fun_eq_iff)
  then have "(bonding (limitOf E s))\<^sup>=\<^sup>= (totalOf E t) (totalOf E u)"
    using contract_step_bonding [OF step(2)] contract_run_frame(2) [OF step(1)] step.prems by simp
  with step show ?case
    by (auto intro: rtranclp.rtrancl_into_rtrancl)
qed simp

lemma wasmRuns_goodSudo: "wasmRuns E \<Longrightarrow> goodSudo E"
  unfolding wasmRuns_def goodSudo_def
  using contract_run_frame(1) onlyTotals_keepsTasks by blast

text \<open>Block ends: the default handler does not touch the state, so the two runs and the clearing do all.\<close>

lemma handleAll_default_state:
  "handleAll DefaultExecutionResponseHandler rs s = (r, t) \<Longrightarrow> t = s"
  by (induction rs) (auto simp: DefaultExecutionResponseHandler_def act_simps bindA_def
      split: if_splits result.splits)

lemma rspHandler_default_Ok:
  assumes "rspHandler DefaultExecutionResponseHandler m s = (Ok u, t)"
  shows "\<exists>rs. m s = (Ok rs, t)"
  using assms handleAll_default_state
  by (auto simp: rspHandler_def caught_def bindA_def act_simps split: prod.splits result.splits)

lemma EndBlocker_OkD:
  assumes "EndBlocker E DefaultExecutionResponseHandler s = (Ok u, t)"
  obtains epoch rs s1 s2 rs' where "GetRebalanceEpochLength E s = Ok epoch"
    and "ExecScheduledTasks E SchedulerTaskValsetUpdate epoch (valsetUpdateTask E) s = (Ok rs, s1)"
    and "ClearPipedValsetOperations E s1 = (Ok (), s2)"
    and "ExecScheduledTasks E SchedulerTaskHandleEpoch epoch (SendHandleEpoch E) s2 = (Ok rs', t)"
proof -
  obtain epoch s1 s2 where e: "GetRebalanceEpochLength E s = Ok epoch"
    and r1: "rspHandler DefaultExecutionResponseHandler
      (ExecScheduledTasks E SchedulerTaskValsetUpdate epoch (valsetUpdateTask E)) s = (Ok (), s1)"
    and c: "ClearPipedValsetOperations E s1 = (Ok (), s2)"
    and r2: "rspHandler DefaultExecutionResponseHandler
      (ExecScheduledTasks E SchedulerTaskHandleEpoch epoch (SendHandleEpoch E)) s2 = (Ok (), t)"
    using assms by (auto simp: EndBlocker_def ok_iffs act_simps)
  from rspHandler_default_Ok [OF r1] rspHandler_default_Ok [OF r2] that e c show thesis
    by blast
qed

definition keptByRuns :: "(address \<Rightarrow> int option) \<Rightarrow> (address \<Rightarrow> int) \<Rightarrow> ('s, 'x) chain \<Rightarrow> bool" where
  "keptByRuns f D s \<longleftrightarrow> wfAmounts E s \<and> wfOps E s \<and> (\<forall>c. limitOf E s c = f c) \<and>
     bondings f D (totalOf E s)"

lemma keptByRuns_tasksOnly:
  assumes "keptByRuns f D s" and "tasksOnly E s t"
  shows "keptByRuns f D t"
proof -
  have "totalOf E t = totalOf E s"
    using tasksOnly_amounts(2) [OF assms(2)] by (simp add: totalOf_def fun_eq_iff)
  then show ?thesis
    using assms(1) tasksOnly_amounts(1,3) [OF assms(2)] wfOps_cong [OF tasksOnly_mem [OF assms(2)]]
    by (simp add: keptByRuns_def)
qed

lemma totalOf_store: "store t = store s \<Longrightarrow> totalOf E t = totalOf E s"
  by (simp add: totalOf_def amountAt_def fun_eq_iff)

lemma keptByRuns_branch:
  assumes "wasmRuns E" and "keptByRuns f D s"
    and "\<And>s. snd (cb c s) = s \<or> (\<exists>bz. snd (cb c s) = snd (wasm_Sudo E c bz s))"
  shows "keptByRuns f D (branchState E g (cb c) s)" and "mem (branchState E g (cb c) s) = mem s"
proof -
  have run: "contract_run E s (snd (cb c s))"
    using assms(1) assms(3) [of s] by (metis rtranclp.rtrancl_refl wasmRuns_def)
  note frame = contract_run_frame [OF run]
  have wf: "wfAmounts E s" and f: "limitOf E s = f"
    using assms(2) by (simp_all add: keptByRuns_def fun_eq_iff)
  have mem: "mem (snd (cb c s)) = mem s"
    using frame(1) by (simp add: onlyTotals_def)
  then show "mem (branchState E g (cb c) s) = mem s"
    by (simp add: branchState_def)
  have "keptByRuns f D (snd (cb c s))"
    using assms(2) mem frame(2) onlyTotals_limit [OF frame(1)] wfOps_cong [of "snd (cb c s)" s]
      rtranclp_trans [OF _ contract_run_bondings [OF run wf], unfolded f]
    by (simp add: keptByRuns_def f)
  then have "keptByRuns f D (commitCache s (snd (cb c s)))"
    using totalOf_store [of "commitCache s (snd (cb c s))" "snd (cb c s)"]
    by (simp add: keptByRuns_def wfOps_def amountAt_def)
  then show "keptByRuns f D (branchState E g (cb c) s)"
    using assms(2) by (simp add: branchState_def)
qed

lemma EndBlocker_keeps:
  assumes "wasmRuns E" and "GetMaxSudoGas E s = Ok g" and "wfTasks E s"
    and "height s \<le> height s + epoch" and "GetRebalanceEpochLength E s = Ok epoch"
    and run: "EndBlocker E DefaultExecutionResponseHandler s = (Ok u, t)"
    and "keptByRuns f D s"
  shows "keptByRuns f D t" and "pipedOps E t = []"
proof -
  have tps: "SchedulerTaskValsetUpdate \<noteq> SchedulerTaskUndefined"
    "SchedulerTaskHandleEpoch \<noteq> SchedulerTaskUndefined"
    by (simp_all add: task_defs)
  have sudo: "goodSudo E"
    by (rule wasmRuns_goodSudo [OF assms(1)])
  obtain epoch' rs s1 s2 rs' where e: "GetRebalanceEpochLength E s = Ok epoch'"
    and run1: "ExecScheduledTasks E SchedulerTaskValsetUpdate epoch' (valsetUpdateTask E) s = (Ok rs, s1)"
    and run2: "ClearPipedValsetOperations E s1 = (Ok (), s2)"
    and run3: "ExecScheduledTasks E SchedulerTaskHandleEpoch epoch' (SendHandleEpoch E) s2 = (Ok rs', t)"
    by (rule EndBlocker_OkD [OF run])
  then have epoch: "epoch' = epoch" using assms(5) by simp
  note good1 = goodExecutor_valset [OF sudo] and good2 = goodExecutor_epoch [OF sudo]
  have b1: "keptByRuns f D (branchState E g (valsetUpdateTask E c) s)" if "keptByRuns f D s" for s c
    by (rule keptByRuns_branch(1) [where cb = "valsetUpdateTask E", OF assms(1) that])
      (rule valsetUpdateTask_state)
  have b2: "keptByRuns f D (branchState E g (SendHandleEpoch E c) s)"
    "mem (branchState E g (SendHandleEpoch E c) s) = mem s" if "keptByRuns f D s" for s c
    by (rule keptByRuns_branch [where cb = "SendHandleEpoch E", OF assms(1) that],
        simp only: SendHandleEpoch_def, rule doSudoCall_state)+
  have "keptByRuns f D (snd (ExecScheduledTasks E SchedulerTaskValsetUpdate epoch (valsetUpdateTask E) s))"
    by (rule ExecScheduledTasks_keeps [where P = "keptByRuns f D" and g = g])
      (fact good1 tps(1) assms(2) assms(3) assms(7) | erule (1) keptByRuns_tasksOnly | erule b1)+
  then have P1: "keptByRuns f D s1"
    using run1 by (simp add: epoch)
  obtain rs1 s1' where exec1: "ExecScheduledTasks E SchedulerTaskValsetUpdate epoch (valsetUpdateTask E) s
      = (Ok rs1, s1')" and s1': "GetParams E s1' = GetParams E s" "wfTasks E s1'"
    by (rule ExecScheduledTasks_eq [OF good1 tps(1) assms(2,3,4)])
  have s1: "GetParams E s1 = GetParams E s" "wfTasks E s1"
    using exec1 s1' run1 by (simp_all add: epoch)
  have P2: "keptByRuns f D s2" and same: "store s2 = store s1" and clear: "pipedOps E s2 = []"
  proof -
    obtain s2' where c: "ClearPipedValsetOperations E s1 = (Ok (), s2')" "wfOps E s2'" "pipedOps E s2' = []"
      and s2': "s2' = s1\<lparr>mem := mem s2'\<rparr>"
      by (rule ClearPipedValsetOperations_eq [of s1])
    have "store s2' = store s1"
      using arg_cong [OF s2', of store] by simp
    then show "keptByRuns f D s2" "store s2 = store s1" "pipedOps E s2 = []"
      using P1 c run2 totalOf_store [of s2' s1]
      by (simp_all add: keptByRuns_def wfAmounts_def amountAt_def)
  qed
  have s2: "GetMaxSudoGas E s2 = Ok g" "wfTasks E s2"
    using same s1 params_reads_cong(1) [of E s2 s] GetParams_cong [of E s2 s1] assms(2)
    by (simp_all add: wfTasks_def)
  let ?P = "\<lambda>x. keptByRuns f D x \<and> mem x = mem s2"
  have "?P (snd (ExecScheduledTasks E SchedulerTaskHandleEpoch epoch (SendHandleEpoch E) s2))"
  proof (rule ExecScheduledTasks_keeps [where P = ?P and g = g, OF good2 tps(2) _ _ s2])
    show "?P y" if "?P x" "tasksOnly E x y" for x y
      using that keptByRuns_tasksOnly tasksOnly_mem by metis
  qed (use b2 P2 in simp_all)
  then show "keptByRuns f D t" "pipedOps E t = []"
    using run3 clear pipedOps_cong [of t s2] by (simp_all add: epoch)
qed

section \<open>The invariant\<close>

lemma genesis_meshInv:
  assumes "emptyChain E s" and "InitGenesis E (NewGenesisState p) s = (Ok u, t)" and "0 \<le> L"
    and "setCap p"
  shows "meshInv E p L t"
proof -
  obtain bz where bz: "cdc_MarshalParams E p = Ok bz"
    and t: "t = s\<lparr>store := kv_Set E (store s) ParamsKey bz\<rparr>"
    using assms(2) by (auto simp: InitGenesis_def NewGenesisState_def SetParams_Ok_iff
        split: prod.splits result.splits)
  have get: "kv_Get E (store t) k = (if k = ParamsKey then Some bz else None)" "kv_Get E (mem t) k = None" for k
    using assms(1) by (simp_all add: t get_set emptyChain_def)
  have "GetParams E t = Ok p"
    using codec.codec_roundtrip [OF assms(4) bz] by (simp add: GetParams_def get)
  moreover have "totalCaps E t \<le> L"
    using assms(3) by (simp add: totalCaps_sum amountAt_def get)
  moreover have "SchedulerKeyPrefix @ k \<noteq> ParamsKey" for k
    by (simp add: key_defs)
  ultimately show ?thesis
    by (simp add: meshInv_def wfAmounts_def wfTasks_def wfOps_def tasksAhead_def taskAt_def get)
qed

lemma meshInv_contract:
  assumes "meshInv E p L s" and "contract_step E s t"
  shows "meshInv E p L t"
proof -
  note frame = contract_step_frame [OF assms(2)]
  have same: "mem t = mem s" "height t = height s"
    using frame by (simp_all add: onlyTotals_def)
  have "totalCaps E t = totalCaps E s"
    by (rule totalCaps_cong) (rule onlyTotals_limit [OF frame])
  moreover note keeps = onlyTotals_keepsTasks [OF frame]
  have "tasksAhead E t"
    using assms(1) tasksAheadD [of E s] same(2) keepsTasks_taskAt [OF keeps]
    by (intro tasksAheadI) (simp add: meshInv_def)
  ultimately show ?thesis
    using assms(1) wfOps_cong [OF same(1)] contract_step_wf [OF assms(2)]
      keepsTasks_params [OF keeps] keepsTasks_wfTasks [OF keeps]
    by (simp add: meshInv_def)
qed

lemma SetVirtualStakingMaxCap_tables:
  assumes "GetParams E s = Ok p" and "wfAmounts E s" and "wfTasks E s"
    and "TotalContractsMaxCap p = Coin d (Some L)"
    and ok: "SetVirtualStakingMaxCap E req s = (Ok u, t)"
  obtains c n where "totalCaps E t \<le> L" and "wfAmounts E t" and "wfTasks E t" and "GetParams E t = GetParams E s"
    and "mem t = mem s \<and> ext t = ext s \<and> height t = height s \<and> blockTime t = blockTime s"
    and "\<And>tp h c'. taskAt E t tp h c' =
      (if tp \<noteq> SchedulerTaskHandleEpoch \<or> c' \<noteq> c then taskAt E s tp h c'
       else if \<nexists>h. taskAt E s SchedulerTaskHandleEpoch h c = Some True
       then (if h = height s + ucast (EpochLength p) then Some True else taskAt E s tp h c')
       else if n = (0::int) then (if h = height s then Some False else None)
       else if h = height s \<and> taskAt E s tp h c' = None then Some False else taskAt E s tp h c')"
    and "(\<exists>h. taskAt E s SchedulerTaskHandleEpoch h c = Some True) \<or>
      wasm_HasContractInfo E (ext s) c \<and> height s \<le> height s + ucast (EpochLength p)"
proof -
  have params: "GetTotalContractsMaxCap E s = Ok (Coin d (Some L))"
    "GetRebalanceEpochLength E s = Ok (ucast (EpochLength p))"
    using assms(1,4) by (simp_all add: GetTotalContractsMaxCap_def GetRebalanceEpochLength_def)
  have "Coin_Validate E (msg_MaxCap req) = Ok ()"
    using ok by (auto simp: SetVirtualStakingMaxCap_def ValidateBasic_def ok_iffs split: result.splits)
  then obtain n where n: "amount (msg_MaxCap req) = Some n" "0 \<le> n"
    using Coin_Validate by blast
  show thesis
    by (rule SetVirtualStakingMaxCap_OkD [OF ok assms(2,3) params n(1)])
      (rule that, assumption, use n(2) in simp, assumption+)
qed

lemma meshInv_set_cap:
  assumes "meshInv E p L s" and "TotalContractsMaxCap p = Coin d (Some L)"
    and ok: "SetVirtualStakingMaxCap E req s = (Ok u, t)"
  shows "meshInv E p L t"
proof -
  have inv: "wfAmounts E s" "wfTasks E s" "GetParams E s = Ok p" "tasksAhead E s" "wfOps E s"
    using assms(1) by (simp_all add: meshInv_def)
  obtain c n where t: "totalCaps E t \<le> L" "wfAmounts E t" "wfTasks E t" "GetParams E t = GetParams E s"
      "mem t = mem s \<and> ext t = ext s \<and> height t = height s \<and> blockTime t = blockTime s"
    and at: "\<And>tp h c'. taskAt E t tp h c' =
      (if tp \<noteq> SchedulerTaskHandleEpoch \<or> c' \<noteq> c then taskAt E s tp h c'
       else if \<nexists>h. taskAt E s SchedulerTaskHandleEpoch h c = Some True
       then (if h = height s + ucast (EpochLength p) then Some True else taskAt E s tp h c')
       else if n = (0::int) then (if h = height s then Some False else None)
       else if h = height s \<and> taskAt E s tp h c' = None then Some False else taskAt E s tp h c')"
    and fits: "(\<exists>h. taskAt E s SchedulerTaskHandleEpoch h c = Some True) \<or>
      wasm_HasContractInfo E (ext s) c \<and> height s \<le> height s + ucast (EpochLength p)"
    by (rule SetVirtualStakingMaxCap_tables [OF inv(3,1,2) assms(2) ok]) (rule that; assumption)
  have "tasksAhead E t"
  proof (rule tasksAheadI)
    fix tp h c' r assume "taskAt E t tp h c' = Some r"
    then consider "taskAt E s tp h c' = Some r" | "tp = SchedulerTaskHandleEpoch" "height s \<le> h"
      using fits by (auto simp: at split: if_splits)
    then show "(tp = SchedulerTaskHandleEpoch \<or> tp = SchedulerTaskValsetUpdate) \<and> height t \<le> h"
      using tasksAheadD [OF inv(4), of tp h c' r] t(5) by cases auto
  qed
  with t inv(3,5) wfOps_cong [of t s] show ?thesis
    by (simp add: meshInv_def)
qed

lemma meshInv_valset:
  assumes "meshInv E p L s" and "goodOp op val si" and ok: "sendAsync E op val si s = (Ok u, t)"
  shows "meshInv E p L t"
proof -
  have inv: "wfAmounts E s" "wfTasks E s" "wfOps E s"
    using assms(1) by (simp_all add: meshInv_def)
  obtain t' where t': "sendAsync E op val si s = (Ok (), t')" "tasksOnly E (storedOp s op val si) t'"
    "wfTasks E s \<Longrightarrow> wfTasks E t'"
    "\<And>tp h c. taskAt E t' tp h c =
      (if tp = SchedulerTaskValsetUpdate \<and> h = height s \<and> taskAt E s tp h c = None \<and>
          (\<exists>n. limitOf E s c = Some n \<and> 0 < n)
       then Some False else taskAt E s tp h c)"
    by (rule sendAsync_eq [OF assms(2) inv(1)]) (rule that; assumption)
  have t: "t = t'" using ok t'(1) by simp
  note only = t'(2) [folded t]
  have stored: "store (storedOp s op val si) = store s" by simp
  have limit: "limitOf E t c = limitOf E s c" for c
    using tasksOnly_amounts(1) [OF only, of c] by (simp add: amountAt_def)
  have "totalCaps E t = totalCaps E s"
    by (rule totalCaps_cong) (rule limit)
  moreover have "wfAmounts E t"
    using tasksOnly_amounts(3) [OF only] inv(1) by (simp add: wfAmounts_def)
  moreover have "GetParams E t = GetParams E s"
    using tasksOnly_params [OF only] by (simp add: GetParams_def)
  moreover have "wfOps E t"
    using wfOps_cong [OF tasksOnly_mem [OF only]] wfOps_storedOp [OF inv(3) assms(2)] by simp
  moreover have "height t = height s"
    using only by (simp add: tasksOnly_def)
  moreover have "tasksAhead E t"
  proof (rule tasksAheadI)
    fix tp h c r assume "taskAt E t tp h c = Some r"
    then consider "taskAt E s tp h c = Some r" | "tp = SchedulerTaskValsetUpdate" "h = height s"
      using t'(4) [of tp h c] by (auto simp: t split: if_splits)
    then show "(tp = SchedulerTaskHandleEpoch \<or> tp = SchedulerTaskValsetUpdate) \<and> height t \<le> h"
      using assms(1) tasksAheadD [of E s tp h c r] \<open>height t = height s\<close>
      by cases (auto simp: meshInv_def)
  qed
  ultimately show ?thesis
    using assms(1) t'(3) inv(2) by (simp add: meshInv_def t)
qed

text \<open>An epoch is at most 32 bits long and heights are below \<open>2 ^ 63\<close>: their sum does not wrap.\<close>

lemma height_plus_epoch:
  fixes h :: u64 and e :: u32
  assumes "h < 2 ^ 63"
  shows "h \<le> h + ucast e" and "h < h + 1" and "h < k \<Longrightarrow> h + 1 \<le> k"
proof -
  have h: "unat h < 2 ^ 63"
    using assms by (simp add: word_less_nat_alt)
  have "unat (ucast e :: u64) = unat e"
    by (simp add: unsigned_ucast_eq take_bit_nat_eq_self_iff less_trans [OF unsigned_less])
  moreover have "unat e < 2 ^ 32"
    using unsigned_less [of e] by simp
  ultimately have "unat (h + ucast e) = unat h + unat e"
    using h by (simp add: unat_word_ariths)
  then show "h \<le> h + ucast e"
    by (simp add: word_le_nat_alt)
  have one: "unat (h + 1) = unat h + 1"
    using h by (simp add: unat_word_ariths)
  then show "h < h + 1"
    by (simp add: word_less_nat_alt)
  show "h < k \<Longrightarrow> h + 1 \<le> k"
    using one by (simp add: word_le_nat_alt word_less_nat_alt)
qed

lemma meshInv_end_block:
  assumes inv: "meshInv E p L s" and "wasmRuns E"
    and ok: "EndBlocker E DefaultExecutionResponseHandler s = (Ok u, t)" and h: "height s < 2 ^ 63"
  shows "meshInv E p L (t\<lparr>height := height t + 1, blockTime := bt\<rparr>)"
proof -
  let ?epoch = "ucast (EpochLength p) :: u64" and ?g = "ucast (MaxGasEndBlocker p) :: u64"
  have i: "wfAmounts E s" "wfTasks E s" "GetParams E s = Ok p" "tasksAhead E s" "wfOps E s"
    using inv by (simp_all add: meshInv_def)
  have params: "GetMaxSudoGas E s = Ok ?g" "GetRebalanceEpochLength E s = Ok ?epoch"
    using i(3) by (simp_all add: GetMaxSudoGas_def GetRebalanceEpochLength_def)
  note le = height_plus_epoch(1) [OF h, of "EpochLength p"]
  obtain t' where t': "EndBlocker E DefaultExecutionResponseHandler s = (Ok (), t')"
    "height t' = height s" "GetParams E t' = GetParams E s" "wfTasks E t'"
    "\<And>tp h c. taskAt E t' tp h c =
      (if tp = SchedulerTaskValsetUpdate \<or> tp = SchedulerTaskHandleEpoch then
        (if h \<le> height s then None
         else if ?epoch \<noteq> 0 \<and> h = height s + ?epoch \<and> (\<exists>h0 \<le> height s. taskAt E s tp h0 c = Some True)
         then Some True else taskAt E s tp h c)
       else taskAt E s tp h c)"
    by (rule EndBlocker_eq [OF wasmRuns_goodSudo [OF assms(2)] i(2) params le]) (rule that; assumption)
  have t: "t' = t" using ok t'(1) by simp
  have kept: "keptByRuns (limitOf E s) (totalOf E s) t"
    by (rule EndBlocker_keeps(1) [OF assms(2) params(1) i(2) le params(2) ok])
      (simp add: keptByRuns_def i)
  have "totalCaps E t = totalCaps E s"
    by (rule totalCaps_cong) (use kept in \<open>simp add: keptByRuns_def\<close>)
  moreover have "totalCaps E (t\<lparr>height := height t + 1, blockTime := bt\<rparr>) = totalCaps E t"
    by (rule totalCaps_cong) (simp add: amountAt_def)
  moreover have "tasksAhead E (t\<lparr>height := height t + 1, blockTime := bt\<rparr>)"
  proof (rule tasksAheadI)
    fix tp h' c r assume "taskAt E (t\<lparr>height := height t + 1, blockTime := bt\<rparr>) tp h' c = Some r"
    then have at: "taskAt E t' tp h' c = Some r"
      by (simp add: taskAt_def t)
    then have tp: "tp = SchedulerTaskHandleEpoch \<or> tp = SchedulerTaskValsetUpdate"
      using t'(5) [of tp h' c] tasksAheadD(1) [OF i(4)] by (auto split: if_splits)
    then have "height s < h'"
      using at t'(5) [of tp h' c] by (auto simp: not_le split: if_splits)
    then show "(tp = SchedulerTaskHandleEpoch \<or> tp = SchedulerTaskValsetUpdate) \<and>
        height (t\<lparr>height := height t + 1, blockTime := bt\<rparr>) \<le> h'"
      using tp height_plus_epoch(3) [OF h, of h'] t'(2) by (simp add: t)
  qed
  ultimately show ?thesis
    using inv kept t'(2-4) unfolding t
    by (simp add: meshInv_def keptByRuns_def wfAmounts_def wfTasks_def wfOps_def GetParams_def)
qed

theorem mesh_step_inv:
  assumes "meshInv E p L s" and "TotalContractsMaxCap p = Coin d (Some L)" and "wasmRuns E"
    and "mesh_step E s t"
  shows "meshInv E p L t"
  using assms(4)
proof cases
  case contract
  then show ?thesis by (rule meshInv_contract [OF assms(1)])
next
  case (set_cap req u)
  then show ?thesis by (rule meshInv_set_cap [OF assms(1,2)])
next
  case (valset op val si u)
  then show ?thesis using meshInv_valset [OF assms(1)] by blast
next
  case (end_block u t' bt)
  then show ?thesis using meshInv_end_block [OF assms(1,3)] by blast
qed

theorem reachable_inv:
  assumes "mesh_reachable E p s" and "TotalContractsMaxCap p = Coin d (Some L)" and "0 \<le> L"
    and "wasmRuns E"
  shows "meshInv E p L s"
  using assms(1)
proof induction
  case (genesis s u t)
  then show ?case
    by (rule genesis_meshInv [OF _ _ assms(3)]) (simp add: setCap_def assms(2))
next
  case (step s t)
  then show ?case using mesh_step_inv assms(2,4) by blast
qed

end

end
