(* ===== verification/Provider.thy ===== *)
theory Provider
  imports Params
begin

text \<open>
  The provider module \<open>x/meshsecurityprovider\<close>: its parameters, which have no field yet,
  its genesis and its two messages. The keeper is the module's store, a codec and an authority.
  The lemmas show who may update the parameters and that exported genesis is what was
  imported.
\<close>

datatype provider_params = ProviderParams

record provider_keeper =
  p_authority :: string
  p_Marshal :: "provider_params \<Rightarrow> bytes result"
  p_Unmarshal :: "bytes \<Rightarrow> provider_params result"

definition ProviderParamsKey :: bytes where "ProviderParamsKey = [2]"

definition NewProviderKeeper :: "(provider_params \<Rightarrow> bytes result) \<Rightarrow>
    (bytes \<Rightarrow> provider_params result) \<Rightarrow> string \<Rightarrow> provider_keeper" where
  "NewProviderKeeper marshal unmarshal auth =
     \<lparr>p_authority = auth, p_Marshal = marshal, p_Unmarshal = unmarshal\<rparr>"

definition ProviderGetAuthority :: "provider_keeper \<Rightarrow> string" where
  "ProviderGetAuthority k = p_authority k"

definition NewProviderParams :: provider_params where "NewProviderParams = ProviderParams"

definition DefaultProviderParams :: provider_params where "DefaultProviderParams = ProviderParams"

definition ProviderParams_Validate :: "provider_params \<Rightarrow> unit result" where
  "ProviderParams_Validate p = Ok ()"

definition ProviderSetParams ::
    "('s, 'x) sdk \<Rightarrow> provider_keeper \<Rightarrow> provider_params \<Rightarrow> (('s, 'x) chain, unit) act" where
  "ProviderSetParams E k params =
     bindA (liftR (ProviderParams_Validate params)) (\<lambda>_.
     bindA (liftR (p_Marshal k params)) (\<lambda>bz.
     storeSet E ProviderParamsKey bz))"

definition ProviderGetParams ::
    "('s, 'x) sdk \<Rightarrow> provider_keeper \<Rightarrow> ('s, 'x) chain \<Rightarrow> provider_params result" where
  "ProviderGetParams E k ctx =
     (case kv_Get E (store ctx) ProviderParamsKey of
        None \<Rightarrow> Ok ProviderParams
      | Some bz \<Rightarrow> mustR (p_Unmarshal k bz))"

record provider_genesis =
  pg_Params :: provider_params

definition DefaultProviderGenesis :: provider_genesis where
  "DefaultProviderGenesis = \<lparr>pg_Params = DefaultProviderParams\<rparr>"

definition ProviderGenesis_Validate :: "provider_genesis \<Rightarrow> unit result" where
  "ProviderGenesis_Validate gs = bindR (ProviderParams_Validate (pg_Params gs)) (\<lambda>_. Ok ())"

text \<open>The error of \<open>SetParams\<close> is not looked at.\<close>

definition ProviderInitGenesis ::
    "('s, 'x) sdk \<Rightarrow> provider_keeper \<Rightarrow> provider_genesis \<Rightarrow> (('s, 'x) chain, unit) act" where
  "ProviderInitGenesis E k genState =
     bindA (liftR (mustR (ProviderGenesis_Validate genState))) (\<lambda>_.
     bindA (caught (ProviderSetParams E k (pg_Params genState))) (\<lambda>_. ret ()))"

definition ProviderExportGenesis ::
    "('s, 'x) sdk \<Rightarrow> provider_keeper \<Rightarrow> ('s, 'x) chain \<Rightarrow> provider_genesis result" where
  "ProviderExportGenesis E k ctx = bindR (ProviderGetParams E k ctx) (\<lambda>p. Ok \<lparr>pg_Params = p\<rparr>)"

section \<open>Messages\<close>

record MsgUpdateParams =
  up_Authority :: string
  up_Params :: provider_params

record MsgTest =
  test_Sender :: string

definition UpdateParams ::
    "('s, 'x) sdk \<Rightarrow> provider_keeper \<Rightarrow> MsgUpdateParams \<Rightarrow> (('s, 'x) chain, unit) act" where
  "UpdateParams E k msg =
     (if p_authority k \<noteq> up_Authority msg then fail ErrInvalidSigner else
      bindA (ProviderSetParams E k (up_Params msg)) (\<lambda>_. ret ()))"

definition MsgServer_Test :: "MsgTest \<Rightarrow> (('s, 'x) chain, unit) act" where
  "MsgServer_Test msg = ret ()"

definition MsgTest_ValidateBasic :: "('s, 'x) sdk \<Rightarrow> MsgTest \<Rightarrow> unit result" where
  "MsgTest_ValidateBasic E msg =
     (case AccAddressFromBech32 E (test_Sender msg) of
        Err e \<Rightarrow> Err ErrInvalidAddress | Panic \<Rightarrow> Panic | Ok _ \<Rightarrow> Ok ())"

definition MsgTest_GetSigners :: "('s, 'x) sdk \<Rightarrow> MsgTest \<Rightarrow> address list result" where
  "MsgTest_GetSigners E msg =
     bindR (mustR (AccAddressFromBech32 E (test_Sender msg))) (\<lambda>sender. Ok [sender])"

section \<open>Lemmas\<close>

lemma UpdateParams_authority:
  "p_authority k \<noteq> up_Authority msg \<Longrightarrow> UpdateParams E k msg s = (Err ErrInvalidSigner, s)"
  by (simp add: UpdateParams_def act_simps)

text \<open>A message that passes validation has a signer, and the other way round.\<close>

lemma MsgTest_signers:
  "MsgTest_ValidateBasic E msg = Ok () \<longleftrightarrow> (\<exists>a. MsgTest_GetSigners E msg = Ok [a])"
  by (cases "AccAddressFromBech32 E (test_Sender msg)")
    (simp_all add: MsgTest_ValidateBasic_def MsgTest_GetSigners_def)

context mesh_store
begin

lemma UpdateParams_Ok:
  assumes "UpdateParams E k msg s = (Ok u, t)" and "params_codec (p_Marshal k) (p_Unmarshal k) (\<lambda>_. True)"
  shows "p_authority k = up_Authority msg" and "ProviderGetParams E k t = Ok (up_Params msg)"
    and "key \<noteq> ProviderParamsKey \<Longrightarrow> kv_Get E (store t) key = kv_Get E (store s) key"
  using assms(1) params_codec.codec_roundtrip [OF assms(2) TrueI]
  by (auto simp: UpdateParams_def ProviderSetParams_def ProviderParams_Validate_def
      ProviderGetParams_def ok_iffs act_simps get_set split: if_splits)

lemma ProviderGenesis_roundtrip:
  assumes "params_codec (p_Marshal k) (p_Unmarshal k) (\<lambda>_. True)"
    and "p_Marshal k (pg_Params gs) = Ok bz"
  obtains t where "ProviderInitGenesis E k gs s = (Ok (), t)"
    and "ProviderExportGenesis E k t = Ok gs"
proof -
  let ?t = "s\<lparr>store := kv_Set E (store s) ProviderParamsKey bz\<rparr>"
  have "ProviderInitGenesis E k gs s = (Ok (), ?t)"
    using assms(2) by (simp add: ProviderInitGenesis_def ProviderGenesis_Validate_def
        ProviderParams_Validate_def ProviderSetParams_def act_simps bindA_def caught_def)
  moreover have "ProviderExportGenesis E k ?t = Ok gs"
    using params_codec.codec_roundtrip [OF assms(1) TrueI assms(2)]
    by (simp add: ProviderExportGenesis_def ProviderGetParams_def get_set)
  ultimately show thesis by (rule that)
qed

end

end
