(* ===== verification/App.thy ===== *)
theory App
  imports Handlers EndBlock
begin

text \<open>
  The demo chain's wiring (\<open>demo/app/app.go\<close>, \<open>demo/app/ante.go\<close>,
  \<open>demo/app/upgrades.go\<close>): the chain of message handlers that contracts talk to, the module
  lists that fix the order of genesis and of the blocks, the module accounts, the ante handler
  and the parameter tables. The SDK's handler chain is a parameter with its laws as a locale.
  The lemmas show how a contract message travels, that no module is forgotten or doubled in
  an order, and which accounts cannot receive funds.
\<close>

section \<open>Names\<close>

text \<open>
  The constants \<open>ModuleName\<close> and \<open>SubModuleName\<close> of the packages the application imports;
  their values are pairwise different strings.
\<close>

datatype app_module =
    MAuth | MGenutil | MBank | MCapability | MStaking | MMint | MDistr | MGov | MParams | MCrisis
  | MSlashing | MFeegrant | MUpgrade | MEvidence | MAuthz | MGroup | MVesting | MNft | MConsensus
  | MWasm | MIBC | MIBCTm | MTransfer | MICA | MICAHost | MICAController | MIBCFee | MMeshsec | MBaseapp

text \<open>Names of module accounts: three pools besides the modules' own.\<close>

datatype module_account = FeeCollector | BondedPool | NotBondedPool | ModuleAccount app_module

datatype permission = Minter | Burner | Staking

section \<open>Modules and their orders\<close>

definition ModuleBasics :: "app_module list" where
  "ModuleBasics = [MAuth, MGenutil, MBank, MCapability, MStaking, MMint, MDistr, MGov, MParams, MCrisis,
     MSlashing, MFeegrant, MUpgrade, MEvidence, MAuthz, MGroup, MVesting, MNft, MConsensus,
     MWasm, MIBC, MIBCTm, MTransfer, MICA, MIBCFee, MMeshsec]"

definition ModuleManager :: "app_module list" where
  "ModuleManager = [MGenutil, MAuth, MVesting, MBank, MCapability, MFeegrant, MGov, MMint, MSlashing,
     MDistr, MStaking, MUpgrade, MEvidence, MParams, MAuthz, MGroup, MNft, MConsensus, MWasm, MIBC,
     MTransfer, MIBCFee, MICA, MMeshsec, MCrisis]"

definition OrderBeginBlockers :: "app_module list" where
  "OrderBeginBlockers = [MUpgrade, MCapability, MMint, MDistr, MSlashing, MEvidence, MStaking,
     MAuth, MBank, MGov, MCrisis, MGenutil, MAuthz, MFeegrant, MNft, MGroup, MParams, MVesting,
     MConsensus, MTransfer, MIBC, MICA, MIBCFee, MWasm, MMeshsec]"

definition OrderEndBlockers :: "app_module list" where
  "OrderEndBlockers = [MCrisis, MGov, MStaking, MCapability, MAuth, MBank, MDistr, MSlashing, MMint,
     MGenutil, MEvidence, MAuthz, MFeegrant, MNft, MGroup, MParams, MUpgrade, MVesting, MConsensus,
     MTransfer, MIBC, MICA, MIBCFee, MWasm, MMeshsec]"

definition genesisModuleOrder :: "app_module list" where
  "genesisModuleOrder = [MCapability, MAuth, MBank, MDistr, MStaking, MSlashing, MGov, MMint, MCrisis,
     MGenutil, MEvidence, MAuthz, MFeegrant, MNft, MGroup, MParams, MUpgrade, MVesting, MConsensus,
     MTransfer, MIBC, MICA, MIBCFee, MWasm, MMeshsec]"

text \<open>\<open>before xs a b\<close>: \<open>b\<close> stands after the first \<open>a\<close> of the list.\<close>

fun before :: "'a list \<Rightarrow> 'a \<Rightarrow> 'a \<Rightarrow> bool" where
  "before [] a b = False"
| "before (x # xs) a b = (if x = a then b \<in> set xs else before xs a b)"

lemma orders_distinct:
  "distinct ModuleManager" "distinct OrderBeginBlockers" "distinct OrderEndBlockers"
  "distinct genesisModuleOrder" "distinct ModuleBasics"
  by code_simp+

lemma orders_complete:
  "set OrderBeginBlockers = set ModuleManager" "set OrderEndBlockers = set ModuleManager"
  "set genesisModuleOrder = set ModuleManager" "set ModuleManager \<subseteq> set ModuleBasics"
  by code_simp+

text \<open>What the comments on the orders ask for.\<close>

lemma orders_constraints:
  "last ModuleManager = MCrisis" "last OrderEndBlockers = MMeshsec" "hd genesisModuleOrder = MCapability"
  "before genesisModuleOrder MAuth MGenutil" "before genesisModuleOrder MStaking MGenutil"
  "before genesisModuleOrder MTransfer MWasm" "before OrderBeginBlockers MDistr MSlashing"
  "before OrderBeginBlockers MCapability MIBC"
  by code_simp+

section \<open>Module accounts\<close>

definition maccPerms :: "(module_account \<times> permission list) list" where
  "maccPerms = [(FeeCollector, []), (ModuleAccount MDistr, []), (ModuleAccount MMint, [Minter]),
     (BondedPool, [Burner, Staking]), (NotBondedPool, [Burner, Staking]),
     (ModuleAccount MGov, [Burner]), (ModuleAccount MNft, []),
     (ModuleAccount MTransfer, [Minter, Burner]), (ModuleAccount MIBCFee, []),
     (ModuleAccount MICA, []), (ModuleAccount MWasm, [Burner]),
     (ModuleAccount MMeshsec, [Minter, Burner])]"

text \<open>A range over a Go map visits its entries in some order; both loops give the same map in any.\<close>

definition GetMaccPerms :: "module_account \<rightharpoonup> permission list" where
  "GetMaccPerms = fold (\<lambda>(k, v) dup. dup(k \<mapsto> v)) maccPerms Map.empty"

definition BlockedAddresses :: "(module_account \<Rightarrow> string) \<Rightarrow> string \<rightharpoonup> bool" where
  "BlockedAddresses NewModuleAddress =
     (fold (\<lambda>(acc, _) m. m(NewModuleAddress acc \<mapsto> True)) maccPerms Map.empty)
       (NewModuleAddress (ModuleAccount MGov) := None)"

lemma fold_upd_dom:
  "fold (\<lambda>(k, _) m. m(f k \<mapsto> True)) es m0 a = (if a \<in> f ` fst ` set es then Some True else m0 a)"
  by (induction es arbitrary: m0) auto

lemma BlockedAddresses_iff:
  assumes "inj NewModuleAddress"
  shows "BlockedAddresses NewModuleAddress (NewModuleAddress acc) =
    (if acc \<in> fst ` set maccPerms \<and> acc \<noteq> ModuleAccount MGov then Some True else None)"
proof -
  have "NewModuleAddress acc \<in> NewModuleAddress ` fst ` set maccPerms \<longleftrightarrow> acc \<in> fst ` set maccPerms"
    using assms by (simp add: inj_image_mem_iff)
  then show ?thesis
    using assms by (simp add: BlockedAddresses_def fold_upd_dom inj_eq)
qed

section \<open>Contract messages\<close>

type_synonym ('s, 'x) messenger =
  "address \<Rightarrow> string \<Rightarrow> cosmos_msg \<Rightarrow> (('s, 'x) chain, event list) act"

text \<open>
  The chain's message handlers: the integrity handler, the wasm module's own, and the custom
  message handler; \<open>chain\<close> is wasmd's \<open>NewMessageHandlerChain\<close>.
\<close>

definition meshMessageHandler :: "(('s, 'x) messenger list \<Rightarrow> ('s, 'x) messenger) \<Rightarrow>
    ('s, 'x) sdk \<Rightarrow> ('s, 'x) messenger \<Rightarrow> ('s, 'x) messenger" where
  "meshMessageHandler chain MeshSecKeeper nested = chain
     [NewIntegrityHandler (HasMaxCapLimit MeshSecKeeper),
      nested,
      DispatchMsg MeshSecKeeper (NewDefaultCustomMsgHandler MeshSecKeeper)]"

text \<open>
  A handler chain asks its handlers in order; the first one whose answer is not "unknown
  message" decides, and the end of the chain is an unknown message.
\<close>

locale message_chain =
  fixes chain :: "('s, 'x) messenger list \<Rightarrow> ('s, 'x) messenger"
  assumes chain_nil: "chain [] c port msg s = (Err ErrUnknownMsg, s)"
    and chain_cons: "chain (h # hs) c port msg s =
      (if fst (h c port msg s) = Err ErrUnknownMsg then chain hs c port msg (snd (h c port msg s))
       else h c port msg s)"
begin

lemma mesh_flow:
  assumes "HasMaxCapLimit E s c \<longleftrightarrow> limitOf E s c \<noteq> None"
  shows "meshMessageHandler chain E nested c port msg s =
    (if (msg_Stargate msg \<or> msg_Staking msg) \<and> limitOf E s c \<noteq> None then (Err ErrUnsupported, s)
     else (case nested c port msg s of (r, t) \<Rightarrow>
       if r = Err ErrUnknownMsg then DispatchMsg E (NewDefaultCustomMsgHandler E) c port msg t
       else (r, t)))"
proof -
  have "NewIntegrityHandler (HasMaxCapLimit E) c port msg s =
    (if (msg_Stargate msg \<or> msg_Staking msg) \<and> limitOf E s c \<noteq> None then (Err ErrUnsupported, s)
     else (Err ErrUnknownMsg, s))"
    using assms by (auto simp: NewIntegrityHandler_def act_simps)
  moreover have "chain [h] c port msg t = h c port msg t" for h t
    by (cases "h c port msg t") (auto simp: chain_cons chain_nil)
  ultimately show ?thesis
    by (auto simp: meshMessageHandler_def chain_cons split: prod.splits)
qed

end

section \<open>The ante handler\<close>

text \<open>Pointers and interfaces of the options: set or nil.\<close>

record ante_options =
  opt_AccountKeeper :: bool
  opt_BankKeeper :: bool
  opt_SignModeHandler :: bool
  opt_WasmConfig :: bool
  opt_TXCounterStoreKey :: bool

datatype ante_decorator =
    SetUpContext | LimitSimulationGas | CountTX | ExtensionOptions | ValidateBasicTx | TxTimeoutHeight
  | ValidateMemo | ConsumeGasForTxSize | DeductFee | SetPubKey | ValidateSigCount | SigGasConsume
  | SigVerification | IncrementSequence | RedundantRelay

definition NewAnteHandler :: "ante_options \<Rightarrow> ante_decorator list result" where
  "NewAnteHandler options =
     (if \<not> opt_AccountKeeper options then Err (ErrOther ''account keeper is required for AnteHandler'')
      else if \<not> opt_BankKeeper options then Err (ErrOther ''bank keeper is required for AnteHandler'')
      else if \<not> opt_SignModeHandler options then Err (ErrOther ''sign mode handler is required for ante builder'')
      else if \<not> opt_WasmConfig options then Err (ErrOther ''wasm config is required for ante builder'')
      else if \<not> opt_TXCounterStoreKey options then Err (ErrOther ''tx counter key is required for ante builder'')
      else Ok [SetUpContext, LimitSimulationGas, CountTX, ExtensionOptions, ValidateBasicTx,
        TxTimeoutHeight, ValidateMemo, ConsumeGasForTxSize, DeductFee, SetPubKey, ValidateSigCount,
        SigGasConsume, SigVerification, IncrementSequence, RedundantRelay])"

lemma NewAnteHandler_Ok:
  assumes "NewAnteHandler options = Ok ds"
  shows "hd ds = SetUpContext" and "before ds SetPubKey SigVerification"
    and "before ds SigVerification IncrementSequence" and "distinct ds"
  using assms by (auto simp: NewAnteHandler_def split: if_splits)

section \<open>Parameter tables and store upgrades\<close>

definition initParamsKeeper :: "app_module list" where
  "initParamsKeeper = [MAuth, MBank, MStaking, MMint, MDistr, MSlashing, MGov, MCrisis, MTransfer,
     MIBC, MICAHost, MICAController, MWasm, MMeshsec]"

text \<open>A parameter subspace, and the owner of the key table it was given.\<close>

record subspace =
  ss_Name :: app_module
  ss_KeyTable :: "app_module option"

definition paramKeyTable :: "app_module \<Rightarrow> app_module option" where
  "paramKeyTable name = (if name \<in> {MAuth, MBank, MStaking, MMint, MDistr, MSlashing, MGov, MCrisis,
     MTransfer, MICAHost, MICAController, MWasm} then Some name else None)"

definition setKeyTable :: "subspace \<Rightarrow> subspace" where
  "setKeyTable ss = (case paramKeyTable (ss_Name ss) of
      None \<Rightarrow> ss
    | Some keyTable \<Rightarrow> if ss_KeyTable ss = None then ss\<lparr>ss_KeyTable := Some keyTable\<rparr> else ss)"

definition UpgradeName :: string where "UpgradeName = ''v046-to-v047''"

text \<open>
  The store loader of an upgrade: its height and the added stores, when the upgrade on disk is
  this one and its height is not skipped; an error reading it panics.
\<close>

definition storeLoader :: "(string \<times> u64) result \<Rightarrow> (u64 \<Rightarrow> bool) \<Rightarrow>
    (u64 \<times> app_module list) option result" where
  "storeLoader readUpgradeInfo isSkipHeight =
     bindR (mustR readUpgradeInfo) (\<lambda>(name, h).
     Ok (if name = UpgradeName \<and> \<not> isSkipHeight h then Some (h, [MConsensus, MCrisis]) else None))"

text \<open>
  All of it: every subspace without a key table gets its module's, the base application's
  subspace is made (a taken name panics), and the store loader is set. The handler of the
  upgrade moves the consensus parameters and runs the module manager's migrations.
\<close>

definition RegisterUpgradeHandlers :: "subspace list \<Rightarrow> (string \<times> u64) result \<Rightarrow> (u64 \<Rightarrow> bool) \<Rightarrow>
    (subspace list \<times> (u64 \<times> app_module list) option) result" where
  "RegisterUpgradeHandlers subspaces readUpgradeInfo isSkipHeight =
     (if MBaseapp \<in> ss_Name ` set subspaces then Panic else
      bindR (storeLoader readUpgradeInfo isSkipHeight) (\<lambda>loader.
      Ok (map setKeyTable subspaces @ [\<lparr>ss_Name = MBaseapp, ss_KeyTable = Some MConsensus\<rparr>], loader)))"

definition upgradeHandler :: "('w, unit) act \<Rightarrow> ('m \<Rightarrow> ('w, 'm) act) \<Rightarrow> 'm \<Rightarrow> ('w, 'm) act" where
  "upgradeHandler migrateParams runMigrations fromVM =
     bindA migrateParams (\<lambda>_. runMigrations fromVM)"

lemma setKeyTable_name [simp]: "ss_Name (setKeyTable ss) = ss_Name ss"
  by (simp add: setKeyTable_def split: option.split)

text \<open>A table that is set stays; among the application's subspaces two get none.\<close>

lemma setKeyTable_keeps: "ss_KeyTable ss = Some t \<Longrightarrow> ss_KeyTable (setKeyTable ss) = Some t"
  by (simp add: setKeyTable_def split: option.split)

lemma key_tables:
  "map ss_Name (filter (\<lambda>ss. ss_KeyTable ss = None)
     (map (\<lambda>name. setKeyTable \<lparr>ss_Name = name, ss_KeyTable = None\<rparr>) initParamsKeeper)) = [MIBC, MMeshsec]"
  by code_simp

lemma RegisterUpgradeHandlers_Ok:
  assumes "RegisterUpgradeHandlers sss info skip = Ok (sss', loader)"
  obtains name h where "info = Ok (name, h)" and "MBaseapp \<notin> ss_Name ` set sss"
    and "map ss_Name sss' = map ss_Name sss @ [MBaseapp]"
    and "loader = (if name = UpgradeName \<and> \<not> skip h then Some (h, [MConsensus, MCrisis]) else None)"
  using assms by (auto simp: RegisterUpgradeHandlers_def storeLoader_def mustR_def comp_def
      split: if_splits result.splits)

section \<open>The application's blocks\<close>

text \<open>
  \<open>InitChainer\<close>, over the SDK's module manager: the genesis bytes are parsed first, and the
  version map is recorded before any module's genesis runs.
\<close>

definition InitChainer :: "(bytes \<Rightarrow> 'g result) \<Rightarrow> ('w, unit) act \<Rightarrow> ('g \<Rightarrow> ('w, 'r) act) \<Rightarrow> bytes \<Rightarrow>
    ('w, 'r) act" where
  "InitChainer unmarshal setModuleVersionMap managerInitGenesis appStateBytes =
     bindA (liftR (mustR (unmarshal appStateBytes))) (\<lambda>genesisState.
     bindA setModuleVersionMap (\<lambda>_.
     managerInitGenesis genesisState))"

lemma InitChainer_bad: "(\<And>g. unmarshal bz \<noteq> Ok g) \<Longrightarrow> InitChainer unmarshal v i bz s = (Panic, s)"
  by (cases "unmarshal bz") (auto simp: InitChainer_def act_simps)

end
