(* ===== verification/Reference.thy ===== *)
theory Reference
  imports Machine Provider App
begin

text \<open>
  A reference environment: small executable stand-ins for the SDK's store, numbers, coins,
  addresses, codec and keepers, which satisfy the laws of theory \<open>Sdk\<close> and of the
  components' collaborators. The interpretations show that the laws can hold together, and the
  witnesses of the properties run the modelled code in this environment.
\<close>

section \<open>The store\<close>

type_synonym ref_store = "(bytes \<times> bytes) list"

definition ref_Set :: "ref_store \<Rightarrow> bytes \<Rightarrow> bytes \<Rightarrow> ref_store" where
  "ref_Set s k v = (k, v) # s"

definition ref_Delete :: "ref_store \<Rightarrow> bytes \<Rightarrow> ref_store" where
  "ref_Delete s k = filter (\<lambda>e. fst e \<noteq> k) s"

definition ref_Iterator :: "ref_store \<Rightarrow> bytes \<Rightarrow> (bytes \<times> bytes) list" where
  "ref_Iterator s p = map (\<lambda>k. (k, the (map_of s (p @ k))))
     (sort (remdups (map (\<lambda>e. drop (length p) (fst e))
       (filter (\<lambda>e. take (length p) (fst e) = p) s))))"

lemma map_of_ref_Delete: "map_of (ref_Delete s k) k' = (if k' = k then None else map_of s k')"
  by (induction s) (auto simp: ref_Delete_def)

lemma ref_keys:
  "k \<in> set (map (\<lambda>e. drop (length p) (fst e)) (filter (\<lambda>e. take (length p) (fst e) = p) s))
     \<longleftrightarrow> map_of s (p @ k) \<noteq> None"
proof -
  have "k \<in> set (map (\<lambda>e. drop (length p) (fst e)) (filter (\<lambda>e. take (length p) (fst e) = p) s))
      \<longleftrightarrow> (\<exists>k' \<in> fst ` set s. take (length p) k' = p \<and> k = drop (length p) k')"
    by auto
  also have "\<dots> \<longleftrightarrow> p @ k \<in> fst ` set s"
  proof
    assume "\<exists>k' \<in> fst ` set s. take (length p) k' = p \<and> k = drop (length p) k'"
    then show "p @ k \<in> fst ` set s"
      by (metis append_take_drop_id)
  qed force
  finally show ?thesis
    by (simp add: map_of_eq_None_iff)
qed

lemma ref_kv_store: "kv_store map_of (\<lambda>s k. map_of s k \<noteq> None) ref_Set ref_Delete ref_Iterator"
proof
  fix s :: ref_store and p k v
  have "(k, v) \<in> set (ref_Iterator s p) \<longleftrightarrow> map_of s (p @ k) \<noteq> None \<and> v = the (map_of s (p @ k))"
    using ref_keys [of k p s] unfolding ref_Iterator_def by auto
  then show "(k, v) \<in> set (ref_Iterator s p) \<longleftrightarrow> map_of s (p @ k) = Some v"
    by auto
  show "sorted_wrt (<) (map fst (ref_Iterator s p))"
    by (simp add: ref_Iterator_def comp_def strict_sorted_iff)
qed (simp_all add: ref_Set_def map_of_ref_Delete)

section \<open>Numbers\<close>

text \<open>Integers are written in decimal.\<close>

definition digitChar :: "nat \<Rightarrow> char" where
  "digitChar d = char_of (48 + d)"

definition digitVal :: "char \<Rightarrow> nat option" where
  "digitVal c = (let n = of_char c in if 48 \<le> n \<and> n \<le> 57 then Some (n - 48) else None)"

function decRev :: "int \<Rightarrow> string" where
  "decRev n = (if n < 10 then [digitChar (nat n)] else digitChar (nat (n mod 10)) # decRev (n div 10))"
  by pat_completeness auto
termination
  by (relation "measure nat") (auto simp: nat_less_iff intro: int_div_less_self)

declare decRev.simps [simp del]

fun parseRev :: "string \<Rightarrow> int option" where
  "parseRev [] = None"
| "parseRev [c] = map_option int (digitVal c)"
| "parseRev (c # cs) = (case digitVal c of None \<Rightarrow> None | Some d \<Rightarrow>
     (case parseRev cs of None \<Rightarrow> None | Some n \<Rightarrow> Some (int d + 10 * n)))"

definition ref_IntString :: "int \<Rightarrow> string" where
  "ref_IntString n = (if n < 0 then CHR ''-'' # rev (decRev (- n)) else rev (decRev n))"

definition ref_IntParse :: "string \<Rightarrow> int option" where
  "ref_IntParse s = (case s of
      [] \<Rightarrow> None
    | c # cs \<Rightarrow> if c = CHR ''-'' then map_option uminus (parseRev (rev cs))
                else parseRev (rev s))"

lemma digitVal_digitChar: "d < 10 \<Longrightarrow> digitVal (digitChar d) = Some d"
  by (simp add: digitVal_def digitChar_def)

lemma digitChar_minus: "d < 10 \<Longrightarrow> digitChar d \<noteq> CHR ''-''"
  using digitVal_digitChar [of d] by (auto simp: digitVal_def)

lemma decRev_nonempty: "decRev n \<noteq> []"
  by (simp add: decRev.simps [of n])

lemma parseRev_decRev: "0 \<le> n \<Longrightarrow> parseRev (decRev n) = Some n"
proof (induction n rule: decRev.induct)
  case (1 n)
  show ?case
  proof (cases "n < 10")
    case True
    with 1 show ?thesis by (simp add: decRev.simps [of n] digitVal_digitChar)
  next
    case False
    obtain c cs where "decRev (n div 10) = c # cs"
      using decRev_nonempty [of "n div 10"] by (cases "decRev (n div 10)") auto
    with False 1 show ?thesis
      by (simp add: decRev.simps [of n] digitVal_digitChar)
  qed
qed

lemma decRev_minus: "0 \<le> n \<Longrightarrow> CHR ''-'' \<notin> set (decRev n)"
proof (induction n rule: decRev.induct)
  case (1 n)
  have "n < 10 \<Longrightarrow> nat n < 10" "nat (n mod 10) < 10"
    using 1(2) by (simp_all add: nat_less_iff)
  then show ?case
    using 1 digitChar_minus [of "nat n"] digitChar_minus [of "nat (n mod 10)"]
    by (cases "n < 10") (auto simp: decRev.simps [of n])
qed

lemma ref_IntParse_String [simp]: "ref_IntParse (ref_IntString n) = Some n"
proof (cases "n < 0")
  case True
  then show ?thesis
    by (simp add: ref_IntString_def ref_IntParse_def parseRev_decRev)
next
  case False
  obtain c cs where c: "rev (decRev n) = c # cs"
    using decRev_nonempty [of n] by (cases "rev (decRev n)") auto
  moreover have "c \<noteq> CHR ''-''"
    using decRev_minus [of n] False c by (metis list.set_intros(1) not_le set_rev)
  moreover have "parseRev (rev (c # cs)) = Some n"
    using parseRev_decRev [of n] False by (simp flip: c)
  ultimately show ?thesis
    using False by (simp add: ref_IntString_def ref_IntParse_def)
qed

lemma decRev_length: "n < 10 ^ Suc k \<Longrightarrow> length (decRev n) \<le> Suc k"
proof (induction k arbitrary: n)
  case 0
  then show ?case by (simp add: decRev.simps [of n])
next
  case (Suc k)
  then have "n div 10 < 10 ^ Suc k"
    by simp
  with Suc.IH [of "n div 10"] show ?case
    by (simp add: decRev.simps [of n])
qed

lemma ref_IntString_length: "int256 n \<Longrightarrow> ref_IntString n \<noteq> [] \<and> length (ref_IntString n) \<le> 79"
  using decRev_length [of n 77] decRev_length [of "- n" 77] decRev_nonempty [of n]
  by (auto simp: ref_IntString_def int256_def)

section \<open>Coins and decimals\<close>

definition ref_denom :: "string \<Rightarrow> bool" where
  "ref_denom d \<longleftrightarrow> d \<noteq> []"

definition ref_IntAdd :: "int \<Rightarrow> int \<Rightarrow> int result" where
  "ref_IntAdd a b = (if int256 (a + b) then Ok (a + b) else Panic)"

definition ref_IntMarshal :: "int option \<Rightarrow> bytes result" where
  "ref_IntMarshal a = Ok (bytes_of_string (ref_IntString (case a of None \<Rightarrow> 0 | Some n \<Rightarrow> n)))"

definition ref_IntUnmarshal :: "bytes \<Rightarrow> int result" where
  "ref_IntUnmarshal bz = (case ref_IntParse (string_of_bytes bz) of
     Some n \<Rightarrow> Ok n | None \<Rightarrow> Err (ErrOther ''int''))"

definition ref_NewCoin :: "string \<Rightarrow> int option \<Rightarrow> coin result" where
  "ref_NewCoin d a = (case a of
     Some n \<Rightarrow> if ref_denom d \<and> 0 \<le> n then Ok (Coin d (Some n)) else Panic | None \<Rightarrow> Panic)"

definition ref_coinOp :: "(int \<Rightarrow> int \<Rightarrow> 'a result) \<Rightarrow> coin \<Rightarrow> coin \<Rightarrow> 'a result" where
  "ref_coinOp f c c' = (if denom c \<noteq> denom c' then Panic else
     bindR (nonNil (amount c)) (\<lambda>a. bindR (nonNil (amount c')) (\<lambda>b. f a b)))"

definition ref_CoinValidate :: "coin \<Rightarrow> unit result" where
  "ref_CoinValidate c = (case amount c of
     Some n \<Rightarrow> if ref_denom (denom c) \<and> 0 \<le> n then Ok () else Err (ErrOther ''coin'')
   | None \<Rightarrow> Err (ErrOther ''coin''))"

fun ref_AmountOf :: "coins \<Rightarrow> string \<Rightarrow> int" where
  "ref_AmountOf [] d = 0"
| "ref_AmountOf (c # cs) d =
     (if denom c = d then (case amount c of Some n \<Rightarrow> n | None \<Rightarrow> 0) else 0) + ref_AmountOf cs d"

definition ref_one :: dec where "ref_one = 1000000000000000000"

definition ref_Quo :: "dec \<Rightarrow> dec \<Rightarrow> dec result" where
  "ref_Quo a b = (if b = 0 then Panic else Ok (a * ref_one div b))"

definition ref_RoundInt :: "dec \<Rightarrow> int result" where
  "ref_RoundInt d = Ok ((d + ref_one div 2) div ref_one)"

section \<open>Addresses and codec\<close>

text \<open>Account addresses start with \<open>a\<close>, validator addresses with \<open>v\<close>; the rest are the bytes.\<close>

definition ref_parse :: "char \<Rightarrow> string \<Rightarrow> address result" where
  "ref_parse c s = (case s of
      [] \<Rightarrow> Err (ErrOther ''bech32'')
    | x # xs \<Rightarrow> if x = c then Ok (bytes_of_string xs) else Err (ErrOther ''bech32''))"

definition ref_LengthPrefix :: "bytes \<Rightarrow> bytes result" where
  "ref_LengthPrefix bz = (if length bz \<le> 255 then Ok (of_nat (length bz) # bz) else Panic)"

text \<open>A byte list that ends where it says so: every byte behind a 1, then a 0.\<close>

fun ref_put :: "bytes \<Rightarrow> bytes" where
  "ref_put [] = [0]"
| "ref_put (b # bs) = 1 # b # ref_put bs"

fun ref_take :: "bytes \<Rightarrow> (bytes \<times> bytes) option" where
  "ref_take [] = None"
| "ref_take [m] = (if m = 0 then Some ([], []) else None)"
| "ref_take (m # b # r) = (if m = 0 then Some ([], b # r) else
     (case ref_take r of None \<Rightarrow> None | Some (x, rest) \<Rightarrow> Some (b # x, rest)))"

lemma ref_take_put [simp]: "ref_take (ref_put x @ r) = Some (x, r)"
  by (induction x) (cases r, simp_all)

lemma ref_take_put_end [simp]: "ref_take (ref_put x) = Some (x, [])"
  using ref_take_put [of x "[]"] by simp

definition ref_MarshalParams :: "params \<Rightarrow> bytes result" where
  "ref_MarshalParams p = Ok (ref_put (Uint64ToBigEndian (ucast (EpochLength p)))
     @ ref_put (Uint64ToBigEndian (ucast (MaxGasEndBlocker p)))
     @ ref_put (bytes_of_string (denom (TotalContractsMaxCap p)))
     @ (case amount (TotalContractsMaxCap p) of None \<Rightarrow> []
        | Some n \<Rightarrow> bytes_of_string (ref_IntString n)))"

definition ref_UnmarshalParams :: "bytes \<Rightarrow> params result" where
  "ref_UnmarshalParams bz = (case ref_take bz of None \<Rightarrow> Err (ErrOther ''params'') | Some (e, bz) \<Rightarrow>
     (case ref_take bz of None \<Rightarrow> Err (ErrOther ''params'') | Some (g, bz) \<Rightarrow>
     (case ref_take bz of None \<Rightarrow> Err (ErrOther ''params'') | Some (d, bz) \<Rightarrow>
       Ok \<lparr>TotalContractsMaxCap = Coin (string_of_bytes d)
             (if bz = [] then None else ref_IntParse (string_of_bytes bz)),
           EpochLength = ucast (beFold e), MaxGasEndBlocker = ucast (beFold g)\<rparr>)))"

lemma ref_params_codec: "params_codec ref_MarshalParams ref_UnmarshalParams setCap"
proof
  fix p bz assume "setCap p" and bz: "ref_MarshalParams p = Ok bz"
  have be: "beFold (Uint64ToBigEndian n) = n" for n
    by (simp add: beFold_eq be_value_Uint64ToBigEndian)
  have id32: "ucast (ucast w :: u64) = w" for w :: u32
    by transfer simp
  have nonempty: "ref_IntString n \<noteq> []" for n
    using decRev_nonempty by (simp add: ref_IntString_def)
  have nonempty': "bytes_of_string (ref_IntString n) \<noteq> []" for n
    using nonempty [of n] by (simp add: bytes_of_string_def)
  show "ref_UnmarshalParams bz = Ok p"
    using bz nonempty'
    by (cases "amount (TotalContractsMaxCap p)")
      (auto simp: ref_MarshalParams_def ref_UnmarshalParams_def be id32
        intro!: params.equality coin.equality)
qed

definition ref_CustomMsg :: "bytes \<Rightarrow> custom_msg result" where
  "ref_CustomMsg bz =
     (if bz = [] then Err (ErrOther ''json'')
      else if length bz \<noteq> 3 then Ok \<lparr>VirtualStake = None\<rparr>
      else let coin = \<lparr>wdenom = ''stake'', wamount = ref_IntString (uint (bz ! 1))\<rparr>;
               val = CHR ''v'' # string_of_bytes [bz ! 2]
           in
           if bz ! 0 = 1 then Ok \<lparr>VirtualStake = Some
             \<lparr>Bond = Some \<lparr>bond_amount = coin, bond_validator = val\<rparr>, Unbond = None\<rparr>\<rparr>
           else if bz ! 0 = 2 then Ok \<lparr>VirtualStake = Some
             \<lparr>Bond = None, Unbond = Some \<lparr>unbond_amount = coin, unbond_validator = val\<rparr>\<rparr>\<rparr>
           else Ok \<lparr>VirtualStake = None\<rparr>)"

definition ref_CustomQuery :: "bytes \<Rightarrow> custom_query result" where
  "ref_CustomQuery bz =
     (if bz = [] then Err (ErrOther ''json'')
      else if length bz = 1 then Ok \<lparr>QVirtualStake = Some
        \<lparr>BondStatus = Some (CHR ''a'' # string_of_bytes bz), SlashRatio = False\<rparr>\<rparr>
      else Ok \<lparr>QVirtualStake = None\<rparr>)"

definition ref_Response :: "query_response \<Rightarrow> bytes result" where
  "ref_Response r = (case r of
      BondStatusResponse b \<Rightarrow> Ok (bytes_of_string (wamount (rsp_MaxCap b) @ '' '' @ wamount (rsp_Delegated b)))
    | SlashRatioResponse q \<Rightarrow> Ok (bytes_of_string (SlashFractionDowntime q)))"

definition ref_SudoMsg :: "sudo_msg \<Rightarrow> bytes result" where
  "ref_SudoMsg m = Ok [if sudo_HandleEpoch m then 1 else 2]"

section \<open>The other modules\<close>

record ref_ext =
  r_supply :: "(string \<times> int) list"
  r_offset :: "(string \<times> int) list"
  r_validators :: "(address \<times> validator) list"
  r_delegations :: "((address \<times> address) \<times> dec) list"
  r_jailed :: "address list"
  r_contracts :: "address list"
  r_broken :: "address list"
  r_calls :: "(address \<times> bytes) list"

definition sumFor :: "(string \<times> int) list \<Rightarrow> string \<Rightarrow> int" where
  "sumFor es d = sum_list (map snd (filter (\<lambda>e. fst e = d) es))"

definition ref_liquid :: "ref_ext \<Rightarrow> string \<Rightarrow> int" where
  "ref_liquid x d = sumFor (r_supply x) d + sumFor (r_offset x) d"

definition coinEntries :: "coins \<Rightarrow> (string \<times> int) list" where
  "coinEntries cs = map (\<lambda>c. (denom c, case amount c of Some n \<Rightarrow> n | None \<Rightarrow> 0)) cs"

definition ref_delegation :: "ref_ext \<Rightarrow> address \<Rightarrow> address \<Rightarrow> dec" where
  "ref_delegation x c v = (case map_of (r_delegations x) (c, v) of None \<Rightarrow> 0 | Some sh \<Rightarrow> sh)"

definition ref_StakingDelegate :: "address \<Rightarrow> int \<Rightarrow> validator \<Rightarrow> ref_ext \<Rightarrow> dec result \<times> ref_ext" where
  "ref_StakingDelegate c n v x =
     (if DelegatorShares v < 0 then (Err (ErrOther ''exchange rate''), x) else
      let val = bytes_of_string (tl (OperatorAddress v)) in
      (Ok (n * ref_one), x\<lparr>r_delegations :=
         ((c, val), ref_delegation x c val + n * ref_one) # r_delegations x\<rparr>))"

definition ref_Unbond :: "address \<Rightarrow> address \<Rightarrow> dec \<Rightarrow> ref_ext \<Rightarrow> int result \<times> ref_ext" where
  "ref_Unbond c v sh x = (Ok (sh div ref_one), x\<lparr>r_delegations :=
     ((c, v), ref_delegation x c v - sh) # r_delegations x\<rparr>)"

definition ref_ValidateUnbond :: "ref_ext \<Rightarrow> address \<Rightarrow> address \<Rightarrow> int \<Rightarrow> dec result" where
  "ref_ValidateUnbond x c v n = (case map_of (r_delegations x) (c, v) of
      None \<Rightarrow> Err ErrNoDelegation
    | Some sh \<Rightarrow> if n * ref_one \<le> sh then Ok (n * ref_one) else Err (ErrOther ''shares''))"

definition ref_Sudo :: "address \<Rightarrow> bytes \<Rightarrow> ((ref_store, ref_ext) chain, bytes) act" where
  "ref_Sudo c bz s = (if c \<in> set (r_broken (ext s)) then (Panic, s)
     else (Ok [], s\<lparr>ext := (ext s)\<lparr>r_calls := r_calls (ext s) @ [(c, bz)]\<rparr>\<rparr>))"

definition ref_base :: "(ref_store, ref_ext) sdk" where
  "ref_base = \<lparr>
     authority = ''agov'',
     kv_Get = map_of, kv_Has = (\<lambda>s k. map_of s k \<noteq> None), kv_Set = ref_Set, kv_Delete = ref_Delete,
     kv_PrefixIterator = ref_Iterator,
     Int_Add = ref_IntAdd, Int_Marshal = ref_IntMarshal, Int_Unmarshal = ref_IntUnmarshal,
     Int_String = ref_IntString, Int_FromString = ref_IntParse,
     Coin_New = ref_NewCoin,
     Coin_Add = (\<lambda>c. ref_coinOp (\<lambda>a b. if int256 (a + b)
       then Ok (Coin (denom c) (Some (a + b))) else Panic) c),
     Coin_Sub = (\<lambda>c. ref_coinOp (\<lambda>a b. if b \<le> a \<and> int256 (a - b)
       then Ok (Coin (denom c) (Some (a - b))) else Panic) c),
     Coin_IsLT = ref_coinOp (\<lambda>a b. Ok (a < b)),
     Coin_Validate = ref_CoinValidate,
     Coins_New = (\<lambda>c. Ok (if amount c = Some 0 then [] else [c])),
     Coins_AmountOf = (\<lambda>cs d. Ok (ref_AmountOf cs d)),
     Dec_Quo = ref_Quo, Dec_MulInt = (\<lambda>d n. Ok (d * n)), Dec_RoundInt = ref_RoundInt,
     Dec_String = ref_IntString,
     AccAddressFromBech32 = ref_parse (CHR ''a''), AccAddress_String = (\<lambda>a. CHR ''a'' # string_of_bytes a),
     ValAddressFromBech32 = ref_parse (CHR ''v''), ValAddress_String = (\<lambda>a. CHR ''v'' # string_of_bytes a),
     MustLengthPrefix = ref_LengthPrefix,
     cdc_MarshalParams = ref_MarshalParams, cdc_UnmarshalParams = ref_UnmarshalParams,
     json_SudoMsg = ref_SudoMsg, json_CustomMsg = ref_CustomMsg, json_CustomQuery = ref_CustomQuery,
     json_Response = ref_Response,
     ConvertWasmCoinToSdkCoin = (\<lambda>c. case ref_IntParse (wamount c) of
        Some n \<Rightarrow> Ok (Coin (wdenom c) (Some n)) | None \<Rightarrow> Err (ErrOther ''coin'')),
     ConvertSdkCoinToWasmCoin = (\<lambda>c. \<lparr>wdenom = denom c,
        wamount = ref_IntString (case amount c of Some n \<Rightarrow> n | None \<Rightarrow> 0)\<rparr>),
     bank_MintCoins = (\<lambda>m cs x. (Ok (), x\<lparr>r_supply := coinEntries cs @ r_supply x\<rparr>)),
     bank_BurnCoins = (\<lambda>m cs x. (Ok (), x\<lparr>r_supply :=
        map (\<lambda>e. (fst e, - snd e)) (coinEntries cs) @ r_supply x\<rparr>)),
     bank_SendCoinsFromAccountToModule = (\<lambda>c m cs x. (Ok (), x)),
     bank_SendCoinsFromModuleToAccount = (\<lambda>m c cs x. (Ok (), x)),
     bank_UndelegateCoinsFromModuleToAccount = (\<lambda>m c cs x. (Ok (), x)),
     bank_AddSupplyOffset = (\<lambda>d n x. (Ok (), x\<lparr>r_offset := (d, n) # r_offset x\<rparr>)),
     staking_BondDenom = (\<lambda>x. ''stake''),
     staking_GetValidator = (\<lambda>x. map_of (r_validators x)),
     staking_ValidatorByConsAddr = (\<lambda>x. map_of (r_validators x)),
     staking_GetDelegation = (\<lambda>x c v. map_of (r_delegations x) (c, v)),
     staking_ValidateUnbondAmount = ref_ValidateUnbond,
     staking_Delegate = ref_StakingDelegate,
     staking_Unbond = ref_Unbond,
     staking_InstantUndelegate = (\<lambda>c v sh x. (Ok [], x)),
     staking_Slash = (\<lambda>c h p r x. (let n = uint p * r div ref_one in if int256 n then Ok n else Panic, x)),
     staking_Jail = (\<lambda>c x. (Ok (), x\<lparr>r_jailed := c # r_jailed x\<rparr>)),
     staking_Unjail = (\<lambda>c x. (Ok (), x\<lparr>r_jailed := filter (\<lambda>d. d \<noteq> c) (r_jailed x)\<rparr>)),
     validator_GetOperator = (\<lambda>v. mustR (bindR (ref_parse (CHR ''v'') (OperatorAddress v))
       (\<lambda>a. if length a \<le> 32 then Ok a else Err (ErrOther ''address'')))),
     slashing_Tombstone = (\<lambda>c x. (Ok (), x\<lparr>r_jailed := c # r_jailed x\<rparr>)),
     slashing_SlashFractionDowntime = (\<lambda>x. ref_one div 100),
     slashing_SlashFractionDoubleSign = (\<lambda>x. ref_one div 20),
     wasm_HasContractInfo = (\<lambda>x c. c \<in> set (r_contracts x)),
     wasm_Sudo = ref_Sudo,
     gas_Metered = (\<lambda>g f s. (f s, 0))\<rparr>"

text \<open>The keeper runs on an instant undelegation built by the repository's own adapter.\<close>

definition ref_sdk :: "(ref_store, ref_ext) sdk" where
  "ref_sdk = ref_base\<lparr>staking_InstantUndelegate := InstantUndelegate ref_base\<rparr>"

lemmas ref_defs = ref_sdk_def ref_base_def

section \<open>The laws hold\<close>

interpretation ref_store: mesh_store ref_sdk
  using ref_kv_store by (simp add: mesh_store_def ref_defs)

interpretation ref_keeper: keeper ref_sdk ref_denom
proof (unfold_locales, goal_cases)
  case (1 a b)
  show ?case by (simp add: ref_defs ref_IntAdd_def)
next
  case (2 n)
  show ?case by (simp add: ref_defs ref_IntMarshal_def)
next
  case (3 n bz)
  then show ?case by (auto simp: ref_defs ref_IntMarshal_def ref_IntUnmarshal_def)
next
  case (4 d amt)
  show ?case by (simp add: ref_defs ref_NewCoin_def split: option.split)
qed (simp_all add: ref_defs ref_coinOp_def)

interpretation ref_params: mesh_params ref_sdk
  using ref_params_codec by unfold_locales (simp add: ref_defs params_codec_def)

lemma ref_AmountOf_sum: "ref_AmountOf cs d = sumFor (coinEntries cs) d"
  by (induction cs) (auto simp: sumFor_def coinEntries_def)

lemma sumFor_append [simp]: "sumFor (xs @ ys) d = sumFor xs d + sumFor ys d"
  by (simp add: sumFor_def)

lemma sumFor_neg: "sumFor (map (\<lambda>e. (fst e, - snd e)) xs) d = - sumFor xs d"
  by (induction xs) (auto simp: sumFor_def)

lemma ref_undelegate_liquid:
  "InstantUndelegate ref_base c va sh x = (Ok cs, x') \<Longrightarrow> ref_liquid x' = ref_liquid x"
  by (auto simp: InstantUndelegate_def act_simps ok_iffs ref_base_def ref_Unbond_def ref_liquid_def
      bindA_def split: option.splits result.splits)

interpretation ref_staking: virtual_staking ref_sdk ref_denom ref_liquid
proof (unfold_locales, goal_cases)
  case (1 m cs x u x' d a)
  then show ?case by (auto simp: ref_defs ref_liquid_def ref_AmountOf_sum)
next
  case (2 m cs x u x' d a)
  then show ?case by (auto simp: ref_defs ref_liquid_def ref_AmountOf_sum sumFor_neg)
next
  case (3 d n x u x' d')
  then show ?case by (auto simp: ref_defs ref_liquid_def sumFor_def)
next
  case (6 c n v x)
  then show ?case by (simp add: ref_defs ref_StakingDelegate_def ref_liquid_def Let_def fun_eq_iff)
next
  case (7 c va sh x cs x')
  then show ?case using ref_undelegate_liquid by (simp add: ref_defs)
next
  case (8 d n cs d')
  then show ?case by (auto simp: ref_defs)
qed (simp_all add: ref_defs)

interpretation ref_machine: mesh_machine ref_sdk ref_denom
proof (unfold_locales, goal_cases)
  case (1 bz)
  show ?case by (simp add: ref_defs ref_LengthPrefix_def)
next
  case (2 g f s rs used)
  then show ?case by (simp add: ref_defs)
next
  case (3 c)
  then show ?case by (auto simp: ref_defs ref_CoinValidate_def split: option.splits if_splits)
next
  case (4 x)
  show ?case by (simp add: ref_defs ref_denom_def)
qed

interpretation ref_decimals: sdk_decimals ref_sdk
proof (unfold_locales, goal_cases)
  case (1 a b q)
  then have "a * ref_one \<le> b * ref_one"
    by (intro mult_right_mono) (simp_all add: ref_one_def)
  then have "a * ref_one div b \<le> b * ref_one div b"
    using 1(3) by (intro zdiv_mono1)
  with 1 show ?case
    by (auto simp: ref_defs ref_Quo_def ref_one_def pos_imp_zdiv_nonneg_iff)
next
  case (2 q n d)
  then show ?case by (simp add: ref_defs)
next
  case (3 d n m)
  then show ?case by (auto simp: ref_defs ref_RoundInt_def ref_one_def)
qed

lemma ref_wasmRuns: "wasmRuns ref_sdk"
proof -
  have "contract_step ref_sdk s (s\<lparr>ext := x\<rparr>)" for s :: "(ref_store, ref_ext) chain" and x
    using other_modules [of ref_sdk s "events s" x] by simp
  then show ?thesis
    by (auto simp: wasmRuns_def ref_defs ref_Sudo_def)
qed

section \<open>Handler chains\<close>

text \<open>The laws hold for a fold over the handlers.\<close>

fun firstKnown :: "('s, 'x) messenger list \<Rightarrow> ('s, 'x) messenger" where
  "firstKnown [] c port msg s = (Err ErrUnknownMsg, s)"
| "firstKnown (h # hs) c port msg s =
     (case h c port msg s of (r, t) \<Rightarrow>
       if r = Err ErrUnknownMsg then firstKnown hs c port msg t else (r, t))"

interpretation known: message_chain firstKnown
  by unfold_locales (simp_all split: prod.split)

end
