(* ===== verification/Examples.thy ===== *)
theory Examples
  imports Reference
begin

text \<open>
  A short history of the reference chain, used by the witnesses of the properties: genesis, a
  limit for one contract, a bond of that contract, and a slash of its validator. Each state is
  written out, and the lemmas check that the modelled code goes from one to the next.
\<close>

definition ref_params0 :: params where
  "ref_params0 = \<lparr>TotalContractsMaxCap = Coin ''stake'' (Some 100), EpochLength = 5,
     MaxGasEndBlocker = 500000\<rparr>"

definition ref_val :: validator where
  "ref_val = \<lparr>OperatorAddress = ''vV'', ValBonded = True, DelegatorShares = 40000000000000000000,
     CommissionRate = 0, CommissionMaxRate = 0, CommissionMaxChangeRate = 0\<rparr>"

definition ref_bad_val :: validator where
  "ref_bad_val = \<lparr>OperatorAddress = ''vW'', ValBonded = True, DelegatorShares = - 1,
     CommissionRate = 0, CommissionMaxRate = 0, CommissionMaxChangeRate = 0\<rparr>"

definition ref_start :: "(ref_store, ref_ext) chain" where
  "ref_start = \<lparr>store = [], mem = [],
     ext = \<lparr>r_supply = [], r_offset = [],
       r_validators = [([86], ref_val), ([87], ref_bad_val)], r_delegations = [],
       r_jailed = [], r_contracts = [[49], [50]], r_broken = [[50]], r_calls = []\<rparr>,
     events = [], height = 10, blockTime = 0\<rparr>"

definition ref_paramBytes :: bytes where
  "ref_paramBytes = [1, 0, 1, 0, 1, 0, 1, 0, 1, 0, 1, 0, 1, 0, 1, 5, 0, 1, 0, 1, 0, 1, 0, 1,
     0, 1, 0, 1, 7, 1, 161, 1, 32, 0, 1, 115, 1, 116, 1, 97, 1, 107, 1, 101, 0, 49, 48, 48]"

definition ref_genesis :: "(ref_store, ref_ext) chain" where
  "ref_genesis = ref_start\<lparr>store := [([1], ref_paramBytes)]\<rparr>"

definition ref_cap :: "string \<Rightarrow> int \<Rightarrow> MsgSetVirtualStakingMaxCap" where
  "ref_cap c n = \<lparr>msg_Authority = ''agov'', msg_Contract = c, msg_MaxCap = Coin ''stake'' (Some n)\<rparr>"

definition ref_capped :: "(ref_store, ref_ext) chain" where
  "ref_capped = ref_genesis\<lparr>
     store := [([4, 1, 0, 0, 0, 0, 0, 0, 0, 15, 49], [1]), ([2, 49], [52, 48]), ([1], ref_paramBytes)],
     events := [EmitMaxCapLimitUpdatedEvent [49] (Coin ''stake'' (Some 40)),
       EmitSchedulerRegisteredEvent [49] 15 True]\<rparr>"

definition ref_bond :: cosmos_msg where
  "ref_bond = \<lparr>msg_Custom = Some [1, 30, 86], msg_Stargate = False, msg_Staking = False\<rparr>"

definition ref_bondEvent :: event where
  "ref_bondEvent = \<lparr>ev_type = ''instant_delegate'',
     ev_attrs = [(''module'', AText ModuleName), (''validator'', AVal [86]),
       (''amount'', ACoin (Coin ''stake'' (Some 30))), (''delegator'', AAddr [49])]\<rparr>"

definition ref_bonded :: "(ref_store, ref_ext) chain" where
  "ref_bonded = ref_capped\<lparr>
     store := [([3, 49], [51, 48]), ([4, 1, 0, 0, 0, 0, 0, 0, 0, 15, 49], [1]), ([2, 49], [52, 48]),
       ([1], ref_paramBytes)],
     ext := (ext ref_capped)\<lparr>r_supply := [(''stake'', 30)], r_offset := [(''stake'', - 30)],
       r_delegations := [(([49], [86]), 30000000000000000000)]\<rparr>\<rparr>"

definition ref_slashed :: "(ref_store, ref_ext) chain" where
  "ref_slashed = ref_bonded\<lparr>
     store := [([4, 2, 0, 0, 0, 0, 0, 0, 0, 10, 49], [0]), ([3, 49], [51, 48]),
       ([4, 1, 0, 0, 0, 0, 0, 0, 0, 15, 49], [1]), ([2, 49], [52, 48]), ([1], ref_paramBytes)],
     mem := [([5, 1, 86, 7, 0, 0, 0, 0, 0, 0, 0, 20, 0, 0, 0, 0, 0, 0, 0, 7, 1, 50, 49, 48, 48, 48,
       48, 48, 48, 48, 48, 48, 48, 48, 48, 48, 48, 48, 48, 48], [])],
     events := events ref_capped @ [EmitSchedulerRegisteredEvent [49] 10 False]\<rparr>"

definition ref_slash :: slash_info where
  "ref_slash = \<lparr>InfractionHeight = 20, Power = 7, TotalSlashAmount = ''2'',
     SlashFraction = ''100000000000000000''\<rparr>"

lemma ref_genesis_step: "InitGenesis ref_sdk (NewGenesisState ref_params0) ref_start = (Ok (), ref_genesis)"
  by code_simp

lemma ref_capped_step: "SetVirtualStakingMaxCap ref_sdk (ref_cap ''a1'' 40) ref_genesis = (Ok (), ref_capped)"
  by code_simp

lemma ref_bonded_step:
  "DispatchMsg ref_sdk (NewDefaultCustomMsgHandler ref_sdk) [49] [] ref_bond ref_capped
     = (Ok [ref_bondEvent], ref_bonded)"
  by code_simp

lemma ref_slashed_step:
  "sendAsync ref_sdk ValidatorSlashed [86] (Some ref_slash) ref_bonded = (Ok (), ref_slashed)"
  by code_simp

lemma ref_goodOp: "goodOp ValidatorSlashed [86] (Some ref_slash)"
  by (simp add: goodOp_def shortOp_def knownOps_def ref_slash_def)

lemma ref_empty: "emptyChain ref_sdk ref_start"
  by (simp add: emptyChain_def ref_start_def ref_defs)

lemma ref_reachable:
  "mesh_reachable ref_sdk ref_params0 ref_genesis" "mesh_reachable ref_sdk ref_params0 ref_capped"
  "mesh_reachable ref_sdk ref_params0 ref_bonded" "mesh_reachable ref_sdk ref_params0 ref_slashed"
proof -
  show g: "mesh_reachable ref_sdk ref_params0 ref_genesis"
    by (rule mesh_reachable.genesis [OF ref_empty ref_genesis_step])
  show c: "mesh_reachable ref_sdk ref_params0 ref_capped"
    by (rule mesh_reachable.step [OF g mesh_step.set_cap [OF ref_capped_step]])
  show b: "mesh_reachable ref_sdk ref_params0 ref_bonded"
    by (rule mesh_reachable.step [OF c mesh_step.contract [OF contract_step.dispatch [OF ref_bonded_step]]])
  show "mesh_reachable ref_sdk ref_params0 ref_slashed"
    by (rule mesh_reachable.step [OF b mesh_step.valset [OF ref_goodOp ref_slashed_step]])
qed

lemma ref_total: "TotalContractsMaxCap ref_params0 = Coin ''stake'' (Some 100)"
  by (simp add: ref_params0_def)

lemma ref_inv:
  "meshInv ref_sdk ref_params0 100 ref_genesis" "meshInv ref_sdk ref_params0 100 ref_capped"
  "meshInv ref_sdk ref_params0 100 ref_bonded" "meshInv ref_sdk ref_params0 100 ref_slashed"
  using ref_machine.reachable_inv [OF _ ref_total _ ref_wasmRuns] ref_reachable by simp_all

lemma ref_wf:
  "wfAmounts ref_sdk ref_genesis" "wfAmounts ref_sdk ref_capped"
  "wfAmounts ref_sdk ref_bonded" "wfAmounts ref_sdk ref_slashed"
  "wfTasks ref_sdk ref_genesis" "wfTasks ref_sdk ref_capped"
  "wfTasks ref_sdk ref_bonded" "wfTasks ref_sdk ref_slashed"
  "wfOps ref_sdk ref_bonded" "wfOps ref_sdk ref_slashed"
  using ref_inv by (simp_all add: meshInv_def)

lemma ref_bondDenom [simp]: "staking_BondDenom ref_sdk x = ''stake''" "ref_denom ''stake''"
  by (simp_all add: ref_defs ref_denom_def)

lemma ref_params_at:
  "GetParams ref_sdk ref_genesis = Ok ref_params0" "GetParams ref_sdk ref_capped = Ok ref_params0"
  "GetParams ref_sdk ref_bonded = Ok ref_params0" "GetParams ref_sdk ref_slashed = Ok ref_params0"
  using ref_inv by (simp_all add: meshInv_def)

lemma ref_limits_at:
  assumes "s \<in> {ref_genesis, ref_capped, ref_bonded, ref_slashed}"
  shows "GetMaxSudoGas ref_sdk s = Ok 500000" "GetRebalanceEpochLength ref_sdk s = Ok 5"
    "GetTotalContractsMaxCap ref_sdk s = Ok (Coin ''stake'' (Some 100))"
  using assms ref_params_at
  by (auto simp: GetMaxSudoGas_def GetRebalanceEpochLength_def GetTotalContractsMaxCap_def ref_params0_def)

end
