(* ===== verification/Wiring.thy ===== *)
theory Wiring
  imports App
begin

text \<open>
  How \<open>NewMeshApp\<close> (\<open>demo/app/app.go\<close>) puts the chain together: the stores it mounts, the
  keepers in the order it constructs them with what each is given, the IBC routes, and the ante
  handler. A keeper that is passed before it is constructed would be a zero value for ever, and
  a store key that is not mounted a nil pointer; the lemmas show that neither happens.
\<close>

section \<open>Stores\<close>

text \<open>Store keys are named after the module whose \<open>StoreKey\<close> or \<open>MemStoreKey\<close> they are.\<close>

definition kvStoreKeys :: "app_module list" where
  "kvStoreKeys = [MAuth, MBank, MStaking, MCrisis, MMint, MDistr, MSlashing, MGov, MParams,
     MConsensus, MUpgrade, MFeegrant, MEvidence, MCapability, MAuthz, MNft, MGroup, MIBC, MTransfer,
     MIBCFee, MWasm, MICAHost, MICAController, MMeshsec]"

definition transientStoreKeys :: "app_module list" where
  "transientStoreKeys = [MParams]"

definition memoryStoreKeys :: "app_module list" where
  "memoryStoreKeys = [MCapability, MMeshsec]"

section \<open>Construction steps\<close>

text \<open>The fields of \<open>MeshApp\<close> that hold a keeper, and the scoped capability keepers.\<close>

datatype component =
    KParams | KConsensusParams | KCapability | KScoped app_module | KAccount | KBank | KStaking
  | KMint | KDistr | KMeshSec | KSlashing | KCrisis | KFeeGrant | KAuthz | KGroup | KUpgrade
  | KIBC | KGov | KNFT | KEvidence | KIBCFee | KTransfer | KICAHost | KICAController | KWasm

text \<open>
  \<open>NewRef k keys ks refs\<close> constructs \<open>k\<close> on its store keys and gives it the keepers \<open>ks\<close> and
  pointers to fields \<open>refs\<close> that are filled in later; \<open>New\<close> is without pointers. \<open>Scope\<close> and \<open>Seal\<close> are calls of the
  capability keeper, \<open>Wire k ks\<close> a call of a setter of \<open>k\<close>, and \<open>Local ks\<close> a local variable
  made of the keepers.
\<close>

datatype store_key = KV app_module | Transient app_module | Memory app_module

datatype wiring_step =
    NewRef component "store_key list" "component list" "component list"
  | Scope app_module
  | Seal
  | Wire component "component list"
  | Local "component list"

abbreviation New :: "component \<Rightarrow> store_key list \<Rightarrow> component list \<Rightarrow> wiring_step" where
  "New k keys ks \<equiv> NewRef k keys ks []"

definition baseKeepers :: "wiring_step list" where
  "baseKeepers = [
     New KParams [KV MParams, Transient MParams] [],
     New KConsensusParams [KV MConsensus] [],
     New KCapability [KV MCapability, Memory MCapability] [],
     Scope MIBC, Scope MICAHost, Scope MICAController, Scope MTransfer, Scope MWasm, Seal,
     New KAccount [KV MAuth] [],
     New KBank [KV MBank] [KAccount],
     New KStaking [KV MStaking] [KAccount, KBank]]"

definition sdkKeepers :: "wiring_step list" where
  "sdkKeepers = [
     New KMint [KV MMint] [KStaking, KAccount, KBank],
     New KDistr [KV MDistr] [KAccount, KBank, KStaking],
     NewRef KMeshSec [KV MMeshsec, Memory MMeshsec] [KBank, KStaking] [KWasm],
     New KSlashing [KV MSlashing] [KStaking, KMeshSec],
     New KCrisis [KV MCrisis] [KBank],
     New KFeeGrant [KV MFeegrant] [KAccount],
     Wire KStaking [KDistr, KSlashing, KMeshSec],
     New KAuthz [KV MAuthz] [KAccount],
     New KGroup [KV MGroup] [KAccount],
     New KUpgrade [KV MUpgrade] [],
     New KIBC [KV MIBC] [KParams, KStaking, KUpgrade, KScoped MIBC],
     Local [KParams, KUpgrade, KIBC],
     New KGov [KV MGov] [KAccount, KBank, KStaking],
     New KNFT [KV MNft] [KAccount, KBank],
     New KEvidence [KV MEvidence] [KStaking, KMeshSec, KSlashing, KStaking]]"

definition contractKeepers :: "wiring_step list" where
  "contractKeepers = [
     New KIBCFee [KV MIBCFee] [KIBC, KAccount, KBank],
     New KTransfer [KV MTransfer] [KParams, KIBCFee, KIBC, KAccount, KBank, KScoped MTransfer],
     New KICAHost [KV MICAHost] [KParams, KIBCFee, KIBC, KAccount, KScoped MICAHost],
     New KICAController [KV MICAController] [KParams, KIBCFee, KIBC, KScoped MICAController],
     Local [KMeshSec, KSlashing],
     New KWasm [KV MWasm] [KAccount, KBank, KStaking, KDistr, KIBCFee, KIBC, KScoped MWasm, KTransfer],
     Wire KGov []]"

text \<open>The IBC routes: the middlewares of each stack, the outermost first.\<close>

definition transferStack :: "component list" where "transferStack = [KIBCFee, KTransfer]"
definition icaControllerStack :: "component list" where "icaControllerStack = [KIBCFee, KICAController]"
definition icaHostStack :: "component list" where "icaHostStack = [KIBCFee, KICAHost]"
definition wasmStack :: "component list" where "wasmStack = [KIBCFee, KWasm]"

definition ibcRouter :: "(app_module \<times> component list) list" where
  "ibcRouter = [(MTransfer, transferStack), (MWasm, wasmStack), (MICAController, icaControllerStack),
     (MICAHost, icaHostStack)]"

definition NewMeshApp_steps :: "wiring_step list" where
  "NewMeshApp_steps = baseKeepers @ sdkKeepers @ contractKeepers @
     [Local transferStack, Local icaControllerStack, Local icaHostStack, Local (KIBC # wasmStack),
      Wire KIBC (concat (map snd ibcRouter))]"

section \<open>Sound constructions\<close>

text \<open>
  The state of a construction: what is constructed, the store keys in use, whether the
  capability keeper is sealed, and the fields that pointers already lead to. A step goes wrong
  when it uses what is not there, constructs a keeper twice, opens a store that is not mounted
  or already in use, or asks the sealed capability keeper for a scope.
\<close>

record construction =
  constructed :: "component list"
  storesInUse :: "store_key list"
  isSealed :: bool
  awaited :: "component list"

definition mounted :: "store_key \<Rightarrow> bool" where
  "mounted k = (case k of KV m \<Rightarrow> m \<in> set kvStoreKeys | Transient m \<Rightarrow> m \<in> set transientStoreKeys
     | Memory m \<Rightarrow> m \<in> set memoryStoreKeys)"

fun construct :: "wiring_step \<Rightarrow> construction \<Rightarrow> construction option" where
  "construct (NewRef k keys ks refs) s =
     (if k \<notin> set (constructed s) \<and> list_all mounted keys \<and> distinct keys \<and>
         set keys \<inter> set (storesInUse s) = {} \<and> set ks \<subseteq> set (constructed s)
      then Some (s\<lparr>constructed := k # constructed s, storesInUse := keys @ storesInUse s,
        awaited := refs @ awaited s\<rparr>)
      else None)"
| "construct (Scope m) s =
     (if KCapability \<in> set (constructed s) \<and> \<not> isSealed s \<and> KScoped m \<notin> set (constructed s)
      then Some (s\<lparr>constructed := KScoped m # constructed s\<rparr>) else None)"
| "construct Seal s =
     (if KCapability \<in> set (constructed s) \<and> \<not> isSealed s then Some (s\<lparr>isSealed := True\<rparr>) else None)"
| "construct (Wire k ks) s = (if insert k (set ks) \<subseteq> set (constructed s) then Some s else None)"
| "construct (Local ks) s = (if set ks \<subseteq> set (constructed s) then Some s else None)"

fun constructAll :: "wiring_step list \<Rightarrow> construction \<Rightarrow> construction option" where
  "constructAll [] s = Some s"
| "constructAll (x # xs) s = Option.bind (construct x s) (constructAll xs)"

definition emptyConstruction :: construction where
  "emptyConstruction = \<lparr>constructed = [], storesInUse = [], isSealed = False, awaited = []\<rparr>"

definition soundConstruction :: "wiring_step list \<Rightarrow> bool" where
  "soundConstruction steps = (case constructAll steps emptyConstruction of
      None \<Rightarrow> False
    | Some s \<Rightarrow> set (awaited s) \<subseteq> set (constructed s) \<and> isSealed s \<and>
        set (storesInUse s) = set (map KV kvStoreKeys @ map Transient transientStoreKeys @
          map Memory memoryStoreKeys))"

lemma NewMeshApp_sound: "soundConstruction NewMeshApp_steps"
  by code_simp

text \<open>
  What the check means: a step uses what the steps before it made, and makes something new on
  stores that are mounted and not in use.
\<close>

fun madeBy :: "wiring_step \<Rightarrow> component set" where
  "madeBy (NewRef k keys ks refs) = {k}"
| "madeBy (Scope m) = {KScoped m}"
| "madeBy _ = {}"

fun usedBy :: "wiring_step \<Rightarrow> component set" where
  "usedBy (NewRef k keys ks refs) = set ks"
| "usedBy (Scope m) = {KCapability}"
| "usedBy Seal = {KCapability}"
| "usedBy (Wire k ks) = insert k (set ks)"
| "usedBy (Local ks) = set ks"

fun openedBy :: "wiring_step \<Rightarrow> store_key set" where
  "openedBy (NewRef k keys ks refs) = set keys"
| "openedBy _ = {}"

lemma construct_SomeD:
  assumes "construct x s = Some t"
  shows "usedBy x \<subseteq> set (constructed s)" and "madeBy x \<inter> set (constructed s) = {}"
    and "openedBy x \<inter> set (storesInUse s) = {}" and "\<forall>k \<in> openedBy x. mounted k"
    and "set (constructed t) = madeBy x \<union> set (constructed s)"
    and "set (storesInUse t) = openedBy x \<union> set (storesInUse s)"
  using assms by (cases x; auto simp: list_all_iff split: if_splits)+

lemma constructAll_SomeD:
  assumes "constructAll xs s = Some t"
  shows "set (constructed t) = \<Union> (madeBy ` set xs) \<union> set (constructed s)"
    and "set (storesInUse t) = \<Union> (openedBy ` set xs) \<union> set (storesInUse s)"
  using assms
  by (induction xs arbitrary: s) (auto simp: construct_SomeD bind_eq_Some_conv)

lemma constructAll_append:
  "constructAll (xs @ ys) s = Option.bind (constructAll xs s) (constructAll ys)"
  by (induction xs arbitrary: s) (auto split: Option.bind_split)

lemma soundConstruction_step:
  assumes "soundConstruction (xs @ x # ys)"
  shows "usedBy x \<subseteq> \<Union> (madeBy ` set xs)" and "madeBy x \<inter> \<Union> (madeBy ` set xs) = {}"
    and "openedBy x \<inter> \<Union> (openedBy ` set xs) = {}" and "\<forall>k \<in> openedBy x. mounted k"
proof -
  obtain s t where s: "constructAll xs emptyConstruction = Some s" and t: "construct x s = Some t"
    using assms by (auto simp: soundConstruction_def constructAll_append bind_eq_Some_conv split: option.splits)
  from construct_SomeD [OF t] constructAll_SomeD [OF s] show
    "usedBy x \<subseteq> \<Union> (madeBy ` set xs)" "madeBy x \<inter> \<Union> (madeBy ` set xs) = {}"
    "openedBy x \<inter> \<Union> (openedBy ` set xs) = {}" "\<forall>k \<in> openedBy x. mounted k"
    by (simp_all add: emptyConstruction_def)
qed

text \<open>Every route is guarded by the fee middleware and ends in its own module.\<close>

lemma ibcRouter_fee: "map (hd \<circ> snd) ibcRouter = replicate 4 KIBCFee" "distinct (map fst ibcRouter)"
  by code_simp+

section \<open>The ante handler of the chain\<close>

definition setAnteHandler :: "bool \<Rightarrow> ante_decorator list result" where
  "setAnteHandler hasSignModeHandler = mustR (NewAnteHandler
     \<lparr>opt_AccountKeeper = True, opt_BankKeeper = True,
      opt_SignModeHandler = hasSignModeHandler, opt_WasmConfig = True,
      opt_TXCounterStoreKey = MWasm \<in> set kvStoreKeys\<rparr>)"

lemma setAnteHandler_Ok: "(\<exists>ds. setAnteHandler b = Ok ds) = b"
  by (simp add: setAnteHandler_def NewAnteHandler_def kvStoreKeys_def)

section \<open>Capabilities\<close>

definition AllCapabilities :: "string list" where
  "AllCapabilities = [''iterator'', ''staking'', ''stargate'', ''cosmwasm_1_1'', ''cosmwasm_1_2'',
     ''cosmwasm_1_3'', ''virtual_staking'']"

end
