(* ===== verification/Export.thy ===== *)
theory Export
  imports Prelude
begin

text \<open>
  The demo chain's state export (\<open>demo/app/export.go\<close>): the preparation for a genesis at
  height zero, and what is exported at which height. The keepers it drives are parameters, one
  record; a context is the state and a block height, and \<open>WithBlockHeight\<close> changes the latter
  only. The lemmas show that a bad address on the allow list stops the export before anything
  is written, and what the preparation does to the validators.
\<close>

section \<open>The keepers\<close>

type_synonym 'x ctx = "u64 \<times> 'x"

text \<open>The fields of \<open>stakingtypes.Validator\<close> the export writes, and its operator.\<close>

record export_validator =
  ev_operator :: address
  UnbondingHeight :: u64
  is_jailed :: bool

text \<open>Redelegations and unbonding delegations: parties and entries with their creation heights.\<close>

record entries =
  parties :: "address list"
  CreationHeights :: "u64 list"

record delegation =
  DelegatorAddress :: string
  ValidatorAddress :: string

record signing_info =
  StartHeight :: u64
  info_rest :: bytes

record ('x, 'c) export_sdk =
  x_ValAddressFromBech32 :: "string \<Rightarrow> address result"
  x_AccAddressFromBech32 :: "string \<Rightarrow> address result"
  x_ValAddress_String :: "address \<Rightarrow> string"
  crisis_AssertInvariants :: "('x ctx, unit) act"
  staking_IterateValidators :: "'x ctx \<Rightarrow> address list"
  distr_WithdrawValidatorCommission :: "address \<Rightarrow> ('x ctx, unit) act"
  staking_GetAllDelegations :: "'x ctx \<Rightarrow> delegation list"
  distr_WithdrawDelegationRewards :: "address \<Rightarrow> address \<Rightarrow> ('x ctx, unit) act"
  distr_DeleteAllValidatorSlashEvents :: "('x ctx, unit) act"
  distr_DeleteAllValidatorHistoricalRewards :: "('x ctx, unit) act"
  distr_GetValidatorOutstandingRewardsCoins :: "'x ctx \<Rightarrow> address \<Rightarrow> 'c"
  distr_GetCommunityPool :: "'x ctx \<Rightarrow> 'c"
  distr_SetCommunityPool :: "'c \<Rightarrow> ('x ctx, unit) act"
  DecCoins_Add :: "'c \<Rightarrow> 'c \<Rightarrow> 'c"
  distr_AfterValidatorCreated :: "address \<Rightarrow> ('x ctx, unit) act"
  distr_BeforeDelegationCreated :: "address \<Rightarrow> address \<Rightarrow> ('x ctx, unit) act"
  distr_AfterDelegationModified :: "address \<Rightarrow> address \<Rightarrow> ('x ctx, unit) act"
  staking_IterateRedelegations :: "'x ctx \<Rightarrow> entries list"
  staking_SetRedelegation :: "entries \<Rightarrow> ('x ctx, unit) act"
  staking_IterateUnbondingDelegations :: "'x ctx \<Rightarrow> entries list"
  staking_SetUnbondingDelegation :: "entries \<Rightarrow> ('x ctx, unit) act"
  staking_ValidatorKeys :: "'x ctx \<Rightarrow> address list"
  staking_ValidatorAt :: "'x ctx \<Rightarrow> address \<Rightarrow> export_validator option"
  staking_iter_Close :: "'x ctx \<Rightarrow> unit result"
  staking_SetValidator :: "export_validator \<Rightarrow> ('x ctx, unit) act"
  staking_ApplyValidatorSetUpdates :: "('x ctx, unit) act"
  slashing_IterateSigningInfos :: "'x ctx \<Rightarrow> (address \<times> signing_info) list"
  slashing_SetSigningInfo :: "address \<Rightarrow> signing_info \<Rightarrow> ('x ctx, unit) act"

section \<open>The steps\<close>

text \<open>A loop whose body may fail; a Go closure that always returns false runs to the end.\<close>

fun forEach :: "'a list \<Rightarrow> ('a \<Rightarrow> ('w, unit) act) \<Rightarrow> ('w, unit) act" where
  "forEach [] body = ret ()"
| "forEach (x # xs) body = bindA (body x) (\<lambda>_. forEach xs body)"

text \<open>\<open>panic(err)\<close> and \<open>log.Fatal(err)\<close> on an error: both end the export, the latter with the process.\<close>

definition orPanic :: "('w, 'a) act \<Rightarrow> ('w, 'a) act" where
  "orPanic m = bindA (caught m) (\<lambda>r. case r of Ok x \<Rightarrow> ret x | _ \<Rightarrow> panic)"

definition withBlockHeight :: "u64 \<Rightarrow> ('x ctx, 'a) act \<Rightarrow> ('x ctx, 'a) act" where
  "withBlockHeight h m = (\<lambda>(h0, x). case m (h, x) of (r, (_, x')) \<Rightarrow> (r, (h0, x')))"

fun allowedAddrs :: "('x, 'c) export_sdk \<Rightarrow> string list \<Rightarrow> string set result" where
  "allowedAddrs E [] = Ok {}"
| "allowedAddrs E (addr # addrs) =
     bindR (mustR (x_ValAddressFromBech32 E addr)) (\<lambda>_.
     bindR (allowedAddrs E addrs) (\<lambda>m. Ok (insert addr m)))"

text \<open>Both addresses of a delegation, of which a bad one panics.\<close>

definition delegationAddrs :: "('x, 'c) export_sdk \<Rightarrow> delegation \<Rightarrow> (address \<times> address) result" where
  "delegationAddrs E d =
     bindR (mustR (x_ValAddressFromBech32 E (ValidatorAddress d))) (\<lambda>valAddr.
     bindR (mustR (x_AccAddressFromBech32 E (DelegatorAddress d))) (\<lambda>delAddr.
     Ok (delAddr, valAddr)))"

definition withdrawCommissions :: "('x, 'c) export_sdk \<Rightarrow> ('x ctx, unit) act" where
  "withdrawCommissions E = withState (\<lambda>ctx.
     forEach (staking_IterateValidators E ctx) (\<lambda>operator.
       bindA (caught (distr_WithdrawValidatorCommission E operator)) (\<lambda>_. ret ())))"

definition withdrawRewards :: "('x, 'c) export_sdk \<Rightarrow> delegation list \<Rightarrow> ('x ctx, unit) act" where
  "withdrawRewards E dels = forEach dels (\<lambda>d.
     bindA (liftR (delegationAddrs E d)) (\<lambda>(delAddr, valAddr).
     orPanic (distr_WithdrawDelegationRewards E delAddr valAddr)))"

definition reinitValidators :: "('x, 'c) export_sdk \<Rightarrow> ('x ctx, unit) act" where
  "reinitValidators E = withState (\<lambda>ctx.
     forEach (staking_IterateValidators E ctx) (\<lambda>operator. withState (\<lambda>ctx.
       let scraps = distr_GetValidatorOutstandingRewardsCoins E ctx operator;
           pool = distr_GetCommunityPool E ctx
       in
       bindA (distr_SetCommunityPool E (DecCoins_Add E pool scraps)) (\<lambda>_.
       orPanic (distr_AfterValidatorCreated E operator)))))"

definition reinitDelegations :: "('x, 'c) export_sdk \<Rightarrow> delegation list \<Rightarrow> ('x ctx, unit) act" where
  "reinitDelegations E dels = forEach dels (\<lambda>d.
     bindA (liftR (delegationAddrs E d)) (\<lambda>(delAddr, valAddr).
     bindA (orPanic (distr_BeforeDelegationCreated E delAddr valAddr)) (\<lambda>_.
     orPanic (distr_AfterDelegationModified E delAddr valAddr))))"

definition resetEntries :: "entries \<Rightarrow> entries" where
  "resetEntries e = e\<lparr>CreationHeights := map (\<lambda>_. 0) (CreationHeights e)\<rparr>"

definition resetStaking :: "('x, 'c) export_sdk \<Rightarrow> ('x ctx, unit) act" where
  "resetStaking E = withState (\<lambda>ctx.
     bindA (forEach (staking_IterateRedelegations E ctx) (\<lambda>red.
       staking_SetRedelegation E (resetEntries red))) (\<lambda>_. withState (\<lambda>ctx.
     forEach (staking_IterateUnbondingDelegations E ctx) (\<lambda>ubd.
       staking_SetUnbondingDelegation E (resetEntries ubd)))))"

definition resetValidator :: "('x, 'c) export_sdk \<Rightarrow> bool \<Rightarrow> string set \<Rightarrow> address \<Rightarrow>
    ('x ctx, unit) act" where
  "resetValidator E applyAllowedAddrs allowed addr = withState (\<lambda>ctx.
     case staking_ValidatorAt E ctx addr of
       None \<Rightarrow> panic
     | Some validator \<Rightarrow>
         let validator = validator\<lparr>UnbondingHeight := 0\<rparr>;
             validator = (if applyAllowedAddrs \<and> x_ValAddress_String E addr \<notin> allowed
               then validator\<lparr>is_jailed := True\<rparr> else validator)
         in staking_SetValidator E validator)"

text \<open>
  The loop over the validators by descending key, and whether its iterator closed without an
  error: otherwise the function returns there. The counter of the loop is never read.
\<close>

definition resetValidators :: "('x, 'c) export_sdk \<Rightarrow> bool \<Rightarrow> string set \<Rightarrow> ('x ctx, bool) act" where
  "resetValidators E applyAllowedAddrs allowed = withState (\<lambda>ctx.
     bindA (forEach (staking_ValidatorKeys E ctx) (resetValidator E applyAllowedAddrs allowed)) (\<lambda>_.
     withState (\<lambda>ctx. case staking_iter_Close E ctx of
         Err err \<Rightarrow> ret False
       | Panic \<Rightarrow> panic
       | Ok _ \<Rightarrow> bindA (orPanic (staking_ApplyValidatorSetUpdates E)) (\<lambda>_. ret True))))"

definition resetSigningInfos :: "('x, 'c) export_sdk \<Rightarrow> ('x ctx, unit) act" where
  "resetSigningInfos E = withState (\<lambda>ctx.
     forEach (slashing_IterateSigningInfos E ctx) (\<lambda>(addr, info).
       slashing_SetSigningInfo E addr (info\<lparr>StartHeight := 0\<rparr>)))"

definition prepForZeroHeightGenesis :: "('x, 'c) export_sdk \<Rightarrow> string list \<Rightarrow> ('x ctx, unit) act" where
  "prepForZeroHeightGenesis E jailAllowedAddrs =
     bindA (liftR (allowedAddrs E jailAllowedAddrs)) (\<lambda>allowedAddrsMap.
     bindA (crisis_AssertInvariants E) (\<lambda>_.
     bindA (withdrawCommissions E) (\<lambda>_. withState (\<lambda>ctx.
     let dels = staking_GetAllDelegations E ctx in
     bindA (withdrawRewards E dels) (\<lambda>_.
     bindA (distr_DeleteAllValidatorSlashEvents E) (\<lambda>_.
     bindA (distr_DeleteAllValidatorHistoricalRewards E) (\<lambda>_.
     bindA (withBlockHeight 0 (bindA (reinitValidators E) (\<lambda>_. reinitDelegations E dels))) (\<lambda>_.
     bindA (resetStaking E) (\<lambda>_.
     bindA (resetValidators E (jailAllowedAddrs \<noteq> []) allowedAddrsMap) (\<lambda>closed.
     if closed then resetSigningInfos E else ret ()))))))))))"

text \<open>
  What is exported: the application state and the validators at the height after the last
  block, or at zero after the preparation. The JSON encoder's and \<open>WriteValidators\<close>' errors
  are the call's.
\<close>

record ('a, 'v) exported_app =
  AppState :: 'a
  Validators :: 'v
  Height :: u64

definition ExportAppStateAndValidators :: "('x, 'c) export_sdk \<Rightarrow>
    (string list \<Rightarrow> ('x ctx, 'a) act) \<Rightarrow> ('x ctx \<Rightarrow> 'v result) \<Rightarrow>
    bool \<Rightarrow> string list \<Rightarrow> string list \<Rightarrow> ('x ctx, ('a, 'v) exported_app) act" where
  "ExportAppStateAndValidators E exportGenesis writeValidators forZeroHeight jailAllowedAddrs modules =
     withState (\<lambda>(lastBlockHeight, _).
     let h = (if forZeroHeight then 0 else lastBlockHeight + 1) in
     bindA (if forZeroHeight then prepForZeroHeightGenesis E jailAllowedAddrs else ret ()) (\<lambda>_.
     bindA (exportGenesis modules) (\<lambda>appState. withState (\<lambda>ctx.
     bindA (liftR (writeValidators ctx)) (\<lambda>validators.
     ret \<lparr>AppState = appState, Validators = validators, Height = h\<rparr>)))))"

text \<open>
  The command of the daemon that exports (\<open>demo/cmd/meshd/root.go\<close>). The options are read as
  the home path, if set, and as whether they are a viper store, which the command writes; the
  application is loaded at the latest height for -1, else at the given one.
\<close>

record ('o, 'w) export_cmd =
  opt_Home :: "'o \<Rightarrow> string option"
  opt_IsViper :: "'o \<Rightarrow> bool"
  opt_SetInvCheckPeriod :: "int \<Rightarrow> 'o \<Rightarrow> 'o"
  app_New :: "bool \<Rightarrow> 'o \<Rightarrow> ('w, unit) act"
  app_LoadHeight :: "int \<Rightarrow> ('w, unit) act"

definition appExport :: "('o, 'w) export_cmd \<Rightarrow> (bool \<Rightarrow> string list \<Rightarrow> string list \<Rightarrow> ('w, 'e) act) \<Rightarrow>
    int \<Rightarrow> bool \<Rightarrow> string list \<Rightarrow> 'o \<Rightarrow> string list \<Rightarrow> ('w, 'e) act" where
  "appExport C export h forZeroHeight jailAllowedAddrs appOpts modulesToExport =
     (case opt_Home C appOpts of
        None \<Rightarrow> fail (ErrOther ''application home is not set'')
      | Some homePath \<Rightarrow>
          if homePath = [] then fail (ErrOther ''application home is not set'')
          else if \<not> opt_IsViper C appOpts then fail (ErrOther ''appOpts is not viper.Viper'')
          else let appOpts = opt_SetInvCheckPeriod C 1 appOpts in
            bindA (app_New C (h = - 1) appOpts) (\<lambda>_.
            bindA (if h \<noteq> - 1 then app_LoadHeight C h else ret ()) (\<lambda>_.
            export forZeroHeight jailAllowedAddrs modulesToExport)))"

section \<open>Lemmas\<close>

lemma allowedAddrs_eq:
  "allowedAddrs E addrs =
    (if \<forall>a \<in> set addrs. \<exists>v. x_ValAddressFromBech32 E a = Ok v then Ok (set addrs) else Panic)"
proof (induction addrs)
  case (Cons a addrs)
  then show ?case by (cases "x_ValAddressFromBech32 E a") auto
qed simp

lemma prep_bad_address:
  assumes "a \<in> set jailAllowedAddrs" and "\<And>v. x_ValAddressFromBech32 E a \<noteq> Ok v"
  shows "prepForZeroHeightGenesis E jailAllowedAddrs s = (Panic, s)"
proof -
  have "allowedAddrs E jailAllowedAddrs = Panic"
    using assms by (auto simp: allowedAddrs_eq)
  then show ?thesis by (simp add: prepForZeroHeightGenesis_def act_simps)
qed

text \<open>What the reset makes of one validator.\<close>

definition zeroValidator :: "bool \<Rightarrow> string set \<Rightarrow> (address \<Rightarrow> string) \<Rightarrow> export_validator \<Rightarrow>
    export_validator" where
  "zeroValidator apply allowed str v = v\<lparr>UnbondingHeight := 0,
     is_jailed := is_jailed v \<or> apply \<and> str (ev_operator v) \<notin> allowed\<rparr>"

lemma zeroValidator_twice [simp]:
  "zeroValidator ap al st (zeroValidator ap al st v) = zeroValidator ap al st v"
  by (auto simp: zeroValidator_def)

text \<open>The staking keeper's validator table: what is set is found, and stands at its operator.\<close>

locale validator_table =
  fixes E :: "('x, 'c) export_sdk"
  assumes SetValidator: "\<exists>x'. staking_SetValidator E v (h, x) = (Ok (), (h, x')) \<and>
      (\<forall>h' a. staking_ValidatorAt E (h', x') a =
        (if a = ev_operator v then Some v else staking_ValidatorAt E (h', x) a))"
    and ValidatorAt: "staking_ValidatorAt E c a = Some v \<Longrightarrow> ev_operator v = a"
begin

lemma resetValidator_eq:
  assumes "staking_ValidatorAt E (h, x) a = Some v"
  shows "\<exists>x'. resetValidator E ap al a (h, x) = (Ok (), (h, x')) \<and>
    (\<forall>b. staking_ValidatorAt E (h, x') b =
      (if b = a then Some (zeroValidator ap al (x_ValAddress_String E) v)
       else staking_ValidatorAt E (h, x) b))"
proof -
  let ?v = "zeroValidator ap al (x_ValAddress_String E) v"
  have op: "ev_operator v = a" by (rule ValidatorAt [OF assms])
  have "resetValidator E ap al a (h, x) = staking_SetValidator E ?v (h, x)"
    using assms op by (auto simp: resetValidator_def zeroValidator_def act_simps Let_def)
  with SetValidator [of ?v h x] op show ?thesis
    by (auto simp: zeroValidator_def)
qed

lemma resetLoop_eq:
  assumes "\<forall>a \<in> set ks. staking_ValidatorAt E (h, x) a \<noteq> None"
  shows "\<exists>x'. forEach ks (resetValidator E ap al) (h, x) = (Ok (), (h, x')) \<and>
    (\<forall>b. staking_ValidatorAt E (h, x') b =
      (if b \<in> set ks then map_option (zeroValidator ap al (x_ValAddress_String E)) (staking_ValidatorAt E (h, x) b)
       else staking_ValidatorAt E (h, x) b))"
  using assms
proof (induction ks arbitrary: x)
  case (Cons a ks)
  then obtain v where v: "staking_ValidatorAt E (h, x) a = Some v" by auto
  obtain x1 where run: "resetValidator E ap al a (h, x) = (Ok (), (h, x1))"
    and at1: "\<And>b. staking_ValidatorAt E (h, x1) b =
      (if b = a then Some (zeroValidator ap al (x_ValAddress_String E) v)
       else staking_ValidatorAt E (h, x) b)"
    using resetValidator_eq [OF v] by blast
  have "\<forall>b \<in> set ks. staking_ValidatorAt E (h, x1) b \<noteq> None"
    using Cons.prems by (simp add: at1)
  then obtain x2 where "forEach ks (resetValidator E ap al) (h, x1) = (Ok (), (h, x2))"
    and "\<And>b. staking_ValidatorAt E (h, x2) b =
      (if b \<in> set ks then map_option (zeroValidator ap al (x_ValAddress_String E)) (staking_ValidatorAt E (h, x1) b)
       else staking_ValidatorAt E (h, x1) b)"
    using Cons.IH [of x1] by blast
  then show ?case
    using run v by (auto simp: bindA_def at1)
qed (simp add: act_simps)

lemma resetValidators_eq:
  assumes "\<forall>a \<in> set (staking_ValidatorKeys E (h, x)). staking_ValidatorAt E (h, x) a \<noteq> None"
  shows "\<exists>x'. resetValidators E ap al (h, x) = (case staking_iter_Close E (h, x') of
      Err err \<Rightarrow> (Ok False, (h, x')) | Panic \<Rightarrow> (Panic, (h, x'))
    | Ok _ \<Rightarrow> bindA (orPanic (staking_ApplyValidatorSetUpdates E)) (\<lambda>_. ret True) (h, x')) \<and>
    (\<forall>b. staking_ValidatorAt E (h, x') b =
      (if b \<in> set (staking_ValidatorKeys E (h, x))
       then map_option (zeroValidator ap al (x_ValAddress_String E)) (staking_ValidatorAt E (h, x) b)
       else staking_ValidatorAt E (h, x) b))"
proof -
  obtain x' where "forEach (staking_ValidatorKeys E (h, x)) (resetValidator E ap al) (h, x) = (Ok (), (h, x'))"
    and "\<forall>b. staking_ValidatorAt E (h, x') b =
      (if b \<in> set (staking_ValidatorKeys E (h, x))
       then map_option (zeroValidator ap al (x_ValAddress_String E)) (staking_ValidatorAt E (h, x) b)
       else staking_ValidatorAt E (h, x) b)"
    using resetLoop_eq [OF assms, of ap al] by blast
  then show ?thesis
    by (intro exI [of _ x'])
      (simp add: resetValidators_def withState_def bindA_def [of "forEach _ _"] act_simps split: result.split)
qed

end

end
