(* ===== verification/ExportZero.thy ===== *)
theory ExportZero
  imports Export
begin

text \<open>
  What the whole preparation for height zero (\<open>prepForZeroHeightGenesis\<close> in
  \<open>demo/app/export.go\<close>) leaves behind when it comes through: no creation height in a
  redelegation or an unbonding delegation, no start height in a signing info unless the iterator
  over the validators failed to close, and the block height it began with.
\<close>

section \<open>Loops that reset a table\<close>

text \<open>
  A loop that stores a changed version of every entry of a table under the entry's own key
  leaves only changed entries; \<open>R\<close> is what every single write keeps.
\<close>

lemma forEach_table:
  fixes T :: "'x ctx \<Rightarrow> 'e list" and key :: "'e \<Rightarrow> 'k"
  assumes "\<And>e x. \<exists>x'. put (f e) (h, x) = (Ok (), (h, x')) \<and> R x x' \<and>
      set (T (h, x')) = insert (f e) {q \<in> set (T (h, x)). key q \<noteq> key (f e)}"
    and "\<And>e. key (f e) = key e" and "\<And>e. P (f e)" and "reflp R" and "transp R"
    and "\<forall>q \<in> set (T (h, x)). P q \<or> key q \<in> key ` set es"
  shows "\<exists>x'. forEach es (\<lambda>e. put (f e)) (h, x) = (Ok (), (h, x')) \<and> R x x' \<and> (\<forall>q \<in> set (T (h, x')). P q)"
  using assms(6)
proof (induction es arbitrary: x)
  case Nil
  then show ?case
    using reflpD [OF assms(4)] by (auto simp: act_simps)
next
  case (Cons e es)
  obtain x1 where x1: "put (f e) (h, x) = (Ok (), (h, x1))" "R x x1"
    and T1: "set (T (h, x1)) = insert (f e) {q \<in> set (T (h, x)). key q \<noteq> key (f e)}"
    using assms(1) by blast
  have "\<forall>q \<in> set (T (h, x1)). P q \<or> key q \<in> key ` set es"
    using Cons.prems assms(2,3) by (auto simp: T1)
  then obtain x2 where "forEach es (\<lambda>e. put (f e)) (h, x1) = (Ok (), (h, x2))" and "R x1 x2"
    and "\<forall>q \<in> set (T (h, x2)). P q"
    using Cons.IH by blast
  then show ?case
    using x1 transpD [OF assms(5)] by (auto simp: bindA_def)
qed

section \<open>Heights\<close>

text \<open>A context is passed by value, so no keeper changes the caller's block height.\<close>

definition keepsHeight :: "('x ctx, 'a) act \<Rightarrow> bool" where
  "keepsHeight m \<longleftrightarrow> (\<forall>c r c'. m c = (r, c') \<longrightarrow> fst c' = fst c)"

lemma keepsHeightD: "keepsHeight m \<Longrightarrow> m (h, x) = (r, (h', x')) \<Longrightarrow> h' = h"
  by (force simp: keepsHeight_def)

lemma keepsHeight_simple: "keepsHeight (ret u)" "keepsHeight panic" "keepsHeight (liftR r)"
  by (simp_all add: keepsHeight_def act_simps)

lemma keepsHeight_caught: "keepsHeight m \<Longrightarrow> keepsHeight (caught m)"
  unfolding keepsHeight_def caught_def by (fastforce split: prod.splits result.splits)

lemma keepsHeight_bind: "keepsHeight m \<Longrightarrow> (\<And>u. keepsHeight (f u)) \<Longrightarrow> keepsHeight (bindA m f)"
  unfolding keepsHeight_def bindA_def by (fastforce split: prod.splits result.splits)

lemma keepsHeight_orPanic: "keepsHeight m \<Longrightarrow> keepsHeight (orPanic m)"
  unfolding orPanic_def
  by (intro keepsHeight_bind keepsHeight_caught) (auto simp: keepsHeight_simple split: result.split)

lemma keepsHeight_withState: "(\<And>c. keepsHeight (g c)) \<Longrightarrow> keepsHeight (withState g)"
  by (simp add: keepsHeight_def withState_def)

lemma keepsHeight_forEach: "(\<And>e. keepsHeight (body e)) \<Longrightarrow> keepsHeight (forEach es body)"
  by (induction es) (simp_all add: keepsHeight_simple keepsHeight_bind)

lemma keepsHeight_withBlockHeight: "keepsHeight (withBlockHeight h0 m)"
  by (auto simp: keepsHeight_def withBlockHeight_def split: prod.splits)

lemmas keepsHeight_intros = keepsHeight_simple keepsHeight_caught keepsHeight_bind keepsHeight_orPanic
  keepsHeight_withState keepsHeight_forEach keepsHeight_withBlockHeight

lemma orPanic_Ok_iff: "orPanic m c = (Ok u, c') \<longleftrightarrow> m c = (Ok u, c')"
  by (auto simp: orPanic_def caught_def bindA_def act_simps split: prod.splits result.splits)

section \<open>The tables of the staking and slashing keepers\<close>

text \<open>
  What is stored in a table replaces the entry of the same parties or address and keeps the
  other two tables; setting validators and applying the updates of the set keep all three.
\<close>

abbreviation zeroEntries :: "entries \<Rightarrow> bool" where
  "zeroEntries e \<equiv> set (CreationHeights e) \<subseteq> {0}"

text \<open>The two tables of the staking keeper hold zero heights only.\<close>

definition zeroTables :: "('x, 'c) export_sdk \<Rightarrow> 'x ctx \<Rightarrow> bool" where
  "zeroTables E c \<longleftrightarrow> (\<forall>q \<in> set (staking_IterateRedelegations E c). zeroEntries q) \<and>
     (\<forall>q \<in> set (staking_IterateUnbondingDelegations E c). zeroEntries q)"

text \<open>What is used of the keepers.\<close>

locale export_tables = validator_table E for E :: "('x, 'c) export_sdk" +
  assumes heights: "keepsHeight (crisis_AssertInvariants E)" "keepsHeight (distr_WithdrawValidatorCommission E a)"
      "keepsHeight (distr_WithdrawDelegationRewards E a b)" "keepsHeight (distr_DeleteAllValidatorSlashEvents E)"
      "keepsHeight (distr_DeleteAllValidatorHistoricalRewards E)" "keepsHeight (staking_ApplyValidatorSetUpdates E)"
    and SetRedelegation: "\<exists>x'. staking_SetRedelegation E r (h, x) = (Ok (), (h, x')) \<and>
      set (staking_IterateRedelegations E (h, x')) =
        insert r {q \<in> set (staking_IterateRedelegations E (h, x)). parties q \<noteq> parties r}"
    and SetUnbonding: "\<exists>x'. staking_SetUnbondingDelegation E r (h, x) = (Ok (), (h, x')) \<and>
      staking_IterateRedelegations E (h, x') = staking_IterateRedelegations E (h, x) \<and>
      set (staking_IterateUnbondingDelegations E (h, x')) =
        insert r {q \<in> set (staking_IterateUnbondingDelegations E (h, x)). parties q \<noteq> parties r}"
    and SetSigningInfo: "\<exists>x'. slashing_SetSigningInfo E b i (h, x) = (Ok (), (h, x')) \<and>
      staking_IterateRedelegations E (h, x') = staking_IterateRedelegations E (h, x) \<and>
      staking_IterateUnbondingDelegations E (h, x') = staking_IterateUnbondingDelegations E (h, x) \<and>
      set (slashing_IterateSigningInfos E (h, x')) =
        insert (b, i) {q \<in> set (slashing_IterateSigningInfos E (h, x)). fst q \<noteq> b}"
    and SetValidator_tables: "staking_SetValidator E v (h, x) = (Ok u, (h', x')) \<Longrightarrow>
      staking_IterateRedelegations E (h', x') = staking_IterateRedelegations E (h, x) \<and>
      staking_IterateUnbondingDelegations E (h', x') = staking_IterateUnbondingDelegations E (h, x)"
    and Apply_tables: "staking_ApplyValidatorSetUpdates E (h, x) = (Ok u, (h', x')) \<Longrightarrow>
      staking_IterateRedelegations E (h', x') = staking_IterateRedelegations E (h, x) \<and>
      staking_IterateUnbondingDelegations E (h', x') = staking_IterateUnbondingDelegations E (h, x)"
begin

lemma resetStaking_zero: "\<exists>x'. resetStaking E (h, x) = (Ok (), (h, x')) \<and> zeroTables E (h, x')"
proof -
  let ?reds = "staking_IterateRedelegations E" and ?ubds = "staking_IterateUnbondingDelegations E"
  have "\<exists>x'. forEach (?reds (h, x)) (\<lambda>e. staking_SetRedelegation E (resetEntries e)) (h, x) = (Ok (), (h, x')) \<and>
      True \<and> (\<forall>q \<in> set (?reds (h, x')). zeroEntries q)"
  proof (rule forEach_table [where R = "\<lambda>_ _. True" and key = parties])
    show "\<exists>x'. staking_SetRedelegation E (resetEntries e) (h, x) = (Ok (), (h, x')) \<and> True \<and>
        set (?reds (h, x')) = insert (resetEntries e) {q \<in> set (?reds (h, x)). parties q \<noteq> parties (resetEntries e)}"
      for e x using SetRedelegation [of "resetEntries e" h x] by simp
  qed (auto simp: resetEntries_def reflp_def transp_def)
  then obtain x1 where x1: "forEach (?reds (h, x)) (\<lambda>e. staking_SetRedelegation E (resetEntries e)) (h, x) = (Ok (), (h, x1))"
    and reds: "\<forall>q \<in> set (?reds (h, x1)). zeroEntries q" by blast
  have "\<exists>x'. forEach (?ubds (h, x1)) (\<lambda>e. staking_SetUnbondingDelegation E (resetEntries e)) (h, x1) = (Ok (), (h, x')) \<and>
      ?reds (h, x') = ?reds (h, x1) \<and> (\<forall>q \<in> set (?ubds (h, x')). zeroEntries q)"
  proof (rule forEach_table [where R = "\<lambda>x x'. ?reds (h, x') = ?reds (h, x)" and key = parties])
    show "\<exists>x'. staking_SetUnbondingDelegation E (resetEntries e) (h, x) = (Ok (), (h, x')) \<and>
        ?reds (h, x') = ?reds (h, x) \<and>
        set (?ubds (h, x')) = insert (resetEntries e) {q \<in> set (?ubds (h, x)). parties q \<noteq> parties (resetEntries e)}"
      for e x using SetUnbonding [of "resetEntries e" h x] by simp
  qed (auto simp: resetEntries_def reflp_def transp_def)
  then obtain x2 where "forEach (?ubds (h, x1)) (\<lambda>e. staking_SetUnbondingDelegation E (resetEntries e)) (h, x1) =
      (Ok (), (h, x2))" and "?reds (h, x2) = ?reds (h, x1)" and "\<forall>q \<in> set (?ubds (h, x2)). zeroEntries q" by blast
  with x1 reds show ?thesis
    by (simp add: resetStaking_def zeroTables_def withState_def bindA_def)
qed

lemma resetValidators_tables:
  assumes "zeroTables E (h, x)" and "resetValidators E ap al (h, x) = (Ok closed, (h', x'))"
  shows "h' = h" and "zeroTables E (h', x')"
    and "\<not> closed \<Longrightarrow> \<exists>err. staking_iter_Close E (h', x') = Err err"
proof -
  have loop: "h2 = h1 \<and> zeroTables E (h2, x2)"
    if "forEach ks (resetValidator E ap al) (h1, x1) = (Ok (), (h2, x2))" "zeroTables E (h1, x1)" for ks h1 x1 h2 x2
    using that
  proof (induction ks arbitrary: h1 x1)
    case (Cons k ks)
    obtain h3 x3 where one: "resetValidator E ap al k (h1, x1) = (Ok (), (h3, x3))"
      and rest: "forEach ks (resetValidator E ap al) (h3, x3) = (Ok (), (h2, x2))"
      using Cons.prems(1) by (auto simp: bindA_Ok_iff)
    obtain v where v: "staking_SetValidator E v (h1, x1) = (Ok (), (h3, x3))"
      using one by (auto simp: resetValidator_def act_simps Let_def split: option.splits)
    have "h3 = h1"
      using SetValidator [of v h1 x1] v by auto
    moreover have "zeroTables E (h3, x3)"
      using SetValidator_tables [OF v] Cons.prems(2) by (simp add: zeroTables_def)
    ultimately show ?case
      using Cons.IH [OF rest] by auto
  qed (simp add: act_simps)
  obtain h1 x1 where run: "forEach (staking_ValidatorKeys E (h, x)) (resetValidator E ap al) (h, x) = (Ok (), (h1, x1))"
    and close: "(case staking_iter_Close E (h1, x1) of Err err \<Rightarrow> ret False | Panic \<Rightarrow> panic
      | Ok _ \<Rightarrow> bindA (orPanic (staking_ApplyValidatorSetUpdates E)) (\<lambda>_. ret True)) (h1, x1) = (Ok closed, (h', x'))"
    using assms(2) by (auto simp: resetValidators_def withState_def bindA_Ok_iff)
  have one: "h1 = h" "zeroTables E (h1, x1)"
    using loop [OF run assms(1)] by auto
  have "h' = h \<and> zeroTables E (h', x') \<and> (\<not> closed \<longrightarrow> (\<exists>err. staking_iter_Close E (h', x') = Err err))"
  proof (cases "staking_iter_Close E (h1, x1)")
    case (Ok c)
    then obtain u where u: "staking_ApplyValidatorSetUpdates E (h1, x1) = (Ok u, (h', x'))" and closed
      using close by (auto simp: orPanic_Ok_iff bindA_Ok_iff act_simps)
    then show ?thesis
      using keepsHeightD [OF heights(6) u] Apply_tables [OF u] one by (simp add: zeroTables_def)
  qed (use close one in \<open>auto simp: act_simps\<close>)
  then show "h' = h" and "zeroTables E (h', x')" and "\<not> closed \<Longrightarrow> \<exists>err. staking_iter_Close E (h', x') = Err err"
    by blast+
qed

text \<open>A preparation that comes through.\<close>

lemma prep_zero:
  assumes "prepForZeroHeightGenesis E allowList (h, x) = (Ok u, (h', x'))"
  shows "h' = h" and "zeroTables E (h', x')"
    and "(\<forall>(b, i) \<in> set (slashing_IterateSigningInfos E (h', x')). StartHeight i = 0) \<or>
      (\<exists>err. staking_iter_Close E (h', x') = Err err)"
proof -
  define post where "post al = bindA (resetStaking E) (\<lambda>_. bindA (resetValidators E (allowList \<noteq> []) al) (\<lambda>closed.
      if closed then resetSigningInfos E else ret ()))" for al
  obtain al dels s1 s2 s3 s4 s5 s6 m where
    run: "crisis_AssertInvariants E (h, x) = (Ok (), s1)" "withdrawCommissions E s1 = (Ok (), s2)"
      "withdrawRewards E dels s2 = (Ok (), s3)" "distr_DeleteAllValidatorSlashEvents E s3 = (Ok (), s4)"
      "distr_DeleteAllValidatorHistoricalRewards E s4 = (Ok (), s5)" "withBlockHeight 0 m s5 = (Ok (), s6)"
    and rest: "post al s6 = (Ok (), (h', x'))"
    using assms unfolding prepForZeroHeightGenesis_def withState_def Let_def post_def [symmetric]
    by (auto simp del: split_paired_Ex simp: act_simps bindA_Ok_iff intro: that)
  have "keepsHeight (withdrawCommissions E)" "keepsHeight (withdrawRewards E dels)"
    unfolding withdrawCommissions_def withdrawRewards_def
    by (intro keepsHeight_intros heights; auto intro!: keepsHeight_intros heights split: prod.split)+
  then have "fst s6 = h"
    using run keepsHeight_withBlockHeight [of 0 m] heights unfolding keepsHeight_def by (metis fst_conv)
  then obtain x6 where s6: "s6 = (h, x6)" by (cases s6) auto
  obtain x7 where x7: "resetStaking E (h, x6) = (Ok (), (h, x7))" and zero7: "zeroTables E (h, x7)"
    using resetStaking_zero by blast
  obtain closed h8 x8 where r8: "resetValidators E (allowList \<noteq> []) al (h, x7) = (Ok closed, (h8, x8))"
    and last: "(if closed then resetSigningInfos E else ret ()) (h8, x8) = (Ok (), (h', x'))"
    using rest by (auto simp: post_def s6 bindA_def x7 split: prod.splits result.splits)
  note v = resetValidators_tables [OF zero7 r8]
  let ?infos = "slashing_IterateSigningInfos E" and ?reds = "staking_IterateRedelegations E"
    and ?ubds = "staking_IterateUnbondingDelegations E"
  define put where "put = (\<lambda>(b, i). slashing_SetSigningInfo E b i)"
  have "\<exists>x'. forEach (?infos (h, x8)) (\<lambda>e. put (fst e, (snd e)\<lparr>StartHeight := 0\<rparr>)) (h, x8) = (Ok (), (h, x')) \<and>
      (?reds (h, x') = ?reds (h, x8) \<and> ?ubds (h, x') = ?ubds (h, x8)) \<and>
      (\<forall>q \<in> set (?infos (h, x')). StartHeight (snd q) = 0)"
  proof (rule forEach_table [where key = fst
        and R = "\<lambda>x x'. ?reds (h, x') = ?reds (h, x) \<and> ?ubds (h, x') = ?ubds (h, x)"])
    show "\<exists>x'. put (fst e, (snd e)\<lparr>StartHeight := 0\<rparr>) (h, x) = (Ok (), (h, x')) \<and>
        (?reds (h, x') = ?reds (h, x) \<and> ?ubds (h, x') = ?ubds (h, x)) \<and>
        set (?infos (h, x')) = insert (fst e, (snd e)\<lparr>StartHeight := 0\<rparr>)
          {q \<in> set (?infos (h, x)). fst q \<noteq> fst (fst e, (snd e)\<lparr>StartHeight := 0\<rparr>)}" for e x
      using SetSigningInfo [of "fst e" "(snd e)\<lparr>StartHeight := 0\<rparr>" h x] by (simp add: put_def)
  qed (auto simp: reflp_def transp_def)
  moreover have "(\<lambda>e. put (fst e, (snd e)\<lparr>StartHeight := 0\<rparr>)) =
      (\<lambda>(b, i). slashing_SetSigningInfo E b (i\<lparr>StartHeight := 0\<rparr>))"
    by (auto simp: put_def)
  ultimately obtain x9 where x9: "resetSigningInfos E (h, x8) = (Ok (), (h, x9))"
    and keep9: "?reds (h, x9) = ?reds (h, x8)" "?ubds (h, x9) = ?ubds (h, x8)"
    and infos: "\<forall>q \<in> set (?infos (h, x9)). StartHeight (snd q) = 0"
    by (auto simp: resetSigningInfos_def withState_def)
  show "h' = h" and "zeroTables E (h', x')"
    and "(\<forall>(b, i) \<in> set (?infos (h', x')). StartHeight i = 0) \<or> (\<exists>err. staking_iter_Close E (h', x') = Err err)"
    using last v x9 keep9 infos by (cases closed; auto simp: act_simps zeroTables_def)+
qed

end

end
