(* ===== verification/AppModules.thy ===== *)
theory AppModules
  imports EndBlock Provider
begin

text \<open>
  The two modules as the SDK's module manager sees them (\<open>x/meshsecurity/module.go\<close>,
  \<open>x/meshsecurityprovider/module.go\<close>): genesis as JSON bytes and the block hooks. The JSON
  codec is a parameter. The lemmas show that the default genesis is valid and that what a
  module imports it exports.
\<close>

section \<open>The mesh-security module\<close>

text \<open>A JSON codec for a type of genesis states.\<close>

record 'g json_codec =
  MarshalJSON :: "'g \<Rightarrow> bytes result"
  UnmarshalJSON :: "bytes \<Rightarrow> 'g result"

text \<open>\<open>AppModule\<close>: the codec, the keeper and the handler of task results.\<close>

record ('s, 'x) AppModule =
  am_cdc :: "genesis_state json_codec"
  am_k :: "('s, 'x) sdk"
  asyncTaskRspHandler :: "('s, 'x) response_handler"

definition NewAppModuleX :: "genesis_state json_codec \<Rightarrow> ('s, 'x) sdk \<Rightarrow> ('s, 'x) response_handler \<Rightarrow>
    ('s, 'x) AppModule" where
  "NewAppModuleX cdc k h = \<lparr>am_cdc = cdc, am_k = k, asyncTaskRspHandler = h\<rparr>"

definition NewAppModule :: "genesis_state json_codec \<Rightarrow> ('s, 'x) sdk \<Rightarrow> ('s, 'x) AppModule" where
  "NewAppModule cdc k = NewAppModuleX cdc k DefaultExecutionResponseHandler"

definition SetAsyncTaskRspHandler ::
    "('s, 'x) response_handler \<Rightarrow> ('s, 'x) AppModule \<Rightarrow> ('s, 'x) AppModule" where
  "SetAsyncTaskRspHandler h am = am\<lparr>asyncTaskRspHandler := h\<rparr>"

definition ConsensusVersion :: u64 where "ConsensusVersion = 1"

definition Module_DefaultGenesis :: "('s, 'x) sdk \<Rightarrow> genesis_state json_codec \<Rightarrow> string \<Rightarrow> bytes result" where
  "Module_DefaultGenesis E cdc DefaultBondDenom =
     bindR (DefaultGenesisState E DefaultBondDenom) (\<lambda>gs. mustR (MarshalJSON cdc gs))"

definition Module_ValidateGenesis :: "('s, 'x) sdk \<Rightarrow> genesis_state json_codec \<Rightarrow> bytes \<Rightarrow> unit result" where
  "Module_ValidateGenesis E cdc bz =
     bindR (UnmarshalJSON cdc bz) (\<lambda>data. ValidateGenesis E data)"

text \<open>The block hooks return no validator updates.\<close>

definition Module_InitGenesis :: "('s, 'x) AppModule \<Rightarrow> genesis_state json_codec \<Rightarrow> bytes \<Rightarrow>
    (('s, 'x) chain, unit list) act" where
  "Module_InitGenesis am cdc bz =
     bindA (liftR (mustR (UnmarshalJSON cdc bz))) (\<lambda>data.
     bindA (InitGenesis (am_k am) data) (\<lambda>_. ret []))"

definition Module_ExportGenesis :: "('s, 'x) AppModule \<Rightarrow> genesis_state json_codec \<Rightarrow>
    ('s, 'x) chain \<Rightarrow> bytes result" where
  "Module_ExportGenesis am cdc ctx =
     bindR (ExportGenesis (am_k am) ctx) (\<lambda>gs. mustR (MarshalJSON cdc gs))"

text \<open>No invariants are registered; \<open>ir\<close> is the registry.\<close>

definition Module_RegisterInvariants :: "('s, 'x) AppModule \<Rightarrow> 'ir \<Rightarrow> 'ir" where
  "Module_RegisterInvariants am ir = ir"

definition Module_Name :: string where "Module_Name = ModuleName"

definition Module_QuerierRoute :: string where "Module_QuerierRoute = ModuleName"

definition Module_BeginBlock :: "('s, 'x) AppModule \<Rightarrow> (('s, 'x) chain, unit) act" where
  "Module_BeginBlock am = ret ()"

definition Module_EndBlock :: "('s, 'x) AppModule \<Rightarrow> (('s, 'x) chain, unit list) act" where
  "Module_EndBlock am = bindA (EndBlocker (am_k am) (asyncTaskRspHandler am)) (\<lambda>_. ret [])"

section \<open>The provider module\<close>

definition ProviderModuleName :: string where "ProviderModuleName = ''test_module''"

definition Provider_Name :: string where "Provider_Name = ProviderModuleName"

definition Provider_QuerierRoute :: string where "Provider_QuerierRoute = ProviderModuleName"

definition Provider_ConsensusVersion :: u64 where "Provider_ConsensusVersion = 1"

text \<open>\<open>AppModule\<close> of the provider: its keeper.\<close>

record provider_module =
  pm_k :: provider_keeper

definition Provider_NewAppModule :: "provider_keeper \<Rightarrow> provider_module" where
  "Provider_NewAppModule moduleKeeper = \<lparr>pm_k = moduleKeeper\<rparr>"

definition Provider_RegisterInvariants :: "provider_module \<Rightarrow> 'ir \<Rightarrow> 'ir" where
  "Provider_RegisterInvariants am ir = ir"

definition Provider_DefaultGenesis :: "provider_genesis json_codec \<Rightarrow> bytes result" where
  "Provider_DefaultGenesis cdc = mustR (MarshalJSON cdc DefaultProviderGenesis)"

definition Provider_ValidateGenesis :: "provider_genesis json_codec \<Rightarrow> bytes \<Rightarrow> unit result" where
  "Provider_ValidateGenesis cdc bz = bindR (UnmarshalJSON cdc bz) ProviderGenesis_Validate"

definition Provider_Module_InitGenesis :: "('s, 'x) sdk \<Rightarrow> provider_module \<Rightarrow>
    provider_genesis json_codec \<Rightarrow> bytes \<Rightarrow> (('s, 'x) chain, unit list) act" where
  "Provider_Module_InitGenesis E am cdc gs =
     bindA (liftR (mustR (UnmarshalJSON cdc gs))) (\<lambda>genesisState.
     bindA (ProviderInitGenesis E (pm_k am) genesisState) (\<lambda>_. ret []))"

definition Provider_Module_ExportGenesis :: "('s, 'x) sdk \<Rightarrow> provider_module \<Rightarrow>
    provider_genesis json_codec \<Rightarrow> ('s, 'x) chain \<Rightarrow> bytes result" where
  "Provider_Module_ExportGenesis E am cdc ctx =
     bindR (ProviderExportGenesis E (pm_k am) ctx) (\<lambda>genState. mustR (MarshalJSON cdc genState))"

definition Provider_Module_BeginBlock :: "(('s, 'x) chain, unit) act" where
  "Provider_Module_BeginBlock = ret ()"

definition Provider_Module_EndBlock :: "(('s, 'x) chain, unit list) act" where
  "Provider_Module_EndBlock = ret []"

section \<open>Lemmas\<close>

text \<open>
  A default genesis that is produced at all is valid, when a coin that was constructed passes
  its own validation.
\<close>

lemma default_genesis_valid:
  assumes "params_codec (MarshalJSON cdc) (UnmarshalJSON cdc) (setCap \<circ> GenesisParams)"
    and "\<And>c. Coin_New E d (Some 10000000000) = Ok c \<Longrightarrow> Coin_Validate E c = Ok () \<and> amount c \<noteq> None"
    and "Module_DefaultGenesis E cdc d = Ok bz"
  shows "Module_ValidateGenesis E cdc bz = Ok ()"
proof -
  obtain p where p: "DefaultParams E d = Ok p" and bz: "MarshalJSON cdc (NewGenesisState p) = Ok bz"
    using assms(3) by (auto simp: Module_DefaultGenesis_def DefaultGenesisState_def ok_iffs)
  have cap: "Coin_Validate E (TotalContractsMaxCap p) = Ok ()" "setCap p"
    using p assms(2) by (auto simp: DefaultParams_def ok_iffs setCap_def)
  have "UnmarshalJSON cdc bz = Ok (NewGenesisState p)"
    using params_codec.codec_roundtrip [OF assms(1) _ bz] cap(2) by (simp add: NewGenesisState_def)
  then show ?thesis
    using DefaultParams_valid [OF p cap(1)]
    by (simp add: Module_ValidateGenesis_def ValidateGenesis_def NewGenesisState_def)
qed

lemma Module_InitGenesis_OkD:
  assumes "Module_InitGenesis am cdc bz s = (Ok vs, t)"
  obtains gs where "UnmarshalJSON cdc bz = Ok gs" and "InitGenesis (am_k am) gs s = (Ok (), t)" and "vs = []"
  using assms by (auto simp: Module_InitGenesis_def act_simps ok_iffs)

lemma module_genesis_roundtrip:
  assumes "mesh_params (am_k am)" and "Module_InitGenesis am cdc bz s = (Ok vs, t)"
    and "UnmarshalJSON cdc bz = Ok gs" and "setCap (GenesisParams gs)" and "MarshalJSON cdc gs = Ok bz"
  shows "Module_ExportGenesis am cdc t = Ok bz \<and> vs = []"
proof (rule Module_InitGenesis_OkD [OF assms(2)])
  fix gs'
  assume "UnmarshalJSON cdc bz = Ok gs'" and run: "InitGenesis (am_k am) gs' s = (Ok (), t)" and "vs = []"
  moreover from this have "ExportGenesis (am_k am) t = Ok gs"
    using mesh_params.InitGenesis_Export [OF assms(1,4)] assms(3) by simp
  ultimately show ?thesis
    using assms(5) by (simp add: Module_ExportGenesis_def)
qed

lemma Module_EndBlock_eq:
  "Module_EndBlock am s = (case EndBlocker (am_k am) (asyncTaskRspHandler am) s of
     (Ok _, t) \<Rightarrow> (Ok [], t) | (Err e, t) \<Rightarrow> (Err e, t) | (Panic, t) \<Rightarrow> (Panic, t))"
  by (simp add: Module_EndBlock_def bindA_def act_simps split: prod.splits result.splits)

end
