(* ===== verification/Refinement.thy ===== *)
theory Refinement
  imports Machine
begin

text \<open>
  The module refines the ledger: read through \<open>ledgerOf\<close>, a step of the chain is a step of the
  ledger or none, and genesis is the empty ledger. What holds of the ledger's reachable states
  therefore holds of the chain's.
\<close>

definition ledgerOf :: "('s, 'x) sdk \<Rightarrow> ('s, 'x) chain \<Rightarrow> ledger" where
  "ledgerOf E s = \<lparr>caps = limitOf E s, bonded = totalOf E s, agenda = taskAt E s,
     changes = set (pipedOps E s), now = height s\<rparr>"

lemma ledgerOf_sel [simp]:
  "caps (ledgerOf E s) = limitOf E s" "bonded (ledgerOf E s) = totalOf E s"
  "agenda (ledgerOf E s) = taskAt E s" "changes (ledgerOf E s) = set (pipedOps E s)"
  "now (ledgerOf E s) = height s"
  by (simp_all add: ledgerOf_def)

lemma ledgerOf_eqI:
  assumes "limitOf E t = caps a" and "totalOf E t = bonded a" and "taskAt E t = agenda a"
    and "set (pipedOps E t) = changes a" and "height t = now a"
  shows "ledgerOf E t = a"
  using assms by (cases a) (simp add: ledgerOf_def)

text \<open>An epoch of 32 bits keeps its value as a 64-bit number.\<close>

lemma ucast_epoch:
  fixes e :: u32
  shows "unat (ucast e :: u64) = unat e" and "(ucast e :: u64) = 0 \<longleftrightarrow> e = 0"
proof -
  show unat: "unat (ucast e :: u64) = unat e"
    by (simp add: unsigned_ucast_eq take_bit_nat_eq_self_iff less_trans [OF unsigned_less])
  show "(ucast e :: u64) = 0 \<longleftrightarrow> e = 0"
    using unat by (metis unat_eq_zero unsigned_0)
qed

context mesh_machine
begin

lemma totalCaps_sumCaps: "totalCaps E s = sumCaps (limitOf E s)"
  by (simp add: totalCaps_sum sumCaps_def)

lemma totalOf_cong: "(\<And>c. delegatedOf E t c = delegatedOf E s c) \<Longrightarrow> totalOf E t = totalOf E s"
  by (simp add: totalOf_def fun_eq_iff)

lemma genesis_empty:
  assumes "emptyChain E s" and "InitGenesis E (NewGenesisState p) s = (Ok u, t)"
  shows "ledgerOf E t = emptyLedger (height t)"
proof -
  obtain bz where t: "t = s\<lparr>store := kv_Set E (store s) ParamsKey bz\<rparr>"
    using assms(2) by (auto simp: InitGenesis_def NewGenesisState_def SetParams_Ok_iff
        split: prod.splits result.splits)
  have get: "kv_Get E (store t) k = (if k = ParamsKey then Some bz else None)" "kv_Get E (mem t) k = None" for k
    using assms(1) by (simp_all add: t get_set emptyChain_def)
  have keys: "BuildMaxCapLimitKey c \<noteq> ParamsKey" "BuildTotalDelegatedAmountKey c \<noteq> ParamsKey"
    "SchedulerKeyPrefix @ k \<noteq> ParamsKey" for c k
    by (simp_all add: key_defs)
  have "wfOps E t"
    by (simp add: wfOps_def get)
  then have "pipedOps E t = []"
    using pipedOps_iff [of t] get(2) by (metis list.set_intros(1) neq_Nil_conv)
  then show ?thesis
    by (intro ledgerOf_eqI) (simp_all add: emptyLedger_def fun_eq_iff totalOf_def amountAt_def taskAt_def
        get keys)
qed

lemma contract_refines:
  assumes "contract_step E s t" and "wfAmounts E s"
  shows "(ledger_step epoch L)\<^sup>=\<^sup>= (ledgerOf E s) (ledgerOf E t)"
proof -
  note frame = contract_step_frame [OF assms(1)]
  have "ledgerOf E t = ledgerOf E s\<lparr>bonded := totalOf E t\<rparr>"
    using onlyTotals_limit [OF frame] keepsTasks_taskAt [OF onlyTotals_keepsTasks [OF frame]] frame
      pipedOps_cong [of t s]
    by (intro ledgerOf_eqI) (simp_all add: fun_eq_iff onlyTotals_def)
  moreover from contract_step_bonding [OF assms]
  have "totalOf E t = totalOf E s \<or> bonding (caps (ledgerOf E s)) (bonded (ledgerOf E s)) (totalOf E t)"
    by auto
  moreover have "ledgerOf E s\<lparr>bonded := totalOf E s\<rparr> = ledgerOf E s"
    by (simp add: ledgerOf_def)
  ultimately show ?thesis
    using ledger_step.stake [of "ledgerOf E s" "totalOf E t"] by auto
qed

lemma set_cap_refines:
  assumes "meshInv E p L s" and "TotalContractsMaxCap p = Coin d (Some L)"
    and ok: "SetVirtualStakingMaxCap E req s = (Ok u, t)"
  shows "ledger_step (ucast (EpochLength p)) L (ledgerOf E s) (ledgerOf E t)"
proof -
  have inv: "wfAmounts E s" "wfTasks E s" "GetParams E s = Ok p"
    using assms(1) by (simp_all add: meshInv_def)
  have params: "GetTotalContractsMaxCap E s = Ok (Coin d (Some L))"
    "GetRebalanceEpochLength E s = Ok (ucast (EpochLength p))"
    using inv(3) assms(2) by (simp_all add: GetTotalContractsMaxCap_def GetRebalanceEpochLength_def)
  have "Coin_Validate E (msg_MaxCap req) = Ok ()"
    using ok by (auto simp: SetVirtualStakingMaxCap_def ValidateBasic_def ok_iffs split: result.splits)
  then obtain n where n: "amount (msg_MaxCap req) = Some n" "0 \<le> n"
    using Coin_Validate by blast
  obtain c where c: "limitOf E t c = Some n" "\<And>c'. c' \<noteq> c \<Longrightarrow> limitOf E t c' = limitOf E s c'"
      "totalCaps E t \<le> L" "\<And>c'. delegatedOf E t c' = delegatedOf E s c'"
      "mem t = mem s" "height t = height s"
      "(\<exists>h. taskAt E s SchedulerTaskHandleEpoch h c = Some True) \<or> height s \<le> height s + ucast (EpochLength p)"
    and at: "\<And>tp h c'. taskAt E t tp h c' =
      (if tp \<noteq> SchedulerTaskHandleEpoch \<or> c' \<noteq> c then taskAt E s tp h c'
       else if \<nexists>h. taskAt E s SchedulerTaskHandleEpoch h c = Some True
       then (if h = height s + ucast (EpochLength p) then Some True else taskAt E s tp h c')
       else if n = 0 then (if h = height s then Some False else None)
       else if h = height s \<and> taskAt E s tp h c' = None then Some False else taskAt E s tp h c')"
    by (rule SetVirtualStakingMaxCap_OkD [OF ok inv(1,2) params n(1)]) (rule that; blast)
  have lim: "limitOf E t = (limitOf E s)(c \<mapsto> n)"
    using c(1,2) by (auto simp: fun_eq_iff)
  have "ledgerOf E t = ledgerOf E s\<lparr>caps := (caps (ledgerOf E s))(c \<mapsto> n),
      agenda := rearranged (ucast (EpochLength p)) (now (ledgerOf E s)) c n (agenda (ledgerOf E s))\<rparr>"
    using totalOf_cong [OF c(4)] pipedOps_cong [OF c(5)]
    by (intro ledgerOf_eqI) (simp_all add: lim c(6) fun_eq_iff at rearranged_def)
  moreover have "sumCaps ((limitOf E s)(c \<mapsto> n)) \<le> L"
    using c(3) by (simp add: totalCaps_sumCaps lim)
  ultimately show ?thesis
    using ledger_step.limit [OF n(2), of "ledgerOf E s" c L "ucast (EpochLength p)"] c(7) by simp
qed

lemma valset_refines:
  assumes "meshInv E p L s" and "goodOp op val si" and ok: "sendAsync E op val si s = (Ok u, t)"
  shows "ledger_step epoch L (ledgerOf E s) (ledgerOf E t)"
proof -
  have inv: "wfAmounts E s" "wfOps E s"
    using assms(1) by (simp_all add: meshInv_def)
  obtain t' where t': "sendAsync E op val si s = (Ok (), t')" "tasksOnly E (storedOp s op val si) t'"
    "\<And>tp h c. taskAt E t' tp h c =
      (if tp = SchedulerTaskValsetUpdate \<and> h = height s \<and> taskAt E s tp h c = None \<and>
          (\<exists>n. limitOf E s c = Some n \<and> 0 < n)
       then Some False else taskAt E s tp h c)"
    by (rule sendAsync_eq [OF assms(2) inv(1)]) (rule that; assumption)
  have t: "t = t'" using ok t'(1) by simp
  note only = t'(2) [folded t]
  have "limitOf E t = limitOf E s" "totalOf E t = totalOf E s"
    using tasksOnly_amounts(1,2) [OF only] by (simp_all add: fun_eq_iff totalOf_def amountAt_def)
  moreover have "set (pipedOps E t) = insert (reportedOp op val si) (set (pipedOps E s))"
    using pipedOps_cong [OF tasksOnly_mem [OF only]] pipedOps_storedOp [OF inv(2) assms(2)] by simp
  moreover have "height t = height s"
    using only by (simp add: tasksOnly_def)
  ultimately have "ledgerOf E t = ledgerOf E s\<lparr>
      changes := insert (reportedOp op val si) (changes (ledgerOf E s)),
      agenda := announced (now (ledgerOf E s)) (caps (ledgerOf E s)) (agenda (ledgerOf E s))\<rparr>"
    using t'(3) by (intro ledgerOf_eqI) (simp_all add: fun_eq_iff t announced_def)
  then show ?thesis
    using ledger_step.change [of epoch L "ledgerOf E s"] by simp
qed

text \<open>What a block end does, in the words of the ledger.\<close>

lemma EndBlocker_effect:
  assumes inv: "meshInv E p L s" and "wasmRuns E"
    and ok: "EndBlocker E DefaultExecutionResponseHandler s = (Ok u, t)" and h: "height s < 2 ^ 63"
  shows "limitOf E t = limitOf E s" and "bondings (limitOf E s) (totalOf E s) (totalOf E t)"
    and "pipedOps E t = []" and "height t = height s"
    and "taskAt E t = performed (ucast (EpochLength p)) (height s) (taskAt E s)"
proof -
  let ?epoch = "ucast (EpochLength p) :: u64" and ?g = "ucast (MaxGasEndBlocker p) :: u64"
  have i: "wfAmounts E s" "wfTasks E s" "GetParams E s = Ok p" "wfOps E s"
    using inv by (simp_all add: meshInv_def)
  have params: "GetMaxSudoGas E s = Ok ?g" "GetRebalanceEpochLength E s = Ok ?epoch"
    using i(3) by (simp_all add: GetMaxSudoGas_def GetRebalanceEpochLength_def)
  note le = height_plus_epoch(1) [OF h, of "EpochLength p"]
  obtain t' where t': "EndBlocker E DefaultExecutionResponseHandler s = (Ok (), t')"
    "height t' = height s"
    "\<And>tp h c. taskAt E t' tp h c =
      (if tp = SchedulerTaskValsetUpdate \<or> tp = SchedulerTaskHandleEpoch then
        (if h \<le> height s then None
         else if ?epoch \<noteq> 0 \<and> h = height s + ?epoch \<and> (\<exists>h0 \<le> height s. taskAt E s tp h0 c = Some True)
         then Some True else taskAt E s tp h c)
       else taskAt E s tp h c)"
    by (rule EndBlocker_eq [OF wasmRuns_goodSudo [OF assms(2)] i(2) params le]) (rule that; assumption)
  have t: "t' = t" using ok t'(1) by simp
  have start: "keptByRuns (limitOf E s) (totalOf E s) s"
    by (simp add: keptByRuns_def i)
  note kept = EndBlocker_keeps [OF assms(2) params(1) i(2) le params(2) ok start]
  from kept(1) show "limitOf E t = limitOf E s" "bondings (limitOf E s) (totalOf E s) (totalOf E t)"
    by (simp_all add: keptByRuns_def fun_eq_iff)
  from kept(2) t'(2,3) show "pipedOps E t = []" "height t = height s"
    "taskAt E t = performed ?epoch (height s) (taskAt E s)"
    by (simp_all add: t fun_eq_iff performed_def)
qed

lemma end_block_refines:
  assumes inv: "meshInv E p L s" and "wasmRuns E"
    and ok: "EndBlocker E DefaultExecutionResponseHandler s = (Ok u, t)" and h: "height s < 2 ^ 63"
  shows "ledger_step (ucast (EpochLength p)) L (ledgerOf E s)
    (ledgerOf E (t\<lparr>height := height t + 1, blockTime := bt\<rparr>))"
proof -
  let ?epoch = "ucast (EpochLength p) :: u64"
  define v where v: "v = t\<lparr>height := height t + 1, blockTime := bt\<rparr>"
  note effect = EndBlocker_effect [OF assms]
  have "limitOf E v = limitOf E t" "taskAt E v = taskAt E t"
    by (simp_all add: v amountAt_def taskAt_def fun_eq_iff)
  moreover have total: "totalOf E v = totalOf E t"
    by (rule totalOf_store) (simp add: v)
  moreover have "pipedOps E v = pipedOps E t"
    by (rule pipedOps_cong) (simp add: v)
  moreover have "height v = height s + 1"
    using effect(4) by (simp add: v)
  ultimately have "ledgerOf E v = ledgerOf E s\<lparr>bonded := totalOf E t, changes := {},
      agenda := performed ?epoch (now (ledgerOf E s)) (agenda (ledgerOf E s)),
      now := now (ledgerOf E s) + 1\<rparr>"
    by (intro ledgerOf_eqI) (simp_all add: effect)
  then show ?thesis
    unfolding v [symmetric]
    using ledger_step.tick [of "ledgerOf E s" "totalOf E t" ?epoch L] effect(2)
      height_plus_epoch(1) [OF h, of "EpochLength p"] height_plus_epoch(2) [OF h] by simp
qed

theorem mesh_step_refines:
  assumes "meshInv E p L s" and "TotalContractsMaxCap p = Coin d (Some L)" and "wasmRuns E"
    and "mesh_step E s t"
  shows "(ledger_step (ucast (EpochLength p)) L)\<^sup>=\<^sup>= (ledgerOf E s) (ledgerOf E t)"
  using assms(4)
proof cases
  case contract
  then show ?thesis
    by (rule contract_refines) (use assms(1) in \<open>simp add: meshInv_def\<close>)
next
  case (set_cap req u)
  then show ?thesis using set_cap_refines [OF assms(1,2)] by simp
next
  case (valset op val si u)
  then show ?thesis using valset_refines [OF assms(1)] by auto
next
  case (end_block u t' bt)
  then show ?thesis using end_block_refines [OF assms(1,3)] by auto
qed

theorem reachable_refines:
  assumes "mesh_reachable E p s" and "TotalContractsMaxCap p = Coin d (Some L)" and "0 \<le> L"
    and "wasmRuns E"
  shows "ledger_reachable (ucast (EpochLength p)) L (ledgerOf E s)"
  using assms(1)
proof induction
  case (genesis s u t)
  then show ?case
    using genesis_empty ledger_reachable.start by metis
next
  case (step s t)
  then show ?case
    using mesh_step_refines [OF reachable_inv [OF step.hyps(1) assms(2-4)] assms(2,4) step.hyps(2)]
      ledger_reachable.more by auto
qed

end

end
