(* ===== verification/AppBlocks.thy ===== *)
theory AppBlocks
  imports App AppModules Refinement
begin

text \<open>
  The demo chain's block hooks (\<open>BeginBlocker\<close> and \<open>EndBlocker\<close> in \<open>demo/app/app.go\<close>): the
  SDK's module manager runs the hooks of the modules in the configured order. The manager is a
  parameter with its laws as a locale. Since mesh security is last at the block end, it runs on
  the state that all others leave, and what they recorded reaches the contracts in this block.
\<close>

type_synonym ('s, 'x) block_hook = "(('s, 'x) chain, unit list) act"

type_synonym ('s, 'x) manager_hook =
  "app_module list \<Rightarrow> (app_module \<Rightarrow> ('s, 'x) block_hook) \<Rightarrow> ('s, 'x) block_hook"

definition App_BeginBlocker :: "('s, 'x) manager_hook \<Rightarrow> (app_module \<Rightarrow> ('s, 'x) block_hook) \<Rightarrow>
    ('s, 'x) block_hook" where
  "App_BeginBlocker manager mods = manager OrderBeginBlockers mods"

definition App_EndBlocker :: "('s, 'x) manager_hook \<Rightarrow> (app_module \<Rightarrow> ('s, 'x) block_hook) \<Rightarrow>
    ('s, 'x) block_hook" where
  "App_EndBlocker manager mods = manager OrderEndBlockers mods"

text \<open>
  What is used of the manager: without modules it does nothing, and when it comes through a list
  of modules, it came through all but the last of them and then the last one.
\<close>

locale module_manager =
  fixes manager :: "('s, 'x) manager_hook"
  assumes manager_nil: "manager [] mods s = (Ok [], s)"
    and manager_snoc: "manager (ms @ [m]) mods s = (Ok vs, t) \<Longrightarrow>
      \<exists>us ws u. manager ms mods s = (Ok us, u) \<and> mods m u = (Ok ws, t)"
begin

text \<open>What every hook of the list keeps, the manager keeps.\<close>

lemma manager_keeps:
  assumes "manager ms mods s = (Ok vs, t)" and "P s"
    and "\<And>m s. m \<in> set ms \<Longrightarrow> P s \<Longrightarrow> P (snd (mods m s))"
  shows "P t"
  using assms
proof (induction ms arbitrary: vs t rule: rev_induct)
  case Nil
  then show ?case by (simp add: manager_nil)
next
  case (snoc m ms)
  then obtain us ws u where u: "manager ms mods s = (Ok us, u)" "mods m u = (Ok ws, t)"
    using manager_snoc by blast
  have "P u"
    by (rule snoc.IH [OF u(1) snoc.prems(2)]) (use snoc.prems(3) in simp)
  then show ?case
    using snoc.prems(3) [of m u] u(2) by simp
qed

lemma mesh_last:
  assumes "App_EndBlocker manager mods s = (Ok vs, t)"
  obtains us u ws where "manager (butlast OrderEndBlockers) mods s = (Ok us, u)"
    and "mods MMeshsec u = (Ok ws, t)"
proof -
  have "OrderEndBlockers = butlast OrderEndBlockers @ [MMeshsec]"
    by (simp add: OrderEndBlockers_def)
  then show thesis
    using assms manager_snoc that unfolding App_EndBlocker_def by metis
qed

end

text \<open>A keeper's module that is run by its own end blocker.\<close>

lemma Module_EndBlock_Ok:
  assumes "Module_EndBlock (NewAppModule cdc E) s = (Ok ws, t)"
  shows "EndBlocker E DefaultExecutionResponseHandler s = (Ok (), t)" and "ws = []"
  using assms by (auto simp: Module_EndBlock_eq NewAppModule_def NewAppModuleX_def
      split: prod.splits result.splits)

context mesh_machine
begin

text \<open>After the module's block end nothing is due and no change is left, in reachable states.\<close>

lemma EndBlocker_done:
  assumes "meshInv E p L s" and "wasmRuns E" and "height s < 2 ^ 63"
    and run: "EndBlocker E DefaultExecutionResponseHandler s = (Ok u, t)"
  shows "height t = height s" and "pipedOps E t = []"
    and "taskAt E t tp h c \<noteq> None \<Longrightarrow> height s < h"
proof -
  note effect = EndBlocker_effect [OF assms(1,2) run assms(3)]
  from effect show "height t = height s" "pipedOps E t = []" by simp_all
  have ahead: "tasksAhead E s" using assms(1) by (simp add: meshInv_def)
  show "height s < h" if "taskAt E t tp h c \<noteq> None"
    using that tasksAheadD(1) [OF ahead, of tp h c]
    by (auto simp: effect(5) performed_def not_le split: if_splits)
qed

end

end
