(* ===== verification/Cli.thy ===== *)
theory Cli
  imports MsgServer Handlers AppModules
begin

text \<open>
  The command line clients (\<open>x/meshsecurity/client/cli\<close>,
  \<open>x/meshsecurityprovider/client/cli\<close>): the proposal that sets a max cap, the queries, and
  the provider's test message. Cobra, the SDK's client context and the broadcast are
  parameters. The lemmas show what reaches the broadcast.
\<close>

section \<open>The client environment\<close>

text \<open>
  \<open>'p\<close> is a gov proposal message, \<open>'w\<close> the outside world the broadcast acts on. The client
  context is read for the sender's address only.
\<close>

record ('p, 'w) cli_env =
  GetClientTxContext :: "string result"
  GetClientQueryContext :: "unit result"
  GetString :: "string \<Rightarrow> string result"
  ParseCoinNormalized :: "string \<Rightarrow> coin result"
  ParseCoinsNormalized :: "string \<Rightarrow> coins result"
  NewMsgSubmitProposal :: "MsgSetVirtualStakingMaxCap list \<Rightarrow> coins \<Rightarrow> string \<Rightarrow> string \<Rightarrow>
    string \<Rightarrow> string \<Rightarrow> 'p result"
  Proposal_ValidateBasic :: "'p \<Rightarrow> unit result"
  GenerateOrBroadcastTxCLI :: "'p \<Rightarrow> ('w, unit) act"

definition flagAuthority :: string where "flagAuthority = ''authority''"
definition FlagTitle :: string where "FlagTitle = ''title''"
definition FlagSummary :: string where "FlagSummary = ''summary''"
definition FlagMetadata :: string where "FlagMetadata = ''metadata''"
definition FlagDeposit :: string where "FlagDeposit = ''deposit''"

text \<open>The flags of a proposal command and their defaults.\<close>

definition addCommonProposalFlags :: "string \<Rightarrow> (string \<times> string) list" where
  "addCommonProposalFlags DefaultGovAuthority =
     [(FlagTitle, []), (FlagSummary, []), (FlagMetadata, []), (FlagDeposit, []),
      (flagAuthority, DefaultGovAuthority)]"

section \<open>The proposal command\<close>

definition getProposalInfo ::
    "('p, 'w) cli_env \<Rightarrow> (string \<times> string \<times> string \<times> string \<times> coins) result" where
  "getProposalInfo C =
     bindR (GetClientTxContext C) (\<lambda>clientCtx.
     bindR (GetString C FlagTitle) (\<lambda>proposalTitle.
     bindR (GetString C FlagSummary) (\<lambda>summary.
     bindR (GetString C FlagMetadata) (\<lambda>metadata.
     bindR (GetString C FlagDeposit) (\<lambda>depositArg.
     bindR (ParseCoinsNormalized C depositArg) (\<lambda>deposit.
     Ok (clientCtx, proposalTitle, summary, metadata, deposit)))))))"

definition parseSetVirtualStakingMaxCapArgs :: "('p, 'w) cli_env \<Rightarrow> string list \<Rightarrow> string \<Rightarrow>
    MsgSetVirtualStakingMaxCap result" where
  "parseSetVirtualStakingMaxCapArgs C args auth =
     bindR (bindR (go_index args 1) (ParseCoinNormalized C)) (\<lambda>maxCap.
     bindR (go_index args 0) (\<lambda>contract.
     Ok \<lparr>msg_Authority = auth, msg_Contract = contract, msg_MaxCap = maxCap\<rparr>))"

text \<open>Cobra checks the number of arguments before it runs the command.\<close>

definition ProposalSetVirtualStakingMaxCapCmd :: "('p, 'w) cli_env \<Rightarrow> string list \<Rightarrow> ('w, unit) act" where
  "ProposalSetVirtualStakingMaxCapCmd C args =
     (if length args \<noteq> 2 then fail (ErrOther ''accepts 2 args'') else
      bindA (liftR (getProposalInfo C)) (\<lambda>(clientCtx, proposalTitle, summary, metadata, deposit).
      bindA (liftR (GetString C flagAuthority)) (\<lambda>auth.
      if length auth = 0 then fail (ErrOther ''authority address is required'') else
      bindA (liftR (parseSetVirtualStakingMaxCapArgs C args auth)) (\<lambda>src.
      bindA (liftR (NewMsgSubmitProposal C [src] deposit clientCtx metadata proposalTitle summary)) (\<lambda>proposalMsg.
      bindA (liftR (Proposal_ValidateBasic C proposalMsg)) (\<lambda>_.
      GenerateOrBroadcastTxCLI C proposalMsg))))))"

section \<open>The query commands\<close>

text \<open>
  The query client is the gRPC service the command talks to; the result is what the command
  prints.
\<close>

definition GetCmdQueryMaxCapLimit :: "('s, 'x) sdk \<Rightarrow> ('p, 'w) cli_env \<Rightarrow>
    (string \<Rightarrow> max_cap_limit_response result) \<Rightarrow> string list \<Rightarrow> max_cap_limit_response result" where
  "GetCmdQueryMaxCapLimit E C queryClient args =
     (if length args \<noteq> 1 then Err (ErrOther ''accepts 1 arg'') else
      bindR (GetClientQueryContext C) (\<lambda>_.
      bindR (bindR (go_index args 0) (AccAddressFromBech32 E)) (\<lambda>_.
      bindR (go_index args 0) queryClient)))"

definition GetCmdQueryMaxCapLimits :: "('p, 'w) cli_env \<Rightarrow> max_cap_info list result \<Rightarrow> string list \<Rightarrow>
    max_cap_info list result" where
  "GetCmdQueryMaxCapLimits C queryClient args =
     (if args \<noteq> [] then Err (ErrOther ''unknown command'') else
      bindR (GetClientQueryContext C) (\<lambda>_. queryClient))"

definition GetCmdQueryParams :: "('p, 'w) cli_env \<Rightarrow> params result \<Rightarrow> string list \<Rightarrow> params result" where
  "GetCmdQueryParams C queryClient args =
     (if args \<noteq> [] then Err (ErrOther ''unknown command'') else
      bindR (GetClientQueryContext C) (\<lambda>_. queryClient))"

section \<open>The provider's commands\<close>

definition NewCmdTest :: "('s, 'x) sdk \<Rightarrow> ('p, 'w) cli_env \<Rightarrow> (MsgTest \<Rightarrow> ('w, unit) act) \<Rightarrow>
    string list \<Rightarrow> ('w, unit) act" where
  "NewCmdTest E C broadcast args =
     (if args \<noteq> [] then fail (ErrOther ''accepts 0 args'') else
      bindA (liftR (GetClientTxContext C)) (\<lambda>sender.
      let msg = \<lparr>test_Sender = sender\<rparr> in
      bindA (liftR (MsgTest_ValidateBasic E msg)) (\<lambda>_.
      broadcast msg)))"

definition Provider_GetCmdQueryParams :: "('p, 'w) cli_env \<Rightarrow> provider_params result \<Rightarrow> string list \<Rightarrow>
    provider_params result" where
  "Provider_GetCmdQueryParams C queryClient args =
     (if args \<noteq> [] then Err (ErrOther ''unknown command'') else
      bindR (GetClientQueryContext C) (\<lambda>_. queryClient))"

section \<open>The command trees\<close>

text \<open>A command, by the first word of its use line, and the commands added to it.\<close>

datatype cobra_command = Command (Use: string) (subCommands: "cobra_command list")

definition SubmitProposalCmd :: cobra_command where
  "SubmitProposalCmd = Command ''submit-proposal'' [Command ''set-virtual-staking-max-cap'' []]"

definition GetTxCmd :: cobra_command where
  "GetTxCmd = Command ModuleName [SubmitProposalCmd]"

definition GetQueryCmd :: cobra_command where
  "GetQueryCmd = Command ModuleName
     [Command ''max-cap-limit'' [], Command ''max-cap-limits'' [], Command ''params'' []]"

definition Provider_NewTxCmd :: cobra_command where
  "Provider_NewTxCmd = Command ProviderModuleName []"

definition Provider_GetQueryCmd :: cobra_command where
  "Provider_GetQueryCmd = Command ProviderModuleName [Command ''params'' []]"

text \<open>The commands a user can reach below a command.\<close>

fun reachableCommands :: "cobra_command \<Rightarrow> string list list" where
  "reachableCommands (Command use cmds) = (if cmds = [] then [[use]]
     else map (\<lambda>path. use # path) (concat (map reachableCommands cmds)))"

lemma tx_commands: "reachableCommands GetTxCmd =
    [[ModuleName, ''submit-proposal'', ''set-virtual-staking-max-cap'']]"
  by (simp add: GetTxCmd_def SubmitProposalCmd_def)

text \<open>The test message of the provider has a command, which is not added to any other.\<close>

lemma provider_no_test: "reachableCommands Provider_NewTxCmd = [[ProviderModuleName]]"
  by (simp add: Provider_NewTxCmd_def)

section \<open>Lemmas\<close>

text \<open>
  The proposal that arguments and flags describe, flag by flag; and what the command does: it
  sends that proposal, or nothing when there is none.
\<close>

inductive proposes :: "('p, 'w) cli_env \<Rightarrow> string list \<Rightarrow> 'p \<Rightarrow> bool" for C where
  "GetClientTxContext C = Ok sender \<Longrightarrow>
   GetString C ''title'' = Ok title \<Longrightarrow> GetString C ''summary'' = Ok summary \<Longrightarrow>
   GetString C ''metadata'' = Ok metadata \<Longrightarrow>
   GetString C ''deposit'' = Ok depositArg \<Longrightarrow> ParseCoinsNormalized C depositArg = Ok deposit \<Longrightarrow>
   GetString C ''authority'' = Ok auth \<Longrightarrow> auth \<noteq> [] \<Longrightarrow> ParseCoinNormalized C capArg = Ok cap \<Longrightarrow>
   NewMsgSubmitProposal C [\<lparr>msg_Authority = auth, msg_Contract = contract, msg_MaxCap = cap\<rparr>]
     deposit sender metadata title summary = Ok p \<Longrightarrow>
   Proposal_ValidateBasic C p = Ok () \<Longrightarrow> proposes C [contract, capArg] p"

inductive_cases proposesE: "proposes C args p"

lemmas flag_defs = flagAuthority_def FlagTitle_def FlagSummary_def FlagMetadata_def FlagDeposit_def

lemma parse_two: "parseSetVirtualStakingMaxCapArgs C [contract, capArg] auth =
    bindR (ParseCoinNormalized C capArg) (\<lambda>cap.
      Ok \<lparr>msg_Authority = auth, msg_Contract = contract, msg_MaxCap = cap\<rparr>)"
  by (simp add: parseSetVirtualStakingMaxCapArgs_def go_index_def)

lemma proposal_broadcast:
  assumes "proposes C args p"
  shows "ProposalSetVirtualStakingMaxCapCmd C args s = GenerateOrBroadcastTxCLI C p s"
  using assms
  by (auto elim!: proposesE simp: ProposalSetVirtualStakingMaxCapCmd_def getProposalInfo_def parse_two flag_defs
      act_simps bindA_def)

lemma proposal_none:
  assumes "\<nexists>p. proposes C args p"
  shows "\<exists>r. ProposalSetVirtualStakingMaxCapCmd C args s = (r, s) \<and> (\<forall>u. r \<noteq> Ok u)"
proof (cases "length args = 2")
  case False
  then show ?thesis
    by (simp add: ProposalSetVirtualStakingMaxCapCmd_def act_simps)
next
  case True
  then obtain contract capArg where args: "args = [contract, capArg]"
    by (auto simp: numeral_2_eq_2 length_Suc_conv)
  show ?thesis
    using assms unfolding args
    by (auto simp: proposes.simps ProposalSetVirtualStakingMaxCapCmd_def getProposalInfo_def parse_two flag_defs
        act_simps bindA_def bindR_def split: result.splits)
qed

lemma GetCmdQueryMaxCapLimit_keeper:
  assumes "GetClientQueryContext C = Ok ()"
  shows "GetCmdQueryMaxCapLimit E C (VirtualStakingMaxCapLimit E s) [a] = VirtualStakingMaxCapLimit E s a"
  using assms by (cases "AccAddressFromBech32 E a")
    (simp_all add: GetCmdQueryMaxCapLimit_def go_index_def VirtualStakingMaxCapLimit_def)

end
