(* ===== verification/ExamplesApp.thy ===== *)
theory ExamplesApp
  imports Examples Wiring ExportZero AppBlocks Cli
begin

text \<open>
  Executable instances of what the demo chain's code and the command line are given, for the
  witnesses: small tables for the export, and a client whose broadcast records what
  was sent.
\<close>

section \<open>The export\<close>

record ref_tables =
  x_validators :: "export_validator list"
  x_redelegations :: "entries list"
  x_unbondings :: "entries list"
  x_infos :: "(address \<times> signing_info) list"

definition ref_validatorAt :: "ref_tables ctx \<Rightarrow> address \<Rightarrow> export_validator option" where
  "ref_validatorAt c a = find (\<lambda>v. ev_operator v = a) (x_validators (snd c))"

text \<open>An entry of a table, put in front of the others and in place of those with its key.\<close>

definition putEntry :: "('e \<Rightarrow> 'k) \<Rightarrow> 'e \<Rightarrow> 'e list \<Rightarrow> 'e list" where
  "putEntry key e es = e # filter (\<lambda>q. key q \<noteq> key e) es"

definition onTables :: "(ref_tables \<Rightarrow> ref_tables) \<Rightarrow> (ref_tables ctx, unit) act" where
  "onTables f = (\<lambda>(h, x). (Ok (), (h, f x)))"

definition ref_export :: "(ref_tables, int) export_sdk" where
  "ref_export = \<lparr>
     x_ValAddressFromBech32 = ref_parse (CHR ''v''), x_AccAddressFromBech32 = ref_parse (CHR ''a''),
     x_ValAddress_String = (\<lambda>a. CHR ''v'' # string_of_bytes a),
     crisis_AssertInvariants = ret (),
     staking_IterateValidators = map ev_operator \<circ> x_validators \<circ> snd,
     distr_WithdrawValidatorCommission = (\<lambda>_. fail (ErrOther ''no commission'')),
     staking_GetAllDelegations = (\<lambda>_. [\<lparr>DelegatorAddress = ''a1'', ValidatorAddress = ''vV''\<rparr>]),
     distr_WithdrawDelegationRewards = (\<lambda>_ _. ret ()),
     distr_DeleteAllValidatorSlashEvents = ret (),
     distr_DeleteAllValidatorHistoricalRewards = ret (),
     distr_GetValidatorOutstandingRewardsCoins = (\<lambda>_ _. 0), distr_GetCommunityPool = (\<lambda>_. 0),
     distr_SetCommunityPool = (\<lambda>_. ret ()), DecCoins_Add = (+),
     distr_AfterValidatorCreated = (\<lambda>_. ret ()), distr_BeforeDelegationCreated = (\<lambda>_ _. ret ()),
     distr_AfterDelegationModified = (\<lambda>_ _. ret ()),
     staking_IterateRedelegations = x_redelegations \<circ> snd,
     staking_SetRedelegation = (\<lambda>r. onTables (\<lambda>x. x\<lparr>x_redelegations := putEntry parties r (x_redelegations x)\<rparr>)),
     staking_IterateUnbondingDelegations = x_unbondings \<circ> snd,
     staking_SetUnbondingDelegation = (\<lambda>r. onTables (\<lambda>x. x\<lparr>x_unbondings := putEntry parties r (x_unbondings x)\<rparr>)),
     staking_ValidatorKeys = rev \<circ> map ev_operator \<circ> x_validators \<circ> snd,
     staking_ValidatorAt = ref_validatorAt, staking_iter_Close = (\<lambda>_. Ok ()),
     staking_SetValidator = (\<lambda>v. onTables (\<lambda>x. x\<lparr>x_validators := putEntry ev_operator v (x_validators x)\<rparr>)),
     staking_ApplyValidatorSetUpdates = ret (),
     slashing_IterateSigningInfos = x_infos \<circ> snd,
     slashing_SetSigningInfo = (\<lambda>a i. onTables (\<lambda>x. x\<lparr>x_infos := putEntry fst (a, i) (x_infos x)\<rparr>))\<rparr>"

lemma set_putEntry: "set (putEntry key e es) = insert e {q \<in> set es. key q \<noteq> key e}"
  by (auto simp: putEntry_def)

lemma find_filter_other:
  "find P (filter Q xs) = find (\<lambda>x. Q x \<and> P x) xs"
  by (induction xs) auto

interpretation ref_table: validator_table ref_export
proof
  fix v :: export_validator and h :: u64 and x :: ref_tables
  have "find (\<lambda>w. ev_operator w \<noteq> ev_operator v \<and> ev_operator w = a) vs = find (\<lambda>w. ev_operator w = a) vs"
    if "a \<noteq> ev_operator v" for a vs
    using that by (induction vs) auto
  then show "\<exists>x'. staking_SetValidator ref_export v (h, x) = (Ok (), (h, x')) \<and>
      (\<forall>h' a. staking_ValidatorAt ref_export (h', x') a =
        (if a = ev_operator v then Some v else staking_ValidatorAt ref_export (h', x) a))"
    by (auto simp: ref_export_def onTables_def putEntry_def ref_validatorAt_def find_filter_other)
next
  fix c a and v :: export_validator
  assume "staking_ValidatorAt ref_export c a = Some v"
  then show "ev_operator v = a"
    by (auto simp: ref_export_def ref_validatorAt_def find_Some_iff)
qed

interpretation ref_export_tables: export_tables ref_export
  by unfold_locales
    (auto simp: ref_export_def onTables_def set_putEntry keepsHeight_def act_simps)

definition ref_vals :: ref_tables where
  "ref_vals = \<lparr>x_validators = [\<lparr>ev_operator = [86], UnbondingHeight = 7, is_jailed = False\<rparr>,
       \<lparr>ev_operator = [87], UnbondingHeight = 9, is_jailed = False\<rparr>],
     x_redelegations = [\<lparr>parties = [[49], [86], [87]], CreationHeights = [3, 4]\<rparr>],
     x_unbondings = [\<lparr>parties = [[50], [86]], CreationHeights = [5]\<rparr>],
     x_infos = [([1], \<lparr>StartHeight = 2, info_rest = []\<rparr>)]\<rparr>"

text \<open>The whole preparation on the tables: the validator that is not allowed is jailed.\<close>

definition ref_zero :: ref_tables where
  "ref_zero = \<lparr>x_validators = [\<lparr>ev_operator = [86], UnbondingHeight = 0, is_jailed = False\<rparr>,
       \<lparr>ev_operator = [87], UnbondingHeight = 0, is_jailed = True\<rparr>],
     x_redelegations = [\<lparr>parties = [[49], [86], [87]], CreationHeights = [0, 0]\<rparr>],
     x_unbondings = [\<lparr>parties = [[50], [86]], CreationHeights = [0]\<rparr>],
     x_infos = [([1], \<lparr>StartHeight = 0, info_rest = []\<rparr>)]\<rparr>"

lemma ref_prep: "prepForZeroHeightGenesis ref_export [''vV''] (10, ref_vals) = (Ok (), (10, ref_zero))"
  by code_simp

section \<open>The block end\<close>

text \<open>
  A module manager: it stops at the first failure, and two modules with validator updates are
  a panic.
\<close>

fun revHooks :: "('s, 'x) manager_hook" where
  "revHooks [] mods s = (Ok [], s)"
| "revHooks (m # ms) mods s = (case revHooks ms mods s of
      (Ok us, u) \<Rightarrow> (case mods m u of
          (Ok ws, t) \<Rightarrow> if us \<noteq> [] \<and> ws \<noteq> [] then (Panic, t) else (Ok (us @ ws), t)
        | (Err e, t) \<Rightarrow> (Err e, t) | (Panic, t) \<Rightarrow> (Panic, t))
    | (Err e, t) \<Rightarrow> (Err e, t) | (Panic, t) \<Rightarrow> (Panic, t))"

definition runHooks :: "('s, 'x) manager_hook" where
  "runHooks ms = revHooks (rev ms)"

interpretation hooks: module_manager runHooks
proof
  fix ms m vs and mods :: "app_module \<Rightarrow> ('s, 'x) block_hook" and s t :: "('s, 'x) chain"
  assume "runHooks (ms @ [m]) mods s = (Ok vs, t)"
  then show "\<exists>us ws u. runHooks ms mods s = (Ok us, u) \<and> mods m u = (Ok ws, t)"
    by (auto simp: runHooks_def split: prod.splits result.splits if_splits)
qed (simp add: runHooks_def)

text \<open>The chain's modules: mesh security, and others that have nothing to do.\<close>

definition ref_modules :: "app_module \<Rightarrow> (ref_store, ref_ext) block_hook" where
  "ref_modules m = (if m = MMeshsec then Module_EndBlock (NewAppModule
     \<lparr>MarshalJSON = \<lambda>_. Ok [], UnmarshalJSON = \<lambda>_. Ok (NewGenesisState ref_params0)\<rparr> ref_sdk)
     else ret [])"

lemma ref_end_block: "fst (App_EndBlocker runHooks ref_modules ref_slashed) = Ok []"
  by code_simp

section \<open>The command line\<close>

type_synonym ref_proposal = "MsgSetVirtualStakingMaxCap list \<times> coins \<times> string \<times> string"

definition ref_cli :: "(ref_proposal, ref_proposal list) cli_env" where
  "ref_cli = \<lparr>
     GetClientTxContext = Ok ''a7'', GetClientQueryContext = Ok (),
     GetString = (\<lambda>flag. Ok (if flag = flagAuthority then ''agov'' else if flag = FlagTitle then ''limit'' else [])),
     ParseCoinNormalized = (\<lambda>s. if s = ''40stake'' then Ok (Coin ''stake'' (Some 40)) else Err (ErrOther ''coin'')),
     ParseCoinsNormalized = (\<lambda>s. Ok []),
     NewMsgSubmitProposal = (\<lambda>msgs deposit proposer metadata title summary.
       Ok (msgs, deposit, proposer, title)),
     Proposal_ValidateBasic = (\<lambda>p. Ok ()),
     GenerateOrBroadcastTxCLI = (\<lambda>p w. (Ok (), w @ [p]))\<rparr>"

lemma ref_proposal_sent: "ProposalSetVirtualStakingMaxCapCmd ref_cli [''a1'', ''40stake''] [] =
   (Ok (), [([ref_cap ''a1'' 40], [], ''a7'', ''limit'')])"
  by code_simp

end
