(* ===== verification/LiveTasks.thy ===== *)
theory LiveTasks
  imports Execution
begin

text \<open>
  The iterator of \<open>IterateScheduledTasks\<close> (\<open>keeper/scheduler.go\<close>) read the other way: theory
  \<open>Scheduler\<close> fixes its entries when it is created, while here every \<open>iter.Next()\<close> looks at the
  store as the callbacks have left it. Such a loop could go on for ever, when a callback keeps
  adding entries in front of it, so it is a partial function. The lemmas show that the run of
  the due tasks comes to its end under this reading too, and with the same result: a task that
  repeats is registered behind the last height the loop looks at.
\<close>

section \<open>The loop over the live store\<close>

text \<open>The first entry behind the last key, or the very first one.\<close>

definition nextEntry :: "(bytes \<times> bytes) list \<Rightarrow> bytes option \<Rightarrow> (bytes \<times> bytes) option" where
  "nextEntry es lastKey = find (\<lambda>e. case lastKey of None \<Rightarrow> True | Some k \<Rightarrow> k < fst e) es"

partial_function (option) liveTasks :: "('s, 'x) sdk \<Rightarrow> bytes \<Rightarrow> u64 \<Rightarrow>
    (address \<Rightarrow> u64 \<Rightarrow> bool \<Rightarrow> ('l \<times> ('s, 'x) chain, bool) act) \<Rightarrow> bytes option \<Rightarrow>
    'l \<times> ('s, 'x) chain \<Rightarrow> (unit result \<times> 'l \<times> ('s, 'x) chain) option" where
  "liveTasks E keyPrefix maxHeight cb lastKey w =
     (case nextEntry (kv_PrefixIterator E (store (snd w)) keyPrefix) lastKey of
        None \<Rightarrow> Some (Ok (), w)
      | Some (key, v) \<Rightarrow>
          (case bindR (go_slice key 0 8) BigEndianToUint64 of
             Err e \<Rightarrow> Some (Err e, w)
           | Panic \<Rightarrow> Some (Panic, w)
           | Ok scheduledHeight \<Rightarrow>
               if maxHeight < scheduledHeight then Some (Ok (), w) else
               (case go_slice key 8 (length key) of
                  Err e \<Rightarrow> Some (Err e, w)
                | Panic \<Rightarrow> Some (Panic, w)
                | Ok addr \<Rightarrow>
                    (case cb addr scheduledHeight (isRepeat v) w of
                       (Err e, w') \<Rightarrow> Some (Err e, w')
                     | (Panic, w') \<Rightarrow> Some (Panic, w')
                     | (Ok stop, w') \<Rightarrow> if stop then Some (Ok (), w')
                         else liveTasks E keyPrefix maxHeight cb (Some key) w'))))"

declare liveTasks.simps [code]

section \<open>What is next\<close>

text \<open>The position of a loop: behind a height and contract, or at the start.\<close>

definition taskBehind :: "(u64 \<times> address) option \<Rightarrow> u64 \<Rightarrow> address \<Rightarrow> bool" where
  "taskBehind pos h c = (case pos of None \<Rightarrow> True | Some (h0, c0) \<Rightarrow> h0 < h \<or> h0 = h \<and> c0 < c)"

abbreviation posKey :: "(u64 \<times> address) option \<Rightarrow> bytes option" where
  "posKey \<equiv> map_option (\<lambda>(h, c). Uint64ToBigEndian h @ c)"

abbreviation tasksBehind :: "(u64 \<times> address) option \<Rightarrow> (u64 \<times> address \<times> bool) list \<Rightarrow>
    (u64 \<times> address \<times> bool) list" where
  "tasksBehind pos \<equiv> filter (\<lambda>t. taskBehind pos (fst t) (fst (snd t)))"

lemma heightKey_less_iff:
  "Uint64ToBigEndian h @ c < Uint64ToBigEndian h' @ c' \<longleftrightarrow> h < h' \<or> h = h' \<and> c < c'"
  using append_less_same_length [of "Uint64ToBigEndian h" "Uint64ToBigEndian h'" c c']
  by (simp add: Uint64ToBigEndian_less_iff)

lemma task_key_fields:
  assumes "8 \<le> length k"
  shows "bindR (go_slice k 0 8) BigEndianToUint64 = Ok (beFold (take 8 k))"
    and "go_slice k 8 (length k) = Ok (drop 8 k)"
  using assms by (auto simp: go_slice_def BigEndianToUint64_def)

lemma find_eq_hd: "find P xs = (case filter P xs of [] \<Rightarrow> None | x # _ \<Rightarrow> Some x)"
  by (induction xs) auto

text \<open>Lists of tasks with the same elements in order are the same.\<close>

lemma taskLess_unique:
  assumes "sorted_wrt taskLess xs" and "sorted_wrt taskLess ys" and "set xs = set ys"
  shows "xs = ys"
  using assms
proof (induction xs arbitrary: ys)
  case (Cons x xs)
  then obtain y ys' where ys: "ys = y # ys'" by (cases ys) auto
  have irrefl: "\<not> taskLess t t" for t by (simp add: taskLess_def)
  have asym: "taskLess t u \<Longrightarrow> \<not> taskLess u t" for t u by (auto simp: taskLess_def)
  have "x = y"
    using Cons.prems asym [of x y] unfolding ys by (metis insert_iff list.simps(15) sorted_wrt.simps(2))
  moreover have "x \<notin> set xs" "y \<notin> set ys'"
    using Cons.prems irrefl [of x] irrefl [of y] unfolding ys by (auto simp del: split_paired_All)
  ultimately have "set xs = set ys'"
    using Cons.prems(3) unfolding ys by auto
  then show ?case
    using Cons.IH [of ys'] Cons.prems \<open>x = y\<close> unfolding ys by simp
qed simp

text \<open>Behind the first of the tasks behind a position are the others of them.\<close>

lemma tasksBehind_tail:
  assumes "sorted_wrt taskLess all" and "tasksBehind pos all = (h, c, r) # ts"
  shows "tasksBehind (Some (h, c)) all = ts"
  using assms
proof (induction all)
  case (Cons x all)
  show ?case
  proof (cases "taskBehind pos (fst x) (fst (snd x))")
    case True
    then have x: "x = (h, c, r)" and ts: "tasksBehind pos all = ts"
      using Cons.prems(2) by simp_all
    have "taskBehind (Some (h, c)) (fst y) (fst (snd y)) \<and> taskBehind pos (fst y) (fst (snd y))"
      if "y \<in> set all" for y
      using Cons.prems(1) that True by (force simp: x taskBehind_def taskLess_def split: option.splits)
    with ts have "tasksBehind (Some (h, c)) all = ts"
      by (metis (no_types, lifting) filter_cong)
    then show ?thesis
      by (simp add: x taskBehind_def)
  next
    case False
    then have rest: "tasksBehind pos all = (h, c, r) # ts"
      using Cons.prems(2) by simp
    have "(h, c, r) \<in> set (tasksBehind pos all)"
      by (simp add: rest)
    then have "taskLess x (h, c, r)" using Cons.prems(1) by simp
    then show ?thesis
      using Cons.IH rest Cons.prems(1) by (auto simp: taskBehind_def taskLess_def)
  qed
qed simp

text \<open>
  A callback is tame up to a height when it leaves the tasks behind its own, up to this height,
  alone.
\<close>

definition tameCallback :: "('s, 'x) sdk \<Rightarrow> (('s, 'x) chain \<Rightarrow> bool) \<Rightarrow> task_type \<Rightarrow> u64 \<Rightarrow>
    (address \<Rightarrow> u64 \<Rightarrow> bool \<Rightarrow> ('l \<times> ('s, 'x) chain, bool) act) \<Rightarrow> bool" where
  "tameCallback E I tp m cb \<longleftrightarrow> (\<forall>h c r l s l' t. I s \<longrightarrow> h \<le> m \<longrightarrow>
     cb c h r (l, s) = (Ok False, (l', t)) \<longrightarrow>
     I t \<and> (\<forall>h' c'. h' \<le> m \<longrightarrow> taskBehind (Some (h, c)) h' c' \<longrightarrow> taskAt E t tp h' c' = taskAt E s tp h' c'))"

context mesh_store
begin

lemma dueTasks_behind_cong:
  assumes "wfTasks E s" and "wfTasks E t"
    and "\<And>h c. h \<le> m \<Longrightarrow> taskBehind pos h c \<Longrightarrow> taskAt E t tp h c = taskAt E s tp h c"
  shows "tasksBehind pos (dueTasks E t tp m) = tasksBehind pos (dueTasks E s tp m)"
proof (rule taskLess_unique)
  show "set (tasksBehind pos (dueTasks E t tp m)) = set (tasksBehind pos (dueTasks E s tp m))"
    using assms(3) by (auto simp: dueTasks_iff assms(1,2))
qed (simp_all add: sorted_wrt_filter dueTasks_sorted assms(1,2))

text \<open>The next entry of the store is the next due task, if there is one.\<close>

lemma nextEntry_entries:
  assumes "wfTasks E s"
  shows "nextEntry (kv_PrefixIterator E (store s) (SchedulerKeyPrefix @ [tp])) (posKey pos) = None \<longleftrightarrow>
      tasksBehind pos (taskEntries E s tp) = []"
    and "nextEntry (kv_PrefixIterator E (store s) (SchedulerKeyPrefix @ [tp])) (posKey pos) = Some (k, v) \<Longrightarrow>
      \<exists>ts. tasksBehind pos (taskEntries E s tp) = (beFold (take 8 k), drop 8 k, isRepeat v) # ts \<and>
        8 \<le> length k \<and> k = Uint64ToBigEndian (beFold (take 8 k)) @ drop 8 k"
proof -
  let ?it = "kv_PrefixIterator E (store s) (SchedulerKeyPrefix @ [tp])"
  let ?dec = "\<lambda>(k, v). (beFold (take 8 k), drop 8 k, isRepeat v)"
  let ?P = "\<lambda>e. case posKey pos of None \<Rightarrow> True | Some k \<Rightarrow> k < fst e"
  have key: "8 \<le> length k" "k = Uint64ToBigEndian (beFold (take 8 k)) @ drop 8 k"
    if "(k, v) \<in> set ?it" for k v
  proof -
    have "kv_Get E (store s) (SchedulerKeyPrefix @ tp # k) = Some v"
      using that by (simp add: taskIterator_iff)
    from wfTasks_key [OF assms this] show "8 \<le> length k" "k = Uint64ToBigEndian (beFold (take 8 k)) @ drop 8 k"
      by (simp_all add: Uint64ToBigEndian_beFold)
  qed
  have "?P e \<longleftrightarrow> taskBehind pos (fst (?dec e)) (fst (snd (?dec e)))" if "e \<in> set ?it" for e
  proof -
    obtain k v where e: "e = (k, v)" by (cases e)
    then have k: "Uint64ToBigEndian (beFold (take 8 k)) @ drop 8 k = k"
      using key(2) [of k v] that by simp
    show ?thesis
      using heightKey_less_iff [where h' = "beFold (take 8 k)" and c' = "drop 8 k", unfolded k]
      by (cases pos) (auto simp: e taskBehind_def)
  qed
  then have dec: "tasksBehind pos (taskEntries E s tp) = map ?dec (filter ?P ?it)"
    by (simp add: taskEntries_def filter_map comp_def cong: filter_cong)
  show "nextEntry ?it (posKey pos) = None \<longleftrightarrow> tasksBehind pos (taskEntries E s tp) = []"
    by (simp add: nextEntry_def find_eq_hd dec split: list.split)
  assume "nextEntry ?it (posKey pos) = Some (k, v)"
  then obtain es where es: "filter ?P ?it = (k, v) # es"
    by (auto simp: nextEntry_def find_eq_hd split: list.splits)
  then have "(k, v) \<in> set (filter ?P ?it)"
    by (simp only: list.set_intros)
  then have "(k, v) \<in> set ?it"
    by simp
  with key es dec show "\<exists>ts. tasksBehind pos (taskEntries E s tp) =
      (beFold (take 8 k), drop 8 k, isRepeat v) # ts \<and>
      8 \<le> length k \<and> k = Uint64ToBigEndian (beFold (take 8 k)) @ drop 8 k"
    by simp
qed

lemma sorted_due_front:
  assumes "sorted_wrt taskLess ts" and "m < fst x" and "ts = x # us"
  shows "filter (\<lambda>t. fst t \<le> m) ts = []"
  using assms by (force simp: taskLess_def filter_empty_conv)

text \<open>From any position, the live loop with a tame callback runs the due tasks behind it.\<close>

lemma liveTasks_run:
  assumes "tameCallback E I tp m cb" and "\<And>s. I s \<Longrightarrow> wfTasks E s"
    and "I s" and "tasksBehind pos (dueTasks E s tp m) = ts"
  shows "liveTasks E (SchedulerKeyPrefix @ [tp]) m cb (posKey pos) (l, s) = Some (runTasks ts cb (l, s))"
  using assms(3,4)
proof (induction ts arbitrary: s l pos)
  case Nil
  let ?it = "kv_PrefixIterator E (store s) (SchedulerKeyPrefix @ [tp])"
  show ?case
  proof (cases "nextEntry ?it (posKey pos)")
    case None
    then show ?thesis by (simp add: liveTasks.simps act_simps)
  next
    case (Some e)
    obtain k v where e: "e = (k, v)" by (cases e)
    obtain us where us: "tasksBehind pos (taskEntries E s tp) = (beFold (take 8 k), drop 8 k, isRepeat v) # us"
      and k: "8 \<le> length k"
      using nextEntry_entries(2) [OF assms(2) [OF Nil.prems(1)] Some [unfolded e]] by blast
    have "filter (\<lambda>t. fst t \<le> m) (tasksBehind pos (taskEntries E s tp)) = []"
      using Nil.prems(2) by (simp add: dueTasks_def filter_filter conj_commute)
    then have "m < beFold (take 8 k)"
      by (simp add: us not_le split: if_splits)
    then show ?thesis
      using Some task_key_fields [OF k] by (simp add: liveTasks.simps e act_simps)
  qed
next
  case (Cons x ts)
  obtain h c r where x: "x = (h, c, r)" by (cases x) auto
  let ?it = "kv_PrefixIterator E (store s) (SchedulerKeyPrefix @ [tp])"
  note wf = assms(2) [OF Cons.prems(1)]
  have due: "filter (\<lambda>t. fst t \<le> m) (tasksBehind pos (taskEntries E s tp)) = x # ts"
    using Cons.prems(2) by (simp add: dueTasks_def filter_filter conj_commute)
  then have "tasksBehind pos (taskEntries E s tp) \<noteq> []"
    by (metis filter.simps(1) list.distinct(1))
  then have "nextEntry ?it (posKey pos) \<noteq> None"
    using nextEntry_entries(1) [OF wf] by blast
  then obtain k v where nxt: "nextEntry ?it (posKey pos) = Some (k, v)"
    by auto
  obtain us where us: "tasksBehind pos (taskEntries E s tp) = (beFold (take 8 k), drop 8 k, isRepeat v) # us"
    and k: "8 \<le> length k" "k = Uint64ToBigEndian (beFold (take 8 k)) @ drop 8 k"
    using nextEntry_entries(2) [OF wf nxt] by blast
  have sorted: "sorted_wrt taskLess (tasksBehind pos (taskEntries E s tp))"
    by (simp add: sorted_wrt_filter taskEntries_sorted wf)
  have le: "\<not> m < beFold (take 8 k)"
    using sorted_due_front [OF sorted _ us] due by fastforce
  then have hd: "beFold (take 8 k) = h" "drop 8 k = c" "isRepeat v = r"
    using due by (simp_all add: us x not_less)
  then have kx: "Some k = posKey (Some (h, c))"
    using k(2) by simp
  have step: "liveTasks E (SchedulerKeyPrefix @ [tp]) m cb (posKey pos) (l, s) =
      (case cb c h r (l, s) of
         (Err e, w') \<Rightarrow> Some (Err e, w') | (Panic, w') \<Rightarrow> Some (Panic, w')
       | (Ok stop, w') \<Rightarrow> if stop then Some (Ok (), w')
           else liveTasks E (SchedulerKeyPrefix @ [tp]) m cb (posKey (Some (h, c))) w')"
    using nxt task_key_fields [OF k(1)] le unfolding kx [symmetric]
    by (simp add: liveTasks.simps [where lastKey = "posKey pos"] hd)
  show ?case
  proof (cases "fst (cb c h r (l, s)) = Ok False")
    case False
    then show ?thesis
      by (auto simp: step x bindA_def act_simps split: prod.split result.split)
  next
    case True
    then obtain l' t where t: "cb c h r (l, s) = (Ok False, (l', t))"
      by (metis prod.collapse)
    have tame: "I t" "h' \<le> m \<Longrightarrow> taskBehind (Some (h, c)) h' c' \<Longrightarrow>
        taskAt E t tp h' c' = taskAt E s tp h' c'" for h' c'
      using assms(1) Cons.prems(1) le t unfolding tameCallback_def hd not_less by blast+
    have "tasksBehind (Some (h, c)) (dueTasks E t tp m) = tasksBehind (Some (h, c)) (dueTasks E s tp m)"
      by (rule dueTasks_behind_cong [OF wf assms(2) [OF tame(1)]]) (rule tame(2))
    also have "\<dots> = ts"
      by (rule tasksBehind_tail [where r = r]) (use Cons.prems(2) wf in \<open>simp_all add: dueTasks_sorted x\<close>)
    finally have "liveTasks E (SchedulerKeyPrefix @ [tp]) m cb (posKey (Some (h, c))) (l', t) =
        Some (runTasks ts cb (l', t))"
      by (rule Cons.IH [OF tame(1)])
    then show ?thesis
      by (simp add: step t x bindA_def)
  qed
qed

lemma liveTasks_eq:
  assumes "tameCallback E I tp m cb" and "\<And>s. I s \<Longrightarrow> wfTasks E s" and "I s"
    and "tp \<noteq> SchedulerTaskUndefined"
  shows "liveTasks E (SchedulerKeyPrefix @ [tp]) m cb None (l, s) = Some (IterateScheduledTasks E tp m cb (l, s))"
proof -
  have "tasksBehind None (dueTasks E s tp m) = dueTasks E s tp m"
    by (simp add: taskBehind_def)
  from liveTasks_run [OF assms(1-3) this] show ?thesis
    using assms(4) by (simp add: IterateScheduledTasks_eq [OF assms(2) [OF assms(3)]])
qed

text \<open>Deleting the tasks of a contract takes only those away that the loop has passed.\<close>

lemma tame_delete:
  assumes "tp \<noteq> SchedulerTaskUndefined"
  shows "tameCallback E (wfTasks E) tp m
    (\<lambda>addr h r. if addr = c then deleteTaskCallback E tp c h r else ret False)"
  using assms
  by (auto simp: tameCallback_def deleteTaskCallback_def deleteScheduledTask_eq act_simps bindA_def
      attempt_def wfTasks_delete taskAt_delete taskBehind_def split: if_splits)

end

section \<open>The run of the due tasks\<close>

context task_runner
begin

text \<open>A task that is run puts nothing behind itself but its next registration, which is not due.\<close>

lemma tame_execCallback:
  assumes "goodExecutor E cb" and "tp \<noteq> SchedulerTaskUndefined" and "m \<le> m + ep"
  shows "tameCallback E (\<lambda>s. wfTasks E s \<and> GetMaxSudoGas E s = Ok g \<and> height s = m) tp m
    (execCallback E tp ep cb)"
  unfolding tameCallback_def
proof (intro allI impI, elim conjE)
  fix h c r and l :: "exec_result list" and s :: "('s, 'x) chain" and l' t
  assume wf: "wfTasks E s" and gas: "GetMaxSudoGas E s = Ok g" and m: "height s = m"
    and cb: "execCallback E tp ep cb c h r (l, s) = (Ok False, (l', t))"
  let ?b = "branchState E g (cb c) s"
  have b: "keepsTasks E s ?b"
    by (rule goodExecutor_branch [OF assms(1)])
  obtain res s1 where run: "execTask E tp ep cb c h r s = (Ok res, s1)"
    and s1: "tasksOnly E ?b s1" "wfTasks E ?b \<Longrightarrow> wfTasks E s1"
    and at1: "\<And>tp' h' c'. taskAt E s1 tp' h' c' =
      (if (tp', h', c') = (tp, h, c) then None
       else if registeredAgain tp ep c r s \<and> (tp', h', c') = (tp, height s + ep, c) then Some True
       else taskAt E ?b tp' h' c')"
    by (rule execTask_eq [OF assms(2) gas, where ep = ep and cb = cb and c = c and h = h
          and r = r]) (rule that; assumption)
  have t: "t = s1"
    using cb by (simp add: execCallback_def act_simps bindA_def run)
  have "GetParams E s1 = GetParams E s"
    using tasksOnly_params [OF s1(1)] keepsTasks_params [OF b] by simp
  then have "GetMaxSudoGas E s1 = Ok g"
    using params_reads_cong(1) gas by metis
  moreover have "height s1 = m"
    using s1(1) m by (simp add: tasksOnly_def branchState_def)
  ultimately have "wfTasks E t \<and> GetMaxSudoGas E t = Ok g \<and> height t = m"
    using s1(2) keepsTasks_wfTasks [OF b] wf by (simp add: t)
  moreover have "taskAt E t tp h' c' = taskAt E s tp h' c'"
    if "h' \<le> m" "taskBehind (Some (h, c)) h' c'" for h' c'
  proof -
    have "\<not> (registeredAgain tp ep c r s \<and> h' = height s + ep)"
      using that(1) m assms(3) by (auto simp: registeredAgain_def dest: antisym)
    then show ?thesis
      using at1 [of tp h' c'] keepsTasks_taskAt [OF b] that(2) by (auto simp: t taskBehind_def)
  qed
  ultimately show "(wfTasks E t \<and> GetMaxSudoGas E t = Ok g \<and> height t = m) \<and>
      (\<forall>h' c'. h' \<le> m \<longrightarrow> taskBehind (Some (h, c)) h' c' \<longrightarrow> taskAt E t tp h' c' = taskAt E s tp h' c')"
    by blast
qed

lemma liveTasks_exec:
  assumes "goodExecutor E cb" and "tp \<noteq> SchedulerTaskUndefined"
    and "GetMaxSudoGas E s = Ok g" and "wfTasks E s" and "height s \<le> height s + ep"
  shows "liveTasks E (SchedulerKeyPrefix @ [tp]) (height s) (execCallback E tp ep cb) None (l, s) =
    Some (IterateScheduledTasks E tp (height s) (execCallback E tp ep cb) (l, s))"
  by (rule liveTasks_eq [OF tame_execCallback [OF assms(1,2,5)]]) (use assms in auto)

end

end
