(* ===== verification/Announce.thy ===== *)
theory Announce
  imports Machine LiveTasks
begin

text \<open>
  What contracts hear at a block end. The reference is a broadcast: the changes that were
  recorded when the block end started are told to every contract whose task is due, one after
  the other, each in the state the contracts before it have left. The lemmas show that the
  run of the update tasks in \<open>abci.go\<close> is such a broadcast: the tasks read the stored changes
  anew each time, but calls that record no changes (\<open>wasmRuns\<close>) leave them as they are.
\<close>

section \<open>Telling a contract\<close>

text \<open>The update a contract gets for a list of changes, with its own share of every slash.\<close>

definition announcement :: "('s, 'x) sdk \<Rightarrow> piped_op list \<Rightarrow> address \<Rightarrow> (('s, 'x) chain, unit) act" where
  "announcement E ops contract = withState (\<lambda>ctx.
     if list_all (validatorKnown E ctx) ops then
       bindA (liftR (scaleSlashes E ctx contract (Slashed (reportOf E ctx ops)))) (\<lambda>slashed.
       bindA (liftR (json_SudoMsg E \<lparr>sudo_HandleEpoch = False,
         sudo_ValsetUpdate = Some ((reportOf E ctx ops)\<lparr>Slashed := slashed\<rparr>)\<rparr>)) (\<lambda>bz.
       bindA (wasm_Sudo E contract bz) (\<lambda>_. ret ())))
     else fail ErrUnknown)"

text \<open>
  A broadcast, by the results of its runs. A contract that is told leaves its state, one that
  fails leaves none; in between the scheduler books the runs.
\<close>

inductive broadcast :: "('s, 'x) sdk \<Rightarrow> piped_op list \<Rightarrow> exec_result list \<Rightarrow>
    ('s, 'x) chain \<Rightarrow> ('s, 'x) chain \<Rightarrow> bool" for E ops where
  over: "broadcast E ops [] s s"
| told: "announcement E ops (Contract res) s = (Ok (), u) \<Longrightarrow> ExecErr res = None \<Longrightarrow>
    tasksOnly E (commitCache s u) s' \<Longrightarrow> broadcast E ops rs s' t \<Longrightarrow> broadcast E ops (res # rs) s t"
| failed: "ExecErr res = Some e \<Longrightarrow> e = ErrPanic \<or> fst (announcement E ops (Contract res) s) = Err e \<Longrightarrow>
    tasksOnly E s s' \<Longrightarrow> broadcast E ops rs s' t \<Longrightarrow> broadcast E ops (res # rs) s t"

inductive_cases broadcast_ConsE: "broadcast E ops (res # rs) s t"

text \<open>Who is told without an error was told the changes.\<close>

lemma announcement_Ok:
  assumes "announcement E ops c s = (Ok (), u)"
  obtains slashed bz rsp where "\<forall>x \<in> set ops. validatorKnown E s x"
    and "scaleSlashes E s c (Slashed (reportOf E s ops)) = Ok slashed"
    and "json_SudoMsg E \<lparr>sudo_HandleEpoch = False,
      sudo_ValsetUpdate = Some ((reportOf E s ops)\<lparr>Slashed := slashed\<rparr>)\<rparr> = Ok bz"
    and "wasm_Sudo E c bz s = (Ok rsp, u)"
  using assms by (auto simp: announcement_def act_simps ok_iffs list_all_iff split: if_splits)

context mesh_store
begin

lemma valsetUpdateTask_announcement:
  assumes "wfOps E s"
  shows "valsetUpdateTask E c s = announcement E (pipedOps E s) c s"
  by (simp add: valsetUpdateTask_def announcement_def SendValsetUpdate_def doSudoCall_def act_simps
      ValsetUpdateReport_eq [OF assms] list_all_iff)

end

section \<open>The tasks are a broadcast\<close>

context mesh_machine
begin

lemma valset_run_broadcast:
  assumes "wasmRuns E" and "GetMaxSudoGas E s = Ok g" and "wfOps E s" and "pipedOps E s = ops"
    and "wfTasks E s"
  shows "\<exists>rs t. runTasks ts (execCallback E SchedulerTaskValsetUpdate ep (valsetUpdateTask E)) (acc, s) =
      (Ok (), (acc @ rs, t)) \<and> broadcast E ops rs s t"
  using assms(2-)
proof (induction ts arbitrary: s acc)
  case Nil
  then show ?case by (auto simp: act_simps intro: broadcast.over)
next
  case (Cons x ts)
  obtain h c r where x: "x = (h, c, r)" by (cases x) auto
  let ?V = SchedulerTaskValsetUpdate and ?f = "valsetUpdateTask E c"
  let ?b = "branchState E g ?f s"
  have tp: "?V \<noteq> SchedulerTaskUndefined" by (simp add: task_defs)
  obtain res s1 where run: "execTask E ?V ep (valsetUpdateTask E) c h r s = (Ok res, s1)"
    and res: "Contract res = c" "ExecErr res = meteredErr E g ?f s"
    and s1: "tasksOnly E ?b s1" "wfTasks E ?b \<Longrightarrow> wfTasks E s1"
    by (rule execTask_eq [OF tp Cons.prems(1), where ep = ep and cb = "valsetUpdateTask E" and c = c
          and h = h and r = r]) (rule that; assumption)
  have frame: "onlyTotals E s (snd (?f s))"
    using valsetUpdateTask_state [of E c s] contract_run_frame(1) assms(1)
    unfolding wasmRuns_def by (metis onlyTotals_refl)
  have keeps: "keepsTasks E s ?b"
    by (rule goodExecutor_branch [OF goodExecutor_valset [OF wasmRuns_goodSudo [OF assms(1)]]])
  have mem_b: "mem ?b = mem s"
    using frame by (simp add: branchState_def onlyTotals_def)
  then have mem1: "mem s1 = mem s"
    using s1(1) by (simp add: tasksOnly_def)
  have "GetParams E s1 = GetParams E s"
    using tasksOnly_params [OF s1(1)] keepsTasks_params [OF keeps] by simp
  then have "GetMaxSudoGas E s1 = Ok g"
    using params_reads_cong(1) Cons.prems(1) by metis
  moreover have "wfOps E s1" "pipedOps E s1 = ops"
    using Cons.prems(2,3) wfOps_cong [OF mem1] pipedOps_cong [OF mem1] by simp_all
  moreover have "wfTasks E s1"
    using s1(2) keepsTasks_wfTasks [OF keeps] Cons.prems(4) by simp
  ultimately obtain rs t where rest: "runTasks ts (execCallback E ?V ep (valsetUpdateTask E)) (acc @ [res], s1) =
      (Ok (), ((acc @ [res]) @ rs, t))" and tail: "broadcast E ops rs s1 t"
    using Cons.IH by blast
  have f: "?f s = announcement E ops c s"
    using valsetUpdateTask_announcement [OF Cons.prems(2)] Cons.prems(3) by simp
  have "broadcast E ops (res # rs) s t"
  proof (cases "ExecErr res")
    case None
    then obtain u where u: "?f s = (Ok (), u)" and "?b = commitCache s u"
      using metered_Ok [of g ?f s] res(2) by (auto simp: branchState_def)
    then show ?thesis
      using None f s1(1) res(1) tail by (auto intro: broadcast.told)
  next
    case (Some e)
    obtain q used where q: "gas_Metered E g ?f s = (q, used)" by (cases "gas_Metered E g ?f s")
    have "e = ErrPanic \<or> fst (announcement E ops c s) = Err e"
      using metered [OF q] Some res(2) q f by (auto simp: meteredErr_def safeExec_def split: result.splits)
    then show ?thesis
      using Some s1(1) res tail by (auto simp: branchState_def intro: broadcast.failed)
  qed
  moreover have "execCallback E ?V ep (valsetUpdateTask E) c h r (acc, s) = (Ok False, (acc @ [res], s1))"
    by (simp add: execCallback_def act_simps bindA_def run)
  ultimately show ?case
    using rest by (auto simp: x bindA_def)
qed

lemma valset_tasks_broadcast:
  assumes "wasmRuns E" and "GetMaxSudoGas E s = Ok g" and "wfOps E s" and "wfTasks E s"
    and "ExecScheduledTasks E SchedulerTaskValsetUpdate ep (valsetUpdateTask E) s = (Ok rs, t)"
  shows "broadcast E (pipedOps E s) rs s t"
proof -
  let ?ts = "dueTasks E s SchedulerTaskValsetUpdate (height s)"
  obtain rs' t' where "runTasks ?ts (execCallback E SchedulerTaskValsetUpdate ep (valsetUpdateTask E)) ([], s) =
      (Ok (), ([] @ rs', t'))" and "broadcast E (pipedOps E s) rs' s t'"
    using valset_run_broadcast [OF assms(1-3) refl assms(4), of ?ts ep "[]"] by blast
  then show ?thesis
    using assms(5)
    by (simp add: ExecScheduledTasks_def withLocal_def act_simps IterateScheduledTasks_eq [OF assms(4)] task_defs)
qed

text \<open>
  A block end in a state of the invariant comes through, begins with the broadcast of the stored
  changes to the contracts with a due task, and leaves none of the changes.
\<close>

lemma block_end_broadcast:
  assumes "meshInv E p L s" and "wasmRuns E" and "height s < 2 ^ 63"
  obtains rs s1 t where
    "ExecScheduledTasks E SchedulerTaskValsetUpdate (ucast (EpochLength p)) (valsetUpdateTask E) s = (Ok rs, s1)"
    and "map Contract rs = map (fst \<circ> snd) (dueTasks E s SchedulerTaskValsetUpdate (height s))"
    and "broadcast E (pipedOps E s) rs s s1"
    and "EndBlocker E DefaultExecutionResponseHandler s = (Ok (), t)" and "pipedOps E t = []"
proof -
  let ?epoch = "ucast (EpochLength p) :: u64" and ?g = "ucast (MaxGasEndBlocker p) :: u64"
  have i: "wfAmounts E s" "wfTasks E s" "GetParams E s = Ok p" "wfOps E s"
    using assms(1) by (simp_all add: meshInv_def)
  have params: "GetMaxSudoGas E s = Ok ?g" "GetRebalanceEpochLength E s = Ok ?epoch"
    using i(3) by (simp_all add: GetMaxSudoGas_def GetRebalanceEpochLength_def)
  note le = height_plus_epoch(1) [OF assms(3), of "EpochLength p"]
  note good = wasmRuns_goodSudo [OF assms(2)]
  have tp: "SchedulerTaskValsetUpdate \<noteq> SchedulerTaskUndefined" by (simp add: task_defs)
  obtain rs s1 where run: "ExecScheduledTasks E SchedulerTaskValsetUpdate ?epoch (valsetUpdateTask E) s = (Ok rs, s1)"
    and rs: "map Contract rs = map (fst \<circ> snd) (dueTasks E s SchedulerTaskValsetUpdate (height s))"
    by (rule ExecScheduledTasks_eq [OF goodExecutor_valset [OF good] tp params(1) i(2) le])
  obtain t where t: "EndBlocker E DefaultExecutionResponseHandler s = (Ok (), t)"
    by (rule EndBlocker_eq [OF good i(2) params le])
  have "pipedOps E t = []"
    by (rule EndBlocker_keeps(2) [where f = "limitOf E s" and D = "totalOf E s", OF assms(2) params(1) i(2) le params(2) t])
      (simp add: keptByRuns_def i)
  with run rs t valset_tasks_broadcast [OF assms(2) params(1) i(4,2) run] that show thesis
    by blast
qed

end

end
