(* ===== verification/Supply.thy ===== *)
theory Supply
  imports Handlers
begin

text \<open>
  What messages of contracts do to the supply, for the two kinds of keepers the module can be
  built with. On a bank with supply offsets (\<open>NewKeeperX\<close>) virtual tokens are booked out and
  supply plus offset stands still. On the vanilla SDK (\<open>NewKeeper\<close> with the adapters of
  \<open>keeper/adapter.go\<close>) the offset is dropped, and virtual tokens are supply like any other:
  the supply moves with the delegated totals.
\<close>

section \<open>Keepers with supply offsets\<close>

context virtual_staking
begin

lemma DispatchMsg_liquid:
  assumes "bondGood E valid_denom s"
    and "DispatchMsg E (NewDefaultCustomMsgHandler E) contract port msg s = (r, t)"
  shows "liquid (ext t) (staking_BondDenom E (ext s)) = liquid (ext s) (staking_BondDenom E (ext s))"
proof -
  have wf: "wfAmounts E s" "valid_denom (staking_BondDenom E (ext s))"
    using assms(1) by (simp_all add: bondGood_def)
  from assms(2) [unfolded default_handler] show ?thesis
  proof (cases rule: msgs.dispatch_cases)
    case (2 val c r')
    then show ?thesis using Delegate_liquid [OF wf 2(2)] by simp
  next
    case (3 val c r')
    then show ?thesis using Undelegate_liquid [OF wf 3(2)] by simp
  qed simp
qed

end

section \<open>Keepers on the vanilla SDK\<close>

text \<open>The constructor changes the two methods the adapters add, and options the wasm keeper.\<close>

lemma NewKeeper_keeps:
  fixes E :: "('s, 'x) sdk"
  defines "K \<equiv> \<lambda>cbs. NewKeeper E (map WithWasmKeeperDecorated cbs)"
  shows "\<exists>su hc. K cbs = E\<lparr>staking_InstantUndelegate := InstantUndelegate E,
    bank_AddSupplyOffset := BankKeeperAdapter_AddSupplyOffset, wasm_Sudo := su, wasm_HasContractInfo := hc\<rparr>"
proof -
  have opts: "\<exists>su hc. fold (\<lambda>o_apply. o_apply) (map WithWasmKeeperDecorated cbs) k =
      k\<lparr>wasm_Sudo := su, wasm_HasContractInfo := hc\<rparr>" for cbs and k :: "('s, 'x) sdk"
  proof (induction cbs arbitrary: k)
    case Nil
    then show ?case by (auto intro!: exI [of _ "wasm_Sudo k"] exI [of _ "wasm_HasContractInfo k"])
  next
    case (Cons cb cbs)
    have "WithWasmKeeperDecorated cb k = k\<lparr>wasm_Sudo := fst (cb (wasm_Sudo k, wasm_HasContractInfo k)),
        wasm_HasContractInfo := snd (cb (wasm_Sudo k, wasm_HasContractInfo k))\<rparr>"
      by (simp add: WithWasmKeeperDecorated_def case_prod_beta)
    with Cons [of "WithWasmKeeperDecorated cb k"] show ?case by auto
  qed
  show ?thesis
    using opts [of cbs "NewBankKeeperAdapter (NewStakingKeeperAdapter E)"]
    by (simp add: K_def NewKeeper_def NewKeeperX_def NewBankKeeperAdapter_def NewStakingKeeperAdapter_def)
qed

text \<open>
  The vanilla bank and staking keepers: minting and burning move the supply by the amount of
  the coins, sending, delegating and unbonding keep it.
\<close>

locale vanilla_bank =
  fixes E :: "('s, 'x) sdk"
    and supplyOf :: "'x \<Rightarrow> string \<Rightarrow> int"
  assumes supply_mint: "bank_MintCoins E m cs x = (Ok u, x') \<Longrightarrow> Coins_AmountOf E cs d = Ok a \<Longrightarrow>
      supplyOf x' d = supplyOf x d + a"
    and supply_burn: "bank_BurnCoins E m cs x = (Ok u, x') \<Longrightarrow> Coins_AmountOf E cs d = Ok a \<Longrightarrow>
      supplyOf x' d = supplyOf x d - a"
    and supply_send: "bank_SendCoinsFromModuleToAccount E m c cs x = (Ok u, x') \<Longrightarrow> supplyOf x' = supplyOf x"
    and supply_take: "bank_SendCoinsFromAccountToModule E c m cs x = (Ok u, x') \<Longrightarrow> supplyOf x' = supplyOf x"
    and supply_pay: "bank_UndelegateCoinsFromModuleToAccount E m c cs x = (Ok u, x') \<Longrightarrow> supplyOf x' = supplyOf x"
    and supply_delegate: "supplyOf (snd (staking_Delegate E c n v x)) = supplyOf x"
    and supply_unbond: "staking_Unbond E c va sh x = (Ok n, x') \<Longrightarrow> supplyOf x' = supplyOf x"
    and vanilla_Coins_New: "Coins_New E (Coin d (Some n)) = Ok cs \<Longrightarrow> 0 < n \<Longrightarrow>
      Coins_AmountOf E cs d' = Ok (if d' = d then n else 0)"
begin

lemma supply_undelegate: "InstantUndelegate E c va sh x = (Ok cs, x') \<Longrightarrow> supplyOf x' = supplyOf x"
  by (auto simp: InstantUndelegate_def act_simps ok_iffs Let_def dest!: supply_pay supply_unbond
      split: option.splits)

end

locale vanilla_keeper = keeper E valid_denom + vanilla_bank E supplyOf
  for E :: "('s, 'x) sdk" and valid_denom :: "string \<Rightarrow> bool" and supplyOf :: "'x \<Rightarrow> string \<Rightarrow> int" +
  fixes K :: "('s, 'x) sdk" and cbs
  assumes K: "K = NewKeeper E (map WithWasmKeeperDecorated cbs)"
begin

lemma K_simps [simp]:
  "kv_Get K = kv_Get E" "kv_Has K = kv_Has E" "kv_Set K = kv_Set E" "kv_Delete K = kv_Delete E"
  "kv_PrefixIterator K = kv_PrefixIterator E" "Int_Add K = Int_Add E" "Int_Marshal K = Int_Marshal E"
  "Int_Unmarshal K = Int_Unmarshal E" "Coin_New K = Coin_New E" "Coin_Add K = Coin_Add E"
  "Coin_Sub K = Coin_Sub E" "Coin_IsLT K = Coin_IsLT E" "Coins_New K = Coins_New E"
  "Coins_AmountOf K = Coins_AmountOf E" "bank_MintCoins K = bank_MintCoins E"
  "bank_BurnCoins K = bank_BurnCoins E"
  "bank_SendCoinsFromAccountToModule K = bank_SendCoinsFromAccountToModule E"
  "bank_SendCoinsFromModuleToAccount K = bank_SendCoinsFromModuleToAccount E"
  "bank_AddSupplyOffset K = BankKeeperAdapter_AddSupplyOffset"
  "staking_BondDenom K = staking_BondDenom E" "staking_Delegate K = staking_Delegate E"
  "staking_InstantUndelegate K = InstantUndelegate E"
  using NewKeeper_keeps [of E cbs] by (auto simp: K)

sublocale vanilla: keeper K valid_denom
  using mesh_store_axioms sdk_numbers_axioms
  by (simp add: keeper_def mesh_store_def sdk_numbers_def)

lemma Delegate_supply:
  assumes "wfAmounts K s" and "valid_denom (staking_BondDenom K (ext s))"
    and "Delegate K actor valAddr amt s = (r, t)"
  shows "supplyOf (ext t) (staking_BondDenom E (ext s)) - totalOf K t actor =
    supplyOf (ext s) (staking_BondDenom E (ext s)) - totalOf K s actor"
  using assms
proof (cases rule: vanilla.Delegate_cases [consumes 3])
  case (2 n v cs x1 x2 x3)
  let ?d = "staking_BondDenom E (ext s)"
  have "amt = Coin ?d (Some n)"
    using 2 by simp
  then have "Coins_New E (Coin ?d (Some n)) = Ok cs"
    using 2(6) by simp
  then have a: "Coins_AmountOf E cs ?d = Ok n"
    using vanilla_Coins_New [of ?d n cs ?d] 2(2) by simp
  have "supplyOf x1 ?d = supplyOf (ext s) ?d + n"
    using 2(7) a supply_mint by simp
  moreover have "x2 = x1"
    using 2(8) by (simp add: BankKeeperAdapter_AddSupplyOffset_def)
  moreover have "supplyOf x3 = supplyOf x2"
    using 2(9) supply_send by simp
  moreover have "supplyOf (ext t) = supplyOf x3"
    using 2(10) supply_delegate [of actor n v x3] by simp
  ultimately show ?thesis
    using onlyTotalD(1) [OF 2(11)] by simp
qed simp

lemma Undelegate_supply:
  assumes "wfAmounts K s" and "valid_denom (staking_BondDenom K (ext s))"
    and run: "Undelegate K actor valAddr amt s = (r, t)"
  shows "supplyOf (ext t) (staking_BondDenom E (ext s)) - totalOf K t actor =
    supplyOf (ext s) (staking_BondDenom E (ext s)) - totalOf K s actor"
proof (cases "\<exists>u. r = Ok u")
  case False
  then show ?thesis
    using Undelegate_not_Ok [OF run] by auto
next
  case True
  with run have "Undelegate K actor valAddr amt s = (Ok (), t)" by auto
  with assms(1,2) show ?thesis
  proof (cases rule: vanilla.Undelegate_OkD [consumes 3])
    case (2 n shares cs x1 x2 x3 m)
    let ?d = "staking_BondDenom E (ext s)"
    have "supplyOf x1 = supplyOf (ext s)"
      using 2(6) supply_undelegate by simp
    moreover have "supplyOf x2 = supplyOf x1"
      using 2(7) supply_take by simp
    moreover have "supplyOf x3 ?d = supplyOf x2 ?d - m"
      using 2(4,8,9) supply_burn by simp
    moreover have "ext t = x3"
      using 2(10) by (simp add: BankKeeperAdapter_AddSupplyOffset_def)
    ultimately show ?thesis
      using onlyTotalD(1) [OF 2(13)] by simp
  qed simp
qed

lemma DispatchMsg_supply:
  assumes "bondGood K valid_denom s"
    and "DispatchMsg K (NewDefaultCustomMsgHandler K) contract port msg s = (r, t)"
  shows "supplyOf (ext t) (staking_BondDenom E (ext s)) - totalOf K t contract =
    supplyOf (ext s) (staking_BondDenom E (ext s)) - totalOf K s contract"
proof -
  have wf: "wfAmounts K s" "valid_denom (staking_BondDenom K (ext s))"
    using assms(1) by (simp_all add: bondGood_def)
  from assms(2) [unfolded default_handler] show ?thesis
  proof (cases rule: vanilla.msgs.dispatch_cases)
    case (2 val c r')
    then show ?thesis using Delegate_supply [OF wf 2(2)] by simp
  next
    case (3 val c r')
    then show ?thesis using Undelegate_supply [OF wf 3(2)] by simp
  qed simp
qed

end

end
