(* ===== verification/Startup.thy ===== *)
theory Startup
  imports Wiring
begin

text \<open>
  The start of the demo chain: the calls of \<open>NewMeshApp\<close> (\<open>demo/app/app.go\<close>) from the base
  application to the loaded version, with the keepers of theory \<open>Wiring\<close> among them. What a call
  into the SDK does is a parameter, and so is the state it does it to; the model is the order of
  the calls and what becomes of an error at each place: exit code 1, or a panic. The lemmas show
  how every start ends, whatever the SDK does, and what has been called when the version is
  loaded.
\<close>

section \<open>Calls\<close>

datatype base_hook = InitChainerHook | BeginBlockerHook | EndBlockerHook | AnteHandlerHook | PostHandlerHook

datatype order_kind = BeginBlockers | EndBlockers | GenesisInit | GenesisExport

datatype startup_step =
    NewBaseApp | SetCommitMultiStoreTracer | SetVersion | SetInterfaceRegistry | SetTxEncoder
  | LoadStreamingServices
  | Construct wiring_step
  | SetParamStore
  | ReadWasmConfig
  | NewManager "app_module list"
  | SetModuleOrder order_kind "app_module list"
  | RegisterInvariants | NewConfigurator | RegisterModuleServices | RegisterUpgrades
  | RegisterAutoCLI | NewReflectionService | RegisterReflectionService
  | NewSimulationManager | RegisterStoreDecoders
  | MountStores "store_key list"
  | MakeAnteHandler | MakePostHandler
  | SetHook base_hook
  | RegisterSnapshotExtensions
  | KeepScopedKeepers "app_module list"
  | LoadLatestVersion | InitializePinnedCodes

text \<open>
  A call without an error result can only panic. An error ends the process by \<open>os.Exit(1)\<close> or
  \<open>tmos.Exit\<close>, which exits with 1 too, or it is a panic.
\<close>

datatype startup_call = Plain startup_step | OrExit startup_step | OrPanic startup_step

definition startBaseApp :: "startup_call list" where
  "startBaseApp =
     [Plain NewBaseApp, Plain SetCommitMultiStoreTracer, Plain SetVersion, Plain SetInterfaceRegistry,
      Plain SetTxEncoder, OrExit LoadStreamingServices]"

text \<open>
  The base application gets the consensus parameters' keeper as its parameter store. The wasm
  configuration is read between the keepers; the wasm keeper is given it.
\<close>

definition earlyKeepers :: "wiring_step list" where
  "earlyKeepers = drop 2 baseKeepers @ sdkKeepers @ take 4 contractKeepers"

definition lateKeepers :: "wiring_step list" where
  "lateKeepers = drop (length (take 2 baseKeepers @ earlyKeepers)) NewMeshApp_steps"

definition startKeepers :: "startup_call list" where
  "startKeepers =
     map (Plain \<circ> Construct) (take 2 baseKeepers) @ [Plain SetParamStore] @
     map (Plain \<circ> Construct) earlyKeepers @ [OrPanic ReadWasmConfig] @
     map (Plain \<circ> Construct) lateKeepers"

definition startModules :: "startup_call list" where
  "startModules =
     [Plain (NewManager ModuleManager),
      Plain (SetModuleOrder BeginBlockers OrderBeginBlockers), Plain (SetModuleOrder EndBlockers OrderEndBlockers),
      Plain (SetModuleOrder GenesisInit genesisModuleOrder), Plain (SetModuleOrder GenesisExport genesisModuleOrder),
      Plain RegisterInvariants, Plain NewConfigurator, Plain RegisterModuleServices, Plain RegisterUpgrades,
      Plain RegisterAutoCLI, OrPanic NewReflectionService, Plain RegisterReflectionService,
      Plain NewSimulationManager, Plain RegisterStoreDecoders]"

definition callSetAnteHandler :: "startup_call list" where
  "callSetAnteHandler = [OrPanic MakeAnteHandler, Plain (SetHook AnteHandlerHook)]"

definition callSetPostHandler :: "startup_call list" where
  "callSetPostHandler = [OrPanic MakePostHandler, Plain (SetHook PostHandlerHook)]"

definition startHooks :: "startup_call list" where
  "startHooks =
     [Plain (MountStores (map KV kvStoreKeys)), Plain (MountStores (map Transient transientStoreKeys)),
      Plain (MountStores (map Memory memoryStoreKeys)),
      Plain (SetHook InitChainerHook), Plain (SetHook BeginBlockerHook), Plain (SetHook EndBlockerHook)] @
     callSetAnteHandler"

definition startSnapshots :: "bool \<Rightarrow> startup_call list" where
  "startSnapshots hasSnapshotManager = (if hasSnapshotManager then [OrPanic RegisterSnapshotExtensions] else [])"

definition keptScopes :: "app_module list" where
  "keptScopes = [MIBC, MTransfer, MWasm, MICAHost, MICAController]"

definition startLoad :: "bool \<Rightarrow> startup_call list" where
  "startLoad loadLatest = (if loadLatest then [OrExit LoadLatestVersion, OrExit InitializePinnedCodes] else [])"

definition NewMeshApp_startup :: "bool \<Rightarrow> bool \<Rightarrow> startup_call list" where
  "NewMeshApp_startup hasSnapshotManager loadLatest =
     startBaseApp @ startKeepers @ startModules @ startHooks @ startSnapshots hasSnapshotManager @
     [Plain (KeepScopedKeepers keptScopes)] @ callSetPostHandler @ startLoad loadLatest"

section \<open>Running the calls\<close>

text \<open>The process: it runs, has exited with a code, or has panicked.\<close>

datatype 'a process = Running 'a | Exited int | Crashed

fun runCall :: "(startup_step \<Rightarrow> 'a \<Rightarrow> 'a result) \<Rightarrow> startup_call \<Rightarrow> 'a \<Rightarrow> 'a process" where
  "runCall sdk (Plain x) s = (case sdk x s of Ok t \<Rightarrow> Running t | _ \<Rightarrow> Crashed)"
| "runCall sdk (OrExit x) s = (case sdk x s of Ok t \<Rightarrow> Running t | Err e \<Rightarrow> Exited 1 | Panic \<Rightarrow> Crashed)"
| "runCall sdk (OrPanic x) s = (case sdk x s of Ok t \<Rightarrow> Running t | _ \<Rightarrow> Crashed)"

fun runStartup :: "(startup_step \<Rightarrow> 'a \<Rightarrow> 'a result) \<Rightarrow> startup_call list \<Rightarrow> 'a \<Rightarrow> 'a process" where
  "runStartup sdk [] s = Running s"
| "runStartup sdk (x # xs) s =
     (case runCall sdk x s of
        Running t \<Rightarrow> runStartup sdk xs t | Exited n \<Rightarrow> Exited n | Crashed \<Rightarrow> Crashed)"

definition NewMeshApp :: "(startup_step \<Rightarrow> 'a \<Rightarrow> 'a result) \<Rightarrow> bool \<Rightarrow> bool \<Rightarrow> 'a \<Rightarrow> 'a process" where
  "NewMeshApp sdk hasSnapshotManager loadLatest =
     runStartup sdk (NewMeshApp_startup hasSnapshotManager loadLatest)"

text \<open>
  The post handler is what the SDK's constructor makes, and an error of it is a panic; the
  result is the handler that is set.
\<close>

definition setPostHandler :: "'h result \<Rightarrow> 'h result" where
  "setPostHandler NewPostHandler = mustR NewPostHandler"

section \<open>Accessors\<close>

text \<open>
  The keys and parameter subspaces the application gives to tests and to the upgrade: a Go map
  gives nil for a key it does not have, and a subspace that is not found is the zero one. The
  default genesis is what the SDK collects from the basic modules.
\<close>

definition GetKey :: "app_module \<Rightarrow> store_key option" where
  "GetKey storeKey = (if storeKey \<in> set kvStoreKeys then Some (KV storeKey) else None)"

definition GetTKey :: "app_module \<Rightarrow> store_key option" where
  "GetTKey storeKey = (if storeKey \<in> set transientStoreKeys then Some (Transient storeKey) else None)"

definition GetMemKey :: "app_module \<Rightarrow> store_key option" where
  "GetMemKey storeKey = (if storeKey \<in> set memoryStoreKeys then Some (Memory storeKey) else None)"

definition GetSubspace :: "app_module \<Rightarrow> app_module option" where
  "GetSubspace moduleName = (if moduleName \<in> set initParamsKeeper then Some moduleName else None)"

definition LoadHeight :: "(int \<Rightarrow> ('w, unit) act) \<Rightarrow> int \<Rightarrow> ('w, unit) act" where
  "LoadHeight LoadVersion h = LoadVersion h"

definition NewDefaultGenesisState :: "(app_module list \<Rightarrow> 'cdc \<Rightarrow> 'g) \<Rightarrow> 'cdc \<Rightarrow> 'g" where
  "NewDefaultGenesisState basics_DefaultGenesis cdc = basics_DefaultGenesis ModuleBasics cdc"

definition App_DefaultGenesis :: "(app_module list \<Rightarrow> 'cdc \<Rightarrow> 'g) \<Rightarrow> 'cdc \<Rightarrow> 'g" where
  "App_DefaultGenesis basics_DefaultGenesis appCodec = basics_DefaultGenesis ModuleBasics appCodec"

text \<open>Mesh security has a store, a memory store and a parameter subspace.\<close>

lemma mesh_keys:
  "GetKey MMeshsec = Some (KV MMeshsec)" "GetMemKey MMeshsec = Some (Memory MMeshsec)"
  "GetSubspace MMeshsec = Some MMeshsec" "GetTKey MMeshsec = None"
  by code_simp+

section \<open>Lemmas\<close>

text \<open>The keepers are constructed in their order.\<close>

lemma keepers_split: "take 2 baseKeepers @ earlyKeepers @ lateKeepers = NewMeshApp_steps"
  by (simp add: earlyKeepers_def lateKeepers_def NewMeshApp_steps_def contractKeepers_def baseKeepers_def)

primrec stepOf :: "startup_call \<Rightarrow> startup_step" where
  "stepOf (Plain x) = x"
| "stepOf (OrExit x) = x"
| "stepOf (OrPanic x) = x"

text \<open>A sequence of calls that all come through.\<close>

inductive came_through :: "(startup_step \<Rightarrow> 'a \<Rightarrow> 'a result) \<Rightarrow> startup_step list \<Rightarrow> 'a \<Rightarrow> 'a \<Rightarrow> bool" for sdk where
  none: "came_through sdk [] s s"
| call: "sdk x s = Ok t \<Longrightarrow> came_through sdk xs t u \<Longrightarrow> came_through sdk (x # xs) s u"

lemma runCall_fails:
  assumes "\<forall>t. sdk (stepOf x) s \<noteq> Ok t"
  shows "runCall sdk x s = (case (x, sdk (stepOf x) s) of (OrExit y, Err e) \<Rightarrow> Exited 1 | _ \<Rightarrow> Crashed)"
  using assms by (cases x) (auto split: result.split)

text \<open>Every run is one in which all calls come through, or one that ends at a call that does not.\<close>

lemma runStartup_cases:
  obtains (running) t where "came_through sdk (map stepOf xs) s t" and "runStartup sdk xs s = Running t"
  | (ended) pre x post u where "xs = pre @ x # post" and "came_through sdk (map stepOf pre) s u"
    and "\<forall>t. sdk (stepOf x) u \<noteq> Ok t"
    and "runStartup sdk xs s = (case (x, sdk (stepOf x) u) of (OrExit y, Err e) \<Rightarrow> Exited 1 | _ \<Rightarrow> Crashed)"
proof -
  have "(\<exists>t. came_through sdk (map stepOf xs) s t \<and> runStartup sdk xs s = Running t) \<or>
    (\<exists>pre x post u. xs = pre @ x # post \<and> came_through sdk (map stepOf pre) s u \<and>
      (\<forall>t. sdk (stepOf x) u \<noteq> Ok t) \<and>
      runStartup sdk xs s = (case (x, sdk (stepOf x) u) of (OrExit y, Err e) \<Rightarrow> Exited 1 | _ \<Rightarrow> Crashed))"
  proof (induction xs arbitrary: s)
    case Nil
    then show ?case by (auto intro: came_through.none)
  next
    case (Cons x xs)
    show ?case
    proof (cases "sdk (stepOf x) s")
      case (Ok t)
      then have run: "runStartup sdk (x # xs) s = runStartup sdk xs t"
        by (cases x) simp_all
      from Cons [of t] show ?thesis
      proof (elim disjE exE conjE)
        fix u assume "came_through sdk (map stepOf xs) t u" "runStartup sdk xs t = Running u"
        then show ?thesis using run Ok by (auto intro: came_through.call)
      next
        fix pre y post u
        assume y: "xs = pre @ y # post" "came_through sdk (map stepOf pre) t u" "\<forall>t. sdk (stepOf y) u \<noteq> Ok t"
          "runStartup sdk xs t = (case (y, sdk (stepOf y) u) of (OrExit y, Err e) \<Rightarrow> Exited 1 | _ \<Rightarrow> Crashed)"
        have "came_through sdk (map stepOf (x # pre)) s u"
          using y(2) Ok by (auto intro: came_through.call)
        then show ?thesis
          using y run by (intro disjI2 exI [of _ "x # pre"] exI [of _ y] exI [of _ post] exI [of _ u]) simp
      qed
    next
      case fails: (Err e)
      then show ?thesis
        using runCall_fails [of sdk x s] came_through.none [of sdk s]
        by (intro disjI2 exI [of _ "[]"] exI [of _ x] exI [of _ xs] exI [of _ s]) (simp split: startup_call.split)
    next
      case fails: Panic
      then show ?thesis
        using runCall_fails [of sdk x s] came_through.none [of sdk s]
        by (intro disjI2 exI [of _ "[]"] exI [of _ x] exI [of _ xs] exI [of _ s]) (simp split: startup_call.split)
    qed
  qed
  then show thesis using running ended by blast
qed

text \<open>The calls whose error ends the process with exit code 1.\<close>

lemmas startup_defs = NewMeshApp_startup_def startBaseApp_def startKeepers_def startModules_def startHooks_def
  callSetAnteHandler_def callSetPostHandler_def startSnapshots_def startLoad_def

lemma exits_at:
  assumes "c \<in> set (NewMeshApp_startup snap latest)"
  shows "(\<exists>y. c = OrExit y) \<longleftrightarrow> stepOf c \<in> {LoadStreamingServices, LoadLatestVersion, InitializePinnedCodes}"
  using assms by (auto simp: startup_defs split: if_splits)

lemma NewMeshApp_cases:
  obtains (running) t where "came_through sdk (map stepOf (NewMeshApp_startup snap latest)) s t"
    and "NewMeshApp sdk snap latest s = Running t"
  | (ended) pre x post u where "map stepOf (NewMeshApp_startup snap latest) = pre @ x # post"
    and "came_through sdk pre s u" and "\<forall>t. sdk x u \<noteq> Ok t"
    and "NewMeshApp sdk snap latest s =
      (if x \<in> {LoadStreamingServices, LoadLatestVersion, InitializePinnedCodes} \<and> sdk x u \<noteq> Panic
       then Exited 1 else Crashed)"
proof (cases rule: runStartup_cases [of sdk "NewMeshApp_startup snap latest" s])
  case (running t)
  then show thesis using that(1) by (simp add: NewMeshApp_def)
next
  case (ended pre x post u)
  have x: "x \<in> set (NewMeshApp_startup snap latest)"
    using ended(1) by simp
  have "runStartup sdk (NewMeshApp_startup snap latest) s =
      (if (\<exists>y. x = OrExit y) \<and> sdk (stepOf x) u \<noteq> Panic then Exited 1 else Crashed)"
    using ended(3,4) by (cases x; cases "sdk (stepOf x) u") auto
  then show thesis
    using that(2) [of "map stepOf pre" "stepOf x" "map stepOf post" u] ended(1-3) exits_at [OF x]
    by (simp add: NewMeshApp_def)
qed

section \<open>What has been called\<close>

fun constructedIn :: "startup_step list \<Rightarrow> wiring_step list" where
  "constructedIn [] = []"
| "constructedIn (Construct w # xs) = w # constructedIn xs"
| "constructedIn (_ # xs) = constructedIn xs"

fun mountedIn :: "startup_step list \<Rightarrow> store_key list" where
  "mountedIn [] = []"
| "mountedIn (MountStores ks # xs) = ks @ mountedIn xs"
| "mountedIn (_ # xs) = mountedIn xs"

text \<open>
  Before the version is loaded: the keepers are constructed, exactly the stores they use are
  mounted, each once, and every hook is set; afterwards only the pinned codes are read.
\<close>

definition readyToLoad :: "startup_step list \<Rightarrow> bool" where
  "readyToLoad pre \<longleftrightarrow> constructedIn pre = NewMeshApp_steps \<and> distinct (mountedIn pre) \<and>
     set (mountedIn pre) = \<Union> (openedBy ` set NewMeshApp_steps) \<and> (\<forall>h. SetHook h \<in> set pre)"

lemma readyToLoad_list:
  "readyToLoad pre \<longleftrightarrow> constructedIn pre = NewMeshApp_steps \<and> distinct (mountedIn pre) \<and>
     set (mountedIn pre) = \<Union> (openedBy ` set NewMeshApp_steps) \<and>
     list_all (\<lambda>h. SetHook h \<in> set pre)
       [InitChainerHook, BeginBlockerHook, EndBlockerHook, AnteHandlerHook, PostHandlerHook]"
  unfolding readyToLoad_def by (simp, metis base_hook.exhaust)

lemma ready_before_load:
  "readyToLoad (map stepOf (NewMeshApp_startup True False))" "readyToLoad (map stepOf (NewMeshApp_startup False False))"
  unfolding readyToLoad_list by code_simp+

lemma NewMeshApp_load:
  assumes "map stepOf (NewMeshApp_startup snap latest) = pre @ LoadLatestVersion # post"
  shows "readyToLoad pre" and "post = [InitializePinnedCodes]"
proof -
  let ?before = "map stepOf (NewMeshApp_startup snap False)"
  have early: "LoadLatestVersion \<notin> set ?before"
    by (auto simp: startup_defs split: if_splits)
  then have "latest"
    using assms by (metis (full_types) in_set_conv_decomp)
  then have "?before @ LoadLatestVersion # [InitializePinnedCodes] = pre @ LoadLatestVersion # post"
    using assms by (simp add: NewMeshApp_startup_def startLoad_def)
  then have "pre = ?before \<and> post = [InitializePinnedCodes]"
    by (subst (asm) append_Cons_eq_iff [OF early]) simp_all
  then show "readyToLoad pre" "post = [InitializePinnedCodes]"
    using ready_before_load by (cases snap; simp)+
qed

end
