(* ===== verification/Daemon.thy ===== *)
theory Daemon
  imports Startup Cli Export
begin

text \<open>
  The daemon of the demo chain (\<open>demo/cmd/meshd\<close>, with \<open>demo/app/encoding.go\<close>,
  \<open>demo/app/genesis.go\<close>): its tree of commands, what runs before every command, how it makes the
  application, and the exit code. Commands and configuration of the SDK are parameters. The
  lemmas show which commands of the modules a user can reach, and that nothing runs with a
  configuration that was not read.
\<close>

section \<open>Commands\<close>

text \<open>The commands the SDK provides, by the call that makes them.\<close>

datatype sdk_command =
    InitCmd | DebugCmd | ConfigCmd | PruningCmd | StatusCommand | GenesisCoreCommand | KeysCommands
  | RosettaCommand
  | GetAccountCmd | ValidatorCommand | BlockCommand | QueryTxsByEventsCmd | QueryTxCmd
  | GetSignCommand | GetSignBatchCommand | GetMultiSignCommand | GetMultiSignBatchCmd
  | GetValidateSignaturesCommand | GetBroadcastCommand | GetEncodeCommand | GetDecodeCommand
  | GetAuxToFeeCommand

text \<open>
  What the daemon takes from the SDK: its commands, the commands the server adds to the root,
  and the manager that adds the commands of a list of modules to a command; each module has a
  query and a transaction command or none.
\<close>

record daemon_sdk =
  AppName :: string
  sdkCommand :: "sdk_command \<Rightarrow> cobra_command"
  serverCommands :: "cobra_command list"
  otherQueryCmd :: "app_module \<Rightarrow> cobra_command option"
  otherTxCmd :: "app_module \<Rightarrow> cobra_command option"
  addModuleCommands :: "(app_module \<Rightarrow> cobra_command option) \<Rightarrow> app_module list \<Rightarrow> cobra_command \<Rightarrow> cobra_command"

text \<open>The start command gets the flags of two modules, in this order.\<close>

definition addModuleInitFlags :: "('cmd \<Rightarrow> 'cmd) \<Rightarrow> ('cmd \<Rightarrow> 'cmd) \<Rightarrow> 'cmd \<Rightarrow> 'cmd" where
  "addModuleInitFlags crisis_AddModuleInitFlags wasm_AddModuleInitFlags startCmd =
     wasm_AddModuleInitFlags (crisis_AddModuleInitFlags startCmd)"

definition AddCommand :: "cobra_command \<Rightarrow> cobra_command list \<Rightarrow> cobra_command" where
  "AddCommand c cmds = Command (Use c) (subCommands c @ cmds)"

text \<open>The modules' own commands; mesh security's among those of the other modules.\<close>

definition Module_GetQueryCmd :: cobra_command where "Module_GetQueryCmd = GetQueryCmd"

definition Module_GetTxCmd :: cobra_command where "Module_GetTxCmd = GetTxCmd"

definition Provider_Module_GetQueryCmd :: cobra_command where
  "Provider_Module_GetQueryCmd = Provider_GetQueryCmd"

definition Provider_Module_GetTxCmd :: cobra_command where
  "Provider_Module_GetTxCmd = Provider_NewTxCmd"

definition moduleQueryCmd :: "daemon_sdk \<Rightarrow> app_module \<Rightarrow> cobra_command option" where
  "moduleQueryCmd D m = (if m = MMeshsec then Some Module_GetQueryCmd else otherQueryCmd D m)"

definition moduleTxCmd :: "daemon_sdk \<Rightarrow> app_module \<Rightarrow> cobra_command option" where
  "moduleTxCmd D m = (if m = MMeshsec then Some Module_GetTxCmd else otherTxCmd D m)"

definition genesisCommand :: "daemon_sdk \<Rightarrow> cobra_command list \<Rightarrow> cobra_command" where
  "genesisCommand D cmds = fold (\<lambda>subCmd cmd. AddCommand cmd [subCmd]) cmds (sdkCommand D GenesisCoreCommand)"

definition queryCommand :: "daemon_sdk \<Rightarrow> cobra_command" where
  "queryCommand D = addModuleCommands D (moduleQueryCmd D) ModuleBasics
     (AddCommand (Command ''query'' []) (map (sdkCommand D)
       [GetAccountCmd, ValidatorCommand, BlockCommand, QueryTxsByEventsCmd, QueryTxCmd]))"

definition txCommand :: "daemon_sdk \<Rightarrow> cobra_command" where
  "txCommand D = addModuleCommands D (moduleTxCmd D) ModuleBasics
     (AddCommand (Command ''tx'' []) (map (sdkCommand D)
       [GetSignCommand, GetSignBatchCommand, GetMultiSignCommand, GetMultiSignBatchCmd,
        GetValidateSignaturesCommand, GetBroadcastCommand, GetEncodeCommand, GetDecodeCommand,
        GetAuxToFeeCommand]))"

definition initRootCmd :: "daemon_sdk \<Rightarrow> cobra_command \<Rightarrow> cobra_command" where
  "initRootCmd D rootCmd = (
     let rootCmd = AddCommand rootCmd (map (sdkCommand D) [InitCmd, DebugCmd, ConfigCmd, PruningCmd]);
         rootCmd = AddCommand rootCmd (serverCommands D);
         rootCmd = AddCommand rootCmd [sdkCommand D StatusCommand, genesisCommand D [], queryCommand D,
           txCommand D, sdkCommand D KeysCommands]
     in AddCommand rootCmd [sdkCommand D RosettaCommand])"

definition rootCommand :: "daemon_sdk \<Rightarrow> cobra_command" where
  "rootCommand D = initRootCmd D (Command (AppName D) [])"

section \<open>Addresses\<close>

text \<open>The bech32 prefixes, over the SDK's parts of them.\<close>

record bech32_parts =
  PrefixPublic :: string
  PrefixValidator :: string
  PrefixOperator :: string
  PrefixConsensus :: string

definition Bech32Prefix :: string where "Bech32Prefix = ''mesh''"

definition Bech32PrefixAccAddr :: string where "Bech32PrefixAccAddr = Bech32Prefix"

definition Bech32PrefixAccPub :: "bech32_parts \<Rightarrow> string" where
  "Bech32PrefixAccPub B = Bech32Prefix @ PrefixPublic B"

definition Bech32PrefixValAddr :: "bech32_parts \<Rightarrow> string" where
  "Bech32PrefixValAddr B = Bech32Prefix @ PrefixValidator B @ PrefixOperator B"

definition Bech32PrefixValPub :: "bech32_parts \<Rightarrow> string" where
  "Bech32PrefixValPub B = Bech32Prefix @ PrefixValidator B @ PrefixOperator B @ PrefixPublic B"

definition Bech32PrefixConsAddr :: "bech32_parts \<Rightarrow> string" where
  "Bech32PrefixConsAddr B = Bech32Prefix @ PrefixValidator B @ PrefixConsensus B"

definition Bech32PrefixConsPub :: "bech32_parts \<Rightarrow> string" where
  "Bech32PrefixConsPub B = Bech32Prefix @ PrefixValidator B @ PrefixConsensus B @ PrefixPublic B"

text \<open>The SDK's configuration, as far as \<open>NewRootCmd\<close> sets it.\<close>

record address_config =
  accountPrefix :: "string \<times> string"
  validatorPrefix :: "string \<times> string"
  consensusPrefix :: "string \<times> string"
  verifiesLength :: bool
  is_sealed :: bool

definition empty_config :: address_config where
  "empty_config = \<lparr>accountPrefix = ([], []), validatorPrefix = ([], []), consensusPrefix = ([], []),
     verifiesLength = False, is_sealed = False\<rparr>"

definition configureAddresses :: "bech32_parts \<Rightarrow> address_config \<Rightarrow> address_config" where
  "configureAddresses B cfg = (
     let cfg = cfg\<lparr>accountPrefix := (Bech32PrefixAccAddr, Bech32PrefixAccPub B)\<rparr>;
         cfg = cfg\<lparr>validatorPrefix := (Bech32PrefixValAddr B, Bech32PrefixValPub B)\<rparr>;
         cfg = cfg\<lparr>consensusPrefix := (Bech32PrefixConsAddr B, Bech32PrefixConsPub B)\<rparr>;
         cfg = cfg\<lparr>verifiesLength := True\<rparr>
     in cfg\<lparr>is_sealed := True\<rparr>)"

section \<open>Before every command\<close>

text \<open>
  The client context, the server's and the wasm module's configurations and templates are
  types and values of the SDK. A handler acts on the world \<open>'w\<close>: the command and its context.
\<close>

record ('ctx, 'srv, 'wasm, 'tm, 'w) config_sdk =
  initialClientCtx :: 'ctx
  ReadPersistentCommandFlags :: "'ctx \<Rightarrow> ('w, 'ctx) act"
  ReadFromClientConfig :: "'ctx \<Rightarrow> ('w, 'ctx) act"
  SetCmdClientContextHandler :: "'ctx \<Rightarrow> ('w, unit) act"
  SetOutputs :: "('w, unit) act"
  server_DefaultConfig :: 'srv
  withMinGasPrices :: "string \<Rightarrow> 'srv \<Rightarrow> 'srv"
  wasm_DefaultConfig :: 'wasm
  server_ConfigTemplate :: string
  wasm_ConfigTemplate :: string
  tm_DefaultConfig :: 'tm
  InterceptConfigsPreRunHandler :: "string \<Rightarrow> 'srv \<times> 'wasm \<Rightarrow> 'tm \<Rightarrow> ('w, unit) act"

definition initTendermintConfig :: "('ctx, 'srv, 'wasm, 'tm, 'w) config_sdk \<Rightarrow> 'tm" where
  "initTendermintConfig D = tm_DefaultConfig D"

definition initAppConfig :: "('ctx, 'srv, 'wasm, 'tm, 'w) config_sdk \<Rightarrow> string \<times> 'srv \<times> 'wasm" where
  "initAppConfig D = (
     let srvCfg = withMinGasPrices D ''0stake'' (server_DefaultConfig D);
         customAppConfig = (srvCfg, wasm_DefaultConfig D);
         customAppTemplate = server_ConfigTemplate D @ wasm_ConfigTemplate D
     in (customAppTemplate, customAppConfig))"

definition PersistentPreRunE :: "('ctx, 'srv, 'wasm, 'tm, 'w) config_sdk \<Rightarrow> ('w, unit) act" where
  "PersistentPreRunE D =
     bindA (SetOutputs D) (\<lambda>_.
     bindA (ReadPersistentCommandFlags D (initialClientCtx D)) (\<lambda>clientCtx.
     bindA (ReadFromClientConfig D clientCtx) (\<lambda>clientCtx.
     bindA (SetCmdClientContextHandler D clientCtx) (\<lambda>_.
     let (customAppTemplate, customAppConfig) = initAppConfig D;
         customTMConfig = initTendermintConfig D
     in InterceptConfigsPreRunHandler D customAppTemplate customAppConfig customTMConfig))))"

section \<open>The application and the process\<close>

text \<open>The options \<open>newApp\<close> reads; the application is always loaded at its latest version.\<close>

datatype wasm_option = WithVMCacheMetrics

definition newApp :: "bool \<Rightarrow> (startup_step \<Rightarrow> 'a \<Rightarrow> 'a result) \<Rightarrow> bool \<Rightarrow> 'a \<Rightarrow> wasm_option list \<times> 'a process" where
  "newApp telemetryEnabled sdk hasSnapshotManager s =
     (if telemetryEnabled then [WithVMCacheMetrics] else [], NewMeshApp sdk hasSnapshotManager True s)"

text \<open>\<open>main\<close>: an error of the command ends the process with its code, or with 1.\<close>

datatype exec_error = ErrorCode int | OtherError error

definition main_exit :: "exec_error option \<Rightarrow> int" where
  "main_exit err = (case err of None \<Rightarrow> 0 | Some (ErrorCode code) \<Rightarrow> code | Some (OtherError _) \<Rightarrow> 1)"

section \<open>Lemmas\<close>

lemma subCommands_AddCommand [simp]: "subCommands (AddCommand c cmds) = subCommands c @ cmds"
  and Use_AddCommand [simp]: "Use (AddCommand c cmds) = Use c"
  by (simp_all add: AddCommand_def)

lemma reachable_sub:
  assumes "cmd \<in> set (subCommands c)" and "path \<in> set (reachableCommands cmd)"
  shows "Use c # path \<in> set (reachableCommands c)"
  using assms by (cases c) (auto simp: image_iff)

text \<open>
  The SDK's module manager adds the commands of the modules that have one, in the order of a
  Go map, and keeps the command's name and the commands it has.
\<close>

locale basic_manager =
  fixes D :: daemon_sdk
  assumes addModule_Use: "Use (addModuleCommands D f ms c) = Use c"
    and addModule_sub: "set (subCommands (addModuleCommands D f ms c)) =
      set (subCommands c) \<union> {cmd. \<exists>m \<in> set ms. f m = Some cmd}"
begin

lemma mesh_module: "MMeshsec \<in> set ModuleBasics"
  by (simp add: ModuleBasics_def)

lemma queryCommand_sub: "GetQueryCmd \<in> set (subCommands (queryCommand D))"
  and queryCommand_Use: "Use (queryCommand D) = ''query''"
  and txCommand_sub: "GetTxCmd \<in> set (subCommands (txCommand D))"
  and txCommand_Use: "Use (txCommand D) = ''tx''"
  using mesh_module
  by (auto simp: queryCommand_def txCommand_def addModule_Use addModule_sub moduleQueryCmd_def moduleTxCmd_def
      Module_GetQueryCmd_def Module_GetTxCmd_def)

lemma root_sub: "queryCommand D \<in> set (subCommands (rootCommand D))" "txCommand D \<in> set (subCommands (rootCommand D))"
  and root_Use: "Use (rootCommand D) = AppName D"
  by (simp_all add: rootCommand_def initRootCmd_def Let_def)

text \<open>Every command of the mesh-security module can be reached from the root.\<close>

lemma mesh_commands_reachable:
  "path \<in> set (reachableCommands GetQueryCmd) \<Longrightarrow> AppName D # ''query'' # path \<in> set (reachableCommands (rootCommand D))"
  "path \<in> set (reachableCommands GetTxCmd) \<Longrightarrow> AppName D # ''tx'' # path \<in> set (reachableCommands (rootCommand D))"
  using reachable_sub [OF root_sub(1) reachable_sub [OF queryCommand_sub]]
    reachable_sub [OF root_sub(2) reachable_sub [OF txCommand_sub]]
  by (simp_all add: root_Use queryCommand_Use txCommand_Use)

end

text \<open>
  The handler before a command comes through only when the flags, the client's and the
  server's configurations were read, and it passes on the defaults with a minimum gas price.
\<close>

lemma PersistentPreRunE_Ok:
  assumes "PersistentPreRunE D s = (Ok u, t)"
  obtains s1 s2 s3 s4 ctx1 ctx2 where "SetOutputs D s = (Ok (), s1)"
    and "ReadPersistentCommandFlags D (initialClientCtx D) s1 = (Ok ctx1, s2)"
    and "ReadFromClientConfig D ctx1 s2 = (Ok ctx2, s3)"
    and "SetCmdClientContextHandler D ctx2 s3 = (Ok (), s4)"
    and "InterceptConfigsPreRunHandler D (server_ConfigTemplate D @ wasm_ConfigTemplate D)
      (withMinGasPrices D ''0stake'' (server_DefaultConfig D), wasm_DefaultConfig D) (tm_DefaultConfig D) s4 =
      (Ok (), t)"
  using assms by (auto simp: PersistentPreRunE_def ok_iffs initAppConfig_def initTendermintConfig_def)

text \<open>The configuration is sealed with the chain's own prefixes in it.\<close>

lemma sealed_prefixes:
  "configureAddresses B empty_config =
     \<lparr>accountPrefix = (Bech32PrefixAccAddr, Bech32PrefixAccPub B),
      validatorPrefix = (Bech32PrefixValAddr B, Bech32PrefixValPub B),
      consensusPrefix = (Bech32PrefixConsAddr B, Bech32PrefixConsPub B),
      verifiesLength = True, is_sealed = True\<rparr>"
  by (simp add: configureAddresses_def empty_config_def)

end
