(* ===== verification/ExamplesNode.thy ===== *)
theory ExamplesNode
  imports ExamplesApp Announce Supply Daemon
begin

text \<open>
  Instances for the witnesses, continued: a keeper on the vanilla SDK and a bond on it, a
  daemon whose modules' commands are added in list order, and a contract that is told of a
  slash.
\<close>

section \<open>A keeper on the vanilla SDK\<close>

definition ref_supply :: "ref_ext \<Rightarrow> string \<Rightarrow> int" where
  "ref_supply x = sumFor (r_supply x)"

text \<open>The environment before the adapters, and the keeper \<open>NewKeeper\<close> makes of it.\<close>

definition ref_vanilla :: "(ref_store, ref_ext) sdk" where
  "ref_vanilla = NewKeeper ref_base (map WithWasmKeeperDecorated [])"

lemma ref_plain: "keeper ref_base ref_denom"
  using ref_keeper.keeper_axioms by (simp add: ref_sdk_def keeper_def mesh_store_def sdk_numbers_def)

interpretation ref_van: vanilla_keeper ref_base ref_denom ref_supply ref_vanilla "[]"
proof (intro vanilla_keeper.intro ref_plain vanilla_bank.intro vanilla_keeper_axioms.intro ref_vanilla_def, goal_cases)
  case (1 m cs x u x' d a)
  then show ?case by (auto simp: ref_base_def ref_supply_def ref_AmountOf_sum)
next
  case (2 m cs x u x' d a)
  then show ?case by (auto simp: ref_base_def ref_supply_def ref_AmountOf_sum sumFor_neg)
next
  case (6 c n v x)
  then show ?case by (simp add: ref_base_def ref_StakingDelegate_def ref_supply_def Let_def fun_eq_iff)
next
  case (7 c va sh x n x')
  then show ?case by (auto simp: ref_base_def ref_Unbond_def ref_supply_def fun_eq_iff)
next
  case (8 d n cs d')
  then show ?case by (auto simp: ref_base_def)
qed (auto simp: ref_base_def)

text \<open>The same bond as in theory \<open>Examples\<close> on the vanilla keeper.\<close>

lemma ref_vanilla_bond:
  "fst (DispatchMsg ref_vanilla (NewDefaultCustomMsgHandler ref_vanilla) [49] [] ref_bond ref_capped) =
     Ok [ref_bondEvent]"
  "totalOf ref_vanilla (snd (DispatchMsg ref_vanilla (NewDefaultCustomMsgHandler ref_vanilla) [49] []
     ref_bond ref_capped)) [49] = 30"
  "totalOf ref_vanilla ref_capped [49] = 0"
  "ref_supply (ext ref_capped) ''stake'' = 0"
  by code_simp+

lemma ref_vanilla_good: "bondGood ref_vanilla ref_denom ref_capped"
proof -
  have "wfAmounts ref_vanilla ref_capped \<longleftrightarrow> wfAmounts ref_sdk ref_capped"
    by (simp add: wfAmounts_def ref_vanilla_def NewKeeper_def NewKeeperX_def NewBankKeeperAdapter_def
        NewStakingKeeperAdapter_def ref_sdk_def goodAmount_def)
  then show ?thesis
    using ref_wf(2) by (simp add: bondGood_def ref_base_def ref_denom_def)
qed

section \<open>The daemon\<close>

definition ref_daemon :: daemon_sdk where
  "ref_daemon = \<lparr>AppName = ''meshd'', sdkCommand = (\<lambda>c. Command ''sdk'' []), serverCommands = [],
     otherQueryCmd = (\<lambda>m. if m = MBank then Some (Command ''bank'' []) else None),
     otherTxCmd = (\<lambda>m. None),
     addModuleCommands = (\<lambda>f ms c. AddCommand c (concat (map (\<lambda>m. case f m of None \<Rightarrow> [] | Some cmd \<Rightarrow> [cmd]) ms)))\<rparr>"

interpretation ref_basics: basic_manager ref_daemon
proof
  fix f ms and c :: cobra_command
  show "Use (addModuleCommands ref_daemon f ms c) = Use c"
    by (simp add: ref_daemon_def)
  have "cmd \<in> set (case f m of None \<Rightarrow> [] | Some cmd \<Rightarrow> [cmd]) \<longleftrightarrow> f m = Some cmd" for cmd and m :: app_module
    by (auto split: option.splits)
  then show "set (subCommands (addModuleCommands ref_daemon f ms c)) =
      set (subCommands c) \<union> {cmd. \<exists>m \<in> set ms. f m = Some cmd}"
    by (auto simp: ref_daemon_def)
qed

text \<open>The prefixes of different kinds of addresses and keys differ, with the SDK's parts of them.\<close>

lemma ref_prefixes:
  "distinct [Bech32PrefixAccAddr, Bech32PrefixAccPub B, Bech32PrefixValAddr B, Bech32PrefixValPub B,
     Bech32PrefixConsAddr B, Bech32PrefixConsPub B]"
  if "B = \<lparr>PrefixPublic = ''pub'', PrefixValidator = ''val'', PrefixOperator = ''oper'',
     PrefixConsensus = ''cons''\<rparr>"
  unfolding that by code_simp

end
