(* ===== verification/Services.thy ===== *)
theory Services
  imports AppBlocks MsgServer
begin

text \<open>
  How messages and queries find the modules: the services and their method names (the service
  descriptions in \<open>types/tx.pb.go\<close> and \<open>types/query.pb.go\<close>, \<open>RegisterServices\<close> in both
  \<open>module.go\<close>), the codecs (both \<open>types/codec.go\<close>, \<open>demo/app/encoding.go\<close>,
  \<open>demo/app/params/proto.go\<close>). The SDK's routers and codecs are parameters with their laws as
  locales. The lemmas show which handler a path reaches in the demo chain, under which name a
  message is encoded, and that nothing is registered twice.
\<close>

section \<open>Services\<close>

text \<open>The interfaces \<open>MsgServer\<close> and \<open>QueryServer\<close> of the mesh-security module.\<close>

record ('s, 'x) msg_service =
  srv_SetVirtualStakingMaxCap :: "MsgSetVirtualStakingMaxCap \<Rightarrow> (('s, 'x) chain, unit) act"

record ('s, 'x) query_service =
  srv_VirtualStakingMaxCapLimit :: "('s, 'x) chain \<Rightarrow> string \<Rightarrow> max_cap_limit_response result"
  srv_VirtualStakingMaxCapLimits :: "('s, 'x) chain \<Rightarrow> max_cap_info list result"
  srv_Params :: "('s, 'x) chain \<Rightarrow> params result"

definition NewMsgServer :: "('s, 'x) sdk \<Rightarrow> ('s, 'x) msg_service" where
  "NewMsgServer k = \<lparr>srv_SetVirtualStakingMaxCap = SetVirtualStakingMaxCap k\<rparr>"

definition NewQuerier :: "('s, 'x) sdk \<Rightarrow> ('s, 'x) query_service" where
  "NewQuerier k = \<lparr>srv_VirtualStakingMaxCapLimit = VirtualStakingMaxCapLimit k,
     srv_VirtualStakingMaxCapLimits = VirtualStakingMaxCapLimits k, srv_Params = QueryParams k\<rparr>"

text \<open>
  Requests and responses as a router carries them, and the methods of the services with the
  paths they are called by. A method whose request does not decode is an error.
\<close>

datatype app_msg = SetCapMsg MsgSetVirtualStakingMaxCap | OtherMsg bytes

datatype query_req = LimitRequest string | LimitsRequest | ParamsRequest | OtherRequest bytes

datatype query_rsp =
  LimitResponse max_cap_limit_response | LimitsResponse "max_cap_info list" | ParamsResponse params
| OtherResponse bytes

type_synonym ('s, 'x) msg_method = "app_msg \<Rightarrow> (('s, 'x) chain, unit) act"
type_synonym ('s, 'x) query_method = "query_req \<Rightarrow> ('s, 'x) chain \<Rightarrow> query_rsp result"

definition SetCapPath :: string where
  "SetCapPath = ''/osmosis.meshsecurity.v1beta1.Msg/SetVirtualStakingMaxCap''"

definition LimitPath :: string where
  "LimitPath = ''/osmosis.meshsecurity.v1beta1.Query/VirtualStakingMaxCapLimit''"

definition LimitsPath :: string where
  "LimitsPath = ''/osmosis.meshsecurity.v1beta1.Query/VirtualStakingMaxCapLimits''"

definition ParamsPath :: string where
  "ParamsPath = ''/osmosis.meshsecurity.v1beta1.Query/Params''"

definition Msg_serviceDesc :: "('s, 'x) msg_service \<Rightarrow> (string \<times> ('s, 'x) msg_method) list" where
  "Msg_serviceDesc srv = [(SetCapPath, \<lambda>m. case m of
     SetCapMsg msg \<Rightarrow> srv_SetVirtualStakingMaxCap srv msg | _ \<Rightarrow> fail (ErrOther ''decode''))]"

definition Query_serviceDesc :: "('s, 'x) query_service \<Rightarrow> (string \<times> ('s, 'x) query_method) list" where
  "Query_serviceDesc srv =
     [(LimitPath, \<lambda>req ctx. case req of
        LimitRequest address \<Rightarrow>
          bindR (srv_VirtualStakingMaxCapLimit srv ctx address) (\<lambda>rsp. Ok (LimitResponse rsp))
      | _ \<Rightarrow> Err (ErrOther ''decode'')),
      (LimitsPath, \<lambda>req ctx. case req of
        LimitsRequest \<Rightarrow> bindR (srv_VirtualStakingMaxCapLimits srv ctx) (\<lambda>rsp. Ok (LimitsResponse rsp))
      | _ \<Rightarrow> Err (ErrOther ''decode'')),
      (ParamsPath, \<lambda>req ctx. case req of
        ParamsRequest \<Rightarrow> bindR (srv_Params srv ctx) (\<lambda>rsp. Ok (ParamsResponse rsp))
      | _ \<Rightarrow> Err (ErrOther ''decode''))]"

section \<open>Registration of services\<close>

text \<open>The SDK's routers: \<open>'m\<close> for messages, \<open>'q\<close> for queries.\<close>

record ('m, 'q, 's, 'x) router_sdk =
  RegisterMsgService :: "(string \<times> ('s, 'x) msg_method) list \<Rightarrow> 'm \<Rightarrow> 'm result"
  RegisterQueryService :: "(string \<times> ('s, 'x) query_method) list \<Rightarrow> 'q \<Rightarrow> 'q result"
  msgRoute :: "'m \<Rightarrow> string \<Rightarrow> ('s, 'x) msg_method option"
  queryRoute :: "'q \<Rightarrow> string \<Rightarrow> ('s, 'x) query_method option"

definition Module_RegisterServices :: "('m, 'q, 's, 'x) router_sdk \<Rightarrow> ('s, 'x) AppModule \<Rightarrow>
    'm \<times> 'q \<Rightarrow> ('m \<times> 'q) result" where
  "Module_RegisterServices R am = (\<lambda>(msgs, queries).
     bindR (RegisterMsgService R (Msg_serviceDesc (NewMsgServer (am_k am))) msgs) (\<lambda>msgs.
     bindR (RegisterQueryService R (Query_serviceDesc (NewQuerier (am_k am))) queries) (\<lambda>queries.
     Ok (msgs, queries))))"

text \<open>The provider's registrations are commented out.\<close>

definition Provider_RegisterServices :: "'m \<times> 'q \<Rightarrow> ('m \<times> 'q) result" where
  "Provider_RegisterServices cfg = Ok cfg"

text \<open>The module manager lets every module register its services; a Go map has no fixed order.\<close>

fun registerAll :: "(app_module \<Rightarrow> 'c \<Rightarrow> 'c result) \<Rightarrow> app_module list \<Rightarrow> 'c \<Rightarrow> 'c result" where
  "registerAll f [] c = Ok c"
| "registerAll f (m # ms) c = bindR (f m c) (registerAll f ms)"

definition moduleServices :: "('m, 'q, 's, 'x) router_sdk \<Rightarrow> ('s, 'x) AppModule \<Rightarrow>
    (app_module \<Rightarrow> 'm \<times> 'q \<Rightarrow> ('m \<times> 'q) result) \<Rightarrow> app_module \<Rightarrow> 'm \<times> 'q \<Rightarrow> ('m \<times> 'q) result" where
  "moduleServices R am others m = (if m = MMeshsec then Module_RegisterServices R am else others m)"

text \<open>The client calls a method by its path.\<close>

record 'ctx query_client =
  cli_VirtualStakingMaxCapLimit :: "'ctx \<Rightarrow> string \<Rightarrow> query_rsp result"
  cli_VirtualStakingMaxCapLimits :: "'ctx \<Rightarrow> query_rsp result"
  cli_Params :: "'ctx \<Rightarrow> query_rsp result"

definition NewQueryClient :: "('ctx \<Rightarrow> string \<Rightarrow> query_req \<Rightarrow> query_rsp result) \<Rightarrow> 'ctx query_client" where
  "NewQueryClient Invoke = \<lparr>
     cli_VirtualStakingMaxCapLimit = (\<lambda>ctx address. Invoke ctx LimitPath (LimitRequest address)),
     cli_VirtualStakingMaxCapLimits = (\<lambda>ctx. Invoke ctx LimitsPath LimitsRequest),
     cli_Params = (\<lambda>ctx. Invoke ctx ParamsPath ParamsRequest)\<rparr>"

lemma paths_distinct [simp]: "distinct [LimitPath, LimitsPath, ParamsPath]"
  by code_simp

lemma paths_neq [simp]: "LimitPath \<noteq> LimitsPath" "LimitPath \<noteq> ParamsPath" "LimitsPath \<noteq> ParamsPath"
  "LimitsPath \<noteq> LimitPath" "ParamsPath \<noteq> LimitPath" "ParamsPath \<noteq> LimitsPath"
  using paths_distinct by auto

text \<open>What a router promises: the methods of a registered service are routed, the rest as before.\<close>

locale service_routers =
  fixes R :: "('m, 'q, 's, 'x) router_sdk"
  assumes msgRoute_register: "RegisterMsgService R hs r = Ok r' \<Longrightarrow>
      msgRoute R r' p = (case map_of hs p of None \<Rightarrow> msgRoute R r p | Some h \<Rightarrow> Some h)"
    and queryRoute_register: "RegisterQueryService R qs q = Ok q' \<Longrightarrow>
      queryRoute R q' p = (case map_of qs p of None \<Rightarrow> queryRoute R q p | Some h \<Rightarrow> Some h)"
begin

definition routesMesh :: "('s, 'x) sdk \<Rightarrow> 'm \<times> 'q \<Rightarrow> bool" where
  "routesMesh k cfg \<longleftrightarrow>
     (\<forall>msg. \<exists>h. msgRoute R (fst cfg) SetCapPath = Some h \<and> h (SetCapMsg msg) = SetVirtualStakingMaxCap k msg) \<and>
     (\<exists>h. queryRoute R (snd cfg) LimitPath = Some h \<and>
       (\<forall>a ctx. h (LimitRequest a) ctx = bindR (VirtualStakingMaxCapLimit k ctx a) (\<lambda>r. Ok (LimitResponse r)))) \<and>
     (\<exists>h. queryRoute R (snd cfg) LimitsPath = Some h \<and>
       (\<forall>ctx. h LimitsRequest ctx = bindR (VirtualStakingMaxCapLimits k ctx) (\<lambda>r. Ok (LimitsResponse r)))) \<and>
     (\<exists>h. queryRoute R (snd cfg) ParamsPath = Some h \<and>
       (\<forall>ctx. h ParamsRequest ctx = bindR (QueryParams k ctx) (\<lambda>r. Ok (ParamsResponse r))))"

lemma Module_RegisterServices_routes:
  assumes "Module_RegisterServices R am cfg = Ok cfg'"
  shows "routesMesh (am_k am) cfg'"
  using assms
  by (auto simp: Module_RegisterServices_def ok_iffs routesMesh_def msgRoute_register queryRoute_register
      Msg_serviceDesc_def Query_serviceDesc_def NewMsgServer_def NewQuerier_def split: prod.splits)

lemma routesMesh_cong:
  assumes "msgRoute R (fst cfg') SetCapPath = msgRoute R (fst cfg) SetCapPath"
    and "\<And>p. p \<in> {LimitPath, LimitsPath, ParamsPath} \<Longrightarrow> queryRoute R (snd cfg') p = queryRoute R (snd cfg) p"
  shows "routesMesh k cfg' = routesMesh k cfg"
  using assms by (simp add: routesMesh_def)

text \<open>
  Whatever the order of the modules, the chain's routers lead to the module, when no other
  module takes its paths.
\<close>

lemma registerAll_routes:
  assumes "registerAll (moduleServices R am others) ms cfg = Ok cfg'"
    and "MMeshsec \<in> set ms \<or> routesMesh (am_k am) cfg"
    and others: "\<And>m c c'. m \<noteq> MMeshsec \<Longrightarrow> others m c = Ok c' \<Longrightarrow>
      msgRoute R (fst c') SetCapPath = msgRoute R (fst c) SetCapPath \<and>
      (\<forall>p \<in> {LimitPath, LimitsPath, ParamsPath}. queryRoute R (snd c') p = queryRoute R (snd c) p)"
  shows "routesMesh (am_k am) cfg'"
  using assms(1,2)
proof (induction ms arbitrary: cfg)
  case (Cons m ms)
  then obtain c where c: "moduleServices R am others m cfg = Ok c"
    and rest: "registerAll (moduleServices R am others) ms c = Ok cfg'"
    by (auto simp: ok_iffs)
  show ?case
  proof (cases "m = MMeshsec")
    case True
    then show ?thesis
      using Cons.IH [OF rest] Module_RegisterServices_routes [of am cfg c] c by (simp add: moduleServices_def)
  next
    case False
    then have "routesMesh (am_k am) c = routesMesh (am_k am) cfg"
      using others [of m cfg c] c by (intro routesMesh_cong) (auto simp: moduleServices_def)
    then show ?thesis
      using Cons.IH [OF rest] Cons.prems(2) False by auto
  qed
qed simp

end

section \<open>Codecs\<close>

text \<open>The message types the two modules register, and those of other packages.\<close>

datatype msg_type = TMsgSetVirtualStakingMaxCap | TMsgTest | TExternal string

text \<open>The legacy amino codec \<open>'a\<close> and the interface registry \<open>'r\<close> of the SDK.\<close>

record ('a, 'r) codec_sdk =
  NewLegacyAmino :: 'a
  RegisterConcrete :: "msg_type \<Rightarrow> string \<Rightarrow> 'a \<Rightarrow> 'a result"
  RegisterCrypto :: "'a \<Rightarrow> 'a result"
  sdk_RegisterLegacyAminoCodec :: "'a \<Rightarrow> 'a result"
  std_RegisterLegacyAminoCodec :: "'a \<Rightarrow> 'a result"
  SealAmino :: "'a \<Rightarrow> 'a"
  NewInterfaceRegistry :: 'r
  RegisterImplementations :: "string \<Rightarrow> msg_type list \<Rightarrow> 'r \<Rightarrow> 'r result"
  RegisterMsgServiceDesc :: "string \<Rightarrow> 'r \<Rightarrow> 'r result"
  std_RegisterInterfaces :: "'r \<Rightarrow> 'r result"

definition RegisterLegacyAminoCodec :: "('a, 'r) codec_sdk \<Rightarrow> 'a \<Rightarrow> 'a result" where
  "RegisterLegacyAminoCodec D cdc =
     RegisterConcrete D TMsgSetVirtualStakingMaxCap ''meshsecurity/MsgSetVirtualStakingMaxCap'' cdc"

definition RegisterInterfaces :: "('a, 'r) codec_sdk \<Rightarrow> 'r \<Rightarrow> 'r result" where
  "RegisterInterfaces D registry =
     bindR (RegisterImplementations D ''sdk.Msg'' [TMsgSetVirtualStakingMaxCap] registry) (\<lambda>registry.
     RegisterMsgServiceDesc D ''osmosis.meshsecurity.v1beta1.Msg'' registry)"

definition types_init :: "('a, 'r) codec_sdk \<Rightarrow> 'a result" where
  "types_init D =
     bindR (RegisterLegacyAminoCodec D (NewLegacyAmino D)) (\<lambda>amino.
     bindR (RegisterCrypto D amino) (\<lambda>amino.
     sdk_RegisterLegacyAminoCodec D amino))"

definition Provider_RegisterLegacyAminoCodec :: "('a, 'r) codec_sdk \<Rightarrow> 'a \<Rightarrow> 'a result" where
  "Provider_RegisterLegacyAminoCodec D cdc = RegisterConcrete D TMsgTest ''meshsecurityprovider/MsgTest'' cdc"

definition Provider_RegisterInterfaces :: "('a, 'r) codec_sdk \<Rightarrow> 'r \<Rightarrow> 'r result" where
  "Provider_RegisterInterfaces D registry =
     bindR (RegisterImplementations D ''sdk.Msg'' [TMsgTest] registry) (\<lambda>registry.
     RegisterMsgServiceDesc D ''osmosis.meshsecurityprovider.Msg'' registry)"

text \<open>The provider's \<open>init\<close>; the result is its own amino codec and that of authz.\<close>

definition Provider_types_init :: "('a, 'r) codec_sdk \<Rightarrow> 'a \<Rightarrow> ('a \<times> 'a) result" where
  "Provider_types_init D authzAmino =
     bindR (Provider_RegisterLegacyAminoCodec D (NewLegacyAmino D)) (\<lambda>amino.
     bindR (sdk_RegisterLegacyAminoCodec D amino) (\<lambda>amino.
     bindR (Provider_RegisterLegacyAminoCodec D authzAmino) (\<lambda>authzAmino.
     Ok (SealAmino D amino, authzAmino))))"

text \<open>
  What is signed for a message: its amino JSON by the module's codec, sorted. Both messages
  are signed so.
\<close>

definition GetSignBytes :: "(MsgSetVirtualStakingMaxCap \<Rightarrow> bytes result) \<Rightarrow> (bytes \<Rightarrow> bytes result) \<Rightarrow>
    MsgSetVirtualStakingMaxCap \<Rightarrow> bytes result" where
  "GetSignBytes ModuleCdc_MarshalJSON SortJSON msg =
     bindR (mustR (ModuleCdc_MarshalJSON msg)) (\<lambda>bz. mustR (SortJSON bz))"

definition MsgTest_GetSignBytes :: "(MsgTest \<Rightarrow> bytes result) \<Rightarrow> (bytes \<Rightarrow> bytes result) \<Rightarrow> MsgTest \<Rightarrow>
    bytes result" where
  "MsgTest_GetSignBytes ModuleCdc_MarshalJSON SortJSON msg =
     bindR (mustR (ModuleCdc_MarshalJSON msg)) (\<lambda>bz. mustR (SortJSON bz))"

text \<open>Different limits are signed differently, when the sorted encoding can be decoded.\<close>

lemma GetSignBytes_inj:
  assumes "\<And>m bz sorted. enc m = Ok bz \<Longrightarrow> srt bz = Ok sorted \<Longrightarrow> dec sorted = Some m"
    and "GetSignBytes enc srt m = Ok bz" and "GetSignBytes enc srt m' = Ok bz"
  shows "m = m'"
proof -
  have "dec bz = Some m" "dec bz = Some m'"
    using assms by (auto simp: GetSignBytes_def ok_iffs)
  then show ?thesis by simp
qed

text \<open>
  The demo chain's encodings; \<open>modAmino\<close> and \<open>modInterfaces\<close> are the other modules'. The
  codec and the transaction configuration point to the registry and read it as it is when they
  are used, so they are functions of it.
\<close>

record ('a, 'r, 'c, 't) EncodingConfig =
  enc_InterfaceRegistry :: 'r
  enc_Marshaler :: "'r \<Rightarrow> 'c"
  enc_TxConfig :: "'r \<Rightarrow> 't"
  enc_Amino :: 'a

definition params_MakeEncodingConfig :: "('a, 'r) codec_sdk \<Rightarrow> ('r \<Rightarrow> 'c) \<Rightarrow> ('c \<Rightarrow> 't) \<Rightarrow>
    ('a, 'r, 'c, 't) EncodingConfig" where
  "params_MakeEncodingConfig D NewProtoCodec NewTxConfig = (
     let amino = NewLegacyAmino D;
         interfaceRegistry = NewInterfaceRegistry D;
         marshaler = NewProtoCodec;
         txCfg = (\<lambda>registry. NewTxConfig (marshaler registry))
     in \<lparr>enc_InterfaceRegistry = interfaceRegistry, enc_Marshaler = marshaler, enc_TxConfig = txCfg,
         enc_Amino = amino\<rparr>)"

definition MakeEncodingConfig :: "('a, 'r) codec_sdk \<Rightarrow> ('r \<Rightarrow> 'c) \<Rightarrow> ('c \<Rightarrow> 't) \<Rightarrow>
    (app_module \<Rightarrow> 'a \<Rightarrow> 'a result) \<Rightarrow> (app_module \<Rightarrow> 'r \<Rightarrow> 'r result) \<Rightarrow>
    ('a, 'r, 'c, 't) EncodingConfig result" where
  "MakeEncodingConfig D NewProtoCodec NewTxConfig modAmino modInterfaces =
     (let encodingConfig = params_MakeEncodingConfig D NewProtoCodec NewTxConfig in
      bindR (std_RegisterLegacyAminoCodec D (enc_Amino encodingConfig)) (\<lambda>amino.
      bindR (std_RegisterInterfaces D (enc_InterfaceRegistry encodingConfig)) (\<lambda>registry.
      bindR (registerAll (\<lambda>m. if m = MMeshsec then RegisterLegacyAminoCodec D else modAmino m) ModuleBasics amino) (\<lambda>amino.
      bindR (registerAll (\<lambda>m. if m = MMeshsec then RegisterInterfaces D else modInterfaces m) ModuleBasics registry) (\<lambda>registry.
      Ok (encodingConfig\<lparr>enc_InterfaceRegistry := registry, enc_Amino := amino\<rparr>))))))"

text \<open>
  An amino codec gives types names; it panics when a type has one already, and when it is
  sealed. The SDK's own registrations keep the names there are.
\<close>

locale amino_codec =
  fixes D :: "('a, 'r) codec_sdk"
    and nameOf :: "'a \<Rightarrow> msg_type \<Rightarrow> string option"
    and isSealed :: "'a \<Rightarrow> bool"
  assumes RegisterConcrete_Ok: "RegisterConcrete D ty n c = Ok c' \<Longrightarrow>
      \<not> isSealed c \<and> nameOf c ty = None \<and> nameOf c' = (nameOf c)(ty \<mapsto> n) \<and> \<not> isSealed c'"
    and NewLegacyAmino: "nameOf (NewLegacyAmino D) ty = None" "\<not> isSealed (NewLegacyAmino D)"
    and Seal: "nameOf (SealAmino D c) = nameOf c" "isSealed (SealAmino D c)"
    and crypto_keeps: "RegisterCrypto D c = Ok c' \<Longrightarrow> nameOf c ty \<noteq> None \<Longrightarrow> nameOf c' ty = nameOf c ty"
    and sdk_keeps: "sdk_RegisterLegacyAminoCodec D c = Ok c' \<Longrightarrow> nameOf c ty \<noteq> None \<Longrightarrow> nameOf c' ty = nameOf c ty"
begin

lemma registered_name:
  "RegisterLegacyAminoCodec D c = Ok c' \<Longrightarrow>
     nameOf c' TMsgSetVirtualStakingMaxCap = Some ''meshsecurity/MsgSetVirtualStakingMaxCap''"
  "Provider_RegisterLegacyAminoCodec D c = Ok c' \<Longrightarrow> nameOf c' TMsgTest = Some ''meshsecurityprovider/MsgTest''"
  using RegisterConcrete_Ok by (auto simp: RegisterLegacyAminoCodec_def Provider_RegisterLegacyAminoCodec_def)

text \<open>A module that registers itself twice with one codec panics or fails.\<close>

lemma registered_twice:
  assumes "RegisterLegacyAminoCodec D c = Ok c'"
  shows "RegisterLegacyAminoCodec D c' \<noteq> Ok c''"
  using RegisterConcrete_Ok [of _ _ c'] registered_name(1) [OF assms]
  by (auto simp: RegisterLegacyAminoCodec_def)

lemma types_init_names:
  assumes "types_init D = Ok c"
  shows "nameOf c TMsgSetVirtualStakingMaxCap = Some ''meshsecurity/MsgSetVirtualStakingMaxCap''"
proof -
  obtain c1 c2 where c: "RegisterLegacyAminoCodec D (NewLegacyAmino D) = Ok c1" "RegisterCrypto D c1 = Ok c2"
    "sdk_RegisterLegacyAminoCodec D c2 = Ok c"
    using assms by (auto simp: types_init_def ok_iffs)
  show ?thesis
    using registered_name(1) [OF c(1)] crypto_keeps [OF c(2)] sdk_keeps [OF c(3)] by simp
qed

lemma Provider_types_init_names:
  assumes "Provider_types_init D authzAmino = Ok (c, authz)"
  shows "nameOf c TMsgTest = Some ''meshsecurityprovider/MsgTest''" "isSealed c"
    "nameOf authz TMsgTest = Some ''meshsecurityprovider/MsgTest''"
    "Provider_RegisterLegacyAminoCodec D c \<noteq> Ok c'"
proof -
  obtain c1 c2 where c: "Provider_RegisterLegacyAminoCodec D (NewLegacyAmino D) = Ok c1"
    "sdk_RegisterLegacyAminoCodec D c1 = Ok c2" "c = SealAmino D c2"
    and a: "Provider_RegisterLegacyAminoCodec D authzAmino = Ok authz"
    using assms by (auto simp: Provider_types_init_def ok_iffs)
  show name: "nameOf c TMsgTest = Some ''meshsecurityprovider/MsgTest''"
    using registered_name(2) [OF c(1)] sdk_keeps [OF c(2)] by (simp add: c(3) Seal)
  show "isSealed c"
    by (simp add: c(3) Seal)
  then show "Provider_RegisterLegacyAminoCodec D c \<noteq> Ok c'"
    using RegisterConcrete_Ok [of _ _ c] by (auto simp: Provider_RegisterLegacyAminoCodec_def)
  show "nameOf authz TMsgTest = Some ''meshsecurityprovider/MsgTest''"
    by (rule registered_name(2) [OF a])
qed

text \<open>The demo chain's codec knows the module's message, when the other modules keep names.\<close>

lemma registerAll_name:
  assumes "registerAll (\<lambda>m. if m = MMeshsec then RegisterLegacyAminoCodec D else modAmino m) ms c = Ok c'"
    and "MMeshsec \<in> set ms \<or>
      nameOf c TMsgSetVirtualStakingMaxCap = Some ''meshsecurity/MsgSetVirtualStakingMaxCap''"
    and others: "\<And>m c c' ty. modAmino m c = Ok c' \<Longrightarrow> nameOf c ty \<noteq> None \<Longrightarrow> nameOf c' ty = nameOf c ty"
  shows "nameOf c' TMsgSetVirtualStakingMaxCap = Some ''meshsecurity/MsgSetVirtualStakingMaxCap''"
  using assms(1,2)
proof (induction ms arbitrary: c)
  case (Cons m ms)
  then obtain c1 where c1: "(if m = MMeshsec then RegisterLegacyAminoCodec D else modAmino m) c = Ok c1"
    and rest: "registerAll (\<lambda>m. if m = MMeshsec then RegisterLegacyAminoCodec D else modAmino m) ms c1 = Ok c'"
    by (auto simp: ok_iffs)
  have "MMeshsec \<in> set ms \<or>
      nameOf c1 TMsgSetVirtualStakingMaxCap = Some ''meshsecurity/MsgSetVirtualStakingMaxCap''"
  proof (cases "m = MMeshsec")
    case True
    then show ?thesis using registered_name(1) [of c c1] c1 by simp
  next
    case False
    then show ?thesis
      using Cons.prems(2) others [of m c c1 TMsgSetVirtualStakingMaxCap] c1 by auto
  qed
  then show ?case by (rule Cons.IH [OF rest])
qed simp

lemma MakeEncodingConfig_name:
  assumes "MakeEncodingConfig D newCodec newTx modAmino modInterfaces = Ok enc"
    and "\<And>m c c' ty. modAmino m c = Ok c' \<Longrightarrow> nameOf c ty \<noteq> None \<Longrightarrow> nameOf c' ty = nameOf c ty"
  shows "nameOf (enc_Amino enc) TMsgSetVirtualStakingMaxCap = Some ''meshsecurity/MsgSetVirtualStakingMaxCap''"
proof -
  obtain c where "registerAll (\<lambda>m. if m = MMeshsec then RegisterLegacyAminoCodec D else modAmino m)
      ModuleBasics c = Ok (enc_Amino enc)"
    using assms(1) by (auto simp: MakeEncodingConfig_def ok_iffs Let_def)
  then show ?thesis
    by (rule registerAll_name) (use assms(2) in \<open>simp_all add: ModuleBasics_def\<close>)
qed

end

end
