(* ===== verification/Gateway.thy ===== *)
theory Gateway
  imports Services
begin

text \<open>
  The HTTP gateway to the queries of both modules (\<open>types/query.pb.gw.go\<close> of
  \<open>x/meshsecurity\<close> and \<open>x/meshsecurityprovider\<close>, \<open>RegisterGRPCGatewayRoutes\<close> in both
  \<open>module.go\<close>, \<open>RegisterAPIRoutes\<close> in \<open>demo/app/app.go\<close>): patterns of paths, the handler
  behind each, and their registration. The runtime of the gateway is a parameter with its laws
  as a locale; headers and call metadata are left out. The lemmas show which path reaches which
  query, and that a request gets the answer of the module's querier.
\<close>

section \<open>The gateway's runtime\<close>

text \<open>A compiled path pattern: pairs of an operation and its argument, and a pool of strings.\<close>

record route_pattern =
  pat_ops :: "int list"
  pat_pool :: "string list"
  pat_verb :: string
  assumeColonVerb :: bool

type_synonym path_params = "string \<rightharpoonup> string"

text \<open>
  \<open>'req\<close> is an HTTP request, \<open>'ctx\<close> a call context, \<open>'rsp\<close> the message a query answers,
  \<open>'http\<close> what is written back, and \<open>'mux\<close> the multiplexer that handlers are registered with.
\<close>

record ('req, 'ctx, 'rsp, 'http, 'mux) gateway_sdk =
  AnnotateContext :: "'req \<Rightarrow> 'ctx result"
  AnnotateIncomingContext :: "'req \<Rightarrow> 'ctx result"
  runtime_String :: "string \<Rightarrow> string result"
  HTTPError :: "'req \<Rightarrow> error \<Rightarrow> 'http"
  ForwardResponseMessage :: "'req \<Rightarrow> 'rsp \<Rightarrow> 'http"
  mux_Handle :: "string \<Rightarrow> route_pattern \<Rightarrow> ('req \<Rightarrow> path_params \<Rightarrow> 'http result) \<Rightarrow> 'mux \<Rightarrow> 'mux"

definition InvalidArgument :: error where "InvalidArgument = ErrOther ''InvalidArgument''"

section \<open>Requests of the mesh-security module\<close>

text \<open>
  A server is called like a client, with the context of the request instead of one of the
  connection; \<open>unwrap\<close> reads the chain's state from it.
\<close>

definition serverClient :: "('ctx \<Rightarrow> ('s, 'x) chain) \<Rightarrow> ('s, 'x) query_service \<Rightarrow> 'ctx query_client" where
  "serverClient unwrap srv = \<lparr>
     cli_VirtualStakingMaxCapLimit = (\<lambda>ctx a.
       bindR (srv_VirtualStakingMaxCapLimit srv (unwrap ctx) a) (\<lambda>rsp. Ok (LimitResponse rsp))),
     cli_VirtualStakingMaxCapLimits = (\<lambda>ctx.
       bindR (srv_VirtualStakingMaxCapLimits srv (unwrap ctx)) (\<lambda>rsp. Ok (LimitsResponse rsp))),
     cli_Params = (\<lambda>ctx. bindR (srv_Params srv (unwrap ctx)) (\<lambda>rsp. Ok (ParamsResponse rsp)))\<rparr>"

definition request_Query_VirtualStakingMaxCapLimit_0 :: "('req, 'ctx, query_rsp, 'http, 'mux) gateway_sdk \<Rightarrow>
    'ctx query_client \<Rightarrow> 'ctx \<Rightarrow> path_params \<Rightarrow> query_rsp result" where
  "request_Query_VirtualStakingMaxCapLimit_0 G client ctx pathParams =
     (case pathParams ''address'' of
        None \<Rightarrow> Err InvalidArgument
      | Some val \<Rightarrow>
          (case runtime_String G val of
             Err e \<Rightarrow> Err InvalidArgument
           | Panic \<Rightarrow> Panic
           | Ok address \<Rightarrow> cli_VirtualStakingMaxCapLimit client ctx address))"

definition local_request_Query_VirtualStakingMaxCapLimit_0 :: "('req, 'ctx, query_rsp, 'http, 'mux) gateway_sdk \<Rightarrow>
    'ctx query_client \<Rightarrow> 'ctx \<Rightarrow> path_params \<Rightarrow> query_rsp result" where
  "local_request_Query_VirtualStakingMaxCapLimit_0 G server ctx pathParams =
     (case pathParams ''address'' of
        None \<Rightarrow> Err InvalidArgument
      | Some val \<Rightarrow>
          (case runtime_String G val of
             Err e \<Rightarrow> Err InvalidArgument
           | Panic \<Rightarrow> Panic
           | Ok address \<Rightarrow> cli_VirtualStakingMaxCapLimit server ctx address))"

definition request_Query_VirtualStakingMaxCapLimits_0 ::
    "'ctx query_client \<Rightarrow> 'ctx \<Rightarrow> path_params \<Rightarrow> query_rsp result" where
  "request_Query_VirtualStakingMaxCapLimits_0 client ctx pathParams = cli_VirtualStakingMaxCapLimits client ctx"

definition local_request_Query_VirtualStakingMaxCapLimits_0 ::
    "'ctx query_client \<Rightarrow> 'ctx \<Rightarrow> path_params \<Rightarrow> query_rsp result" where
  "local_request_Query_VirtualStakingMaxCapLimits_0 server ctx pathParams =
     cli_VirtualStakingMaxCapLimits server ctx"

definition request_Query_Params_0 :: "'ctx query_client \<Rightarrow> 'ctx \<Rightarrow> path_params \<Rightarrow> query_rsp result" where
  "request_Query_Params_0 client ctx pathParams = cli_Params client ctx"

definition local_request_Query_Params_0 :: "'ctx query_client \<Rightarrow> 'ctx \<Rightarrow> path_params \<Rightarrow> query_rsp result" where
  "local_request_Query_Params_0 server ctx pathParams = cli_Params server ctx"

section \<open>Handlers and their registration\<close>

text \<open>The body that all registered handlers share, for a local server and for a client.\<close>

definition serveLocal :: "('req, 'ctx, 'rsp, 'http, 'mux) gateway_sdk \<Rightarrow>
    ('ctx \<Rightarrow> path_params \<Rightarrow> 'rsp result) \<Rightarrow> 'req \<Rightarrow> path_params \<Rightarrow> 'http result" where
  "serveLocal G local_request req pathParams =
     (case AnnotateIncomingContext G req of
        Err e \<Rightarrow> Ok (HTTPError G req e)
      | Panic \<Rightarrow> Panic
      | Ok rctx \<Rightarrow>
          (case local_request rctx pathParams of
             Err e \<Rightarrow> Ok (HTTPError G req e)
           | Panic \<Rightarrow> Panic
           | Ok resp \<Rightarrow> Ok (ForwardResponseMessage G req resp)))"

definition serveRemote :: "('req, 'ctx, 'rsp, 'http, 'mux) gateway_sdk \<Rightarrow>
    ('ctx \<Rightarrow> path_params \<Rightarrow> 'rsp result) \<Rightarrow> 'req \<Rightarrow> path_params \<Rightarrow> 'http result" where
  "serveRemote G request req pathParams =
     (case AnnotateContext G req of
        Err e \<Rightarrow> Ok (HTTPError G req e)
      | Panic \<Rightarrow> Panic
      | Ok rctx \<Rightarrow>
          (case request rctx pathParams of
             Err e \<Rightarrow> Ok (HTTPError G req e)
           | Panic \<Rightarrow> Panic
           | Ok resp \<Rightarrow> Ok (ForwardResponseMessage G req resp)))"

definition pattern_Query_VirtualStakingMaxCapLimit_0 :: route_pattern where
  "pattern_Query_VirtualStakingMaxCapLimit_0 = \<lparr>
     pat_ops = [2, 0, 2, 1, 2, 2, 2, 3, 1, 0, 4, 1, 5, 4],
     pat_pool = [''osmosis'', ''meshsecurity'', ''v1beta1'', ''max_cap_limit'', ''address''],
     pat_verb = [], assumeColonVerb = False\<rparr>"

definition pattern_Query_VirtualStakingMaxCapLimits_0 :: route_pattern where
  "pattern_Query_VirtualStakingMaxCapLimits_0 = \<lparr>
     pat_ops = [2, 0, 2, 1, 2, 2, 2, 3],
     pat_pool = [''osmosis'', ''meshsecurity'', ''v1beta1'', ''max_cap_limits''],
     pat_verb = [], assumeColonVerb = False\<rparr>"

definition pattern_Query_Params_0 :: route_pattern where
  "pattern_Query_Params_0 = \<lparr>
     pat_ops = [2, 0, 2, 1, 2, 2, 2, 3],
     pat_pool = [''osmosis'', ''meshsecurity'', ''v1beta1'', ''params''],
     pat_verb = [], assumeColonVerb = False\<rparr>"

definition RegisterQueryHandlerServer :: "('req, 'ctx, query_rsp, 'http, 'mux) gateway_sdk \<Rightarrow>
    'ctx query_client \<Rightarrow> 'mux \<Rightarrow> 'mux result" where
  "RegisterQueryHandlerServer G server mux = (
     let mux = mux_Handle G ''GET'' pattern_Query_VirtualStakingMaxCapLimit_0
           (serveLocal G (local_request_Query_VirtualStakingMaxCapLimit_0 G server)) mux;
         mux = mux_Handle G ''GET'' pattern_Query_VirtualStakingMaxCapLimits_0
           (serveLocal G (local_request_Query_VirtualStakingMaxCapLimits_0 server)) mux;
         mux = mux_Handle G ''GET'' pattern_Query_Params_0
           (serveLocal G (local_request_Query_Params_0 server)) mux
     in Ok mux)"

definition RegisterQueryHandlerClient :: "('req, 'ctx, query_rsp, 'http, 'mux) gateway_sdk \<Rightarrow>
    'ctx query_client \<Rightarrow> 'mux \<Rightarrow> 'mux result" where
  "RegisterQueryHandlerClient G client mux = (
     let mux = mux_Handle G ''GET'' pattern_Query_VirtualStakingMaxCapLimit_0
           (serveRemote G (request_Query_VirtualStakingMaxCapLimit_0 G client)) mux;
         mux = mux_Handle G ''GET'' pattern_Query_VirtualStakingMaxCapLimits_0
           (serveRemote G (request_Query_VirtualStakingMaxCapLimits_0 client)) mux;
         mux = mux_Handle G ''GET'' pattern_Query_Params_0
           (serveRemote G (request_Query_Params_0 client)) mux
     in Ok mux)"

text \<open>A connection is a function that calls a method by its path.\<close>

type_synonym 'ctx connection = "'ctx \<Rightarrow> string \<Rightarrow> query_req \<Rightarrow> query_rsp result"

definition RegisterQueryHandler :: "('req, 'ctx, query_rsp, 'http, 'mux) gateway_sdk \<Rightarrow> 'ctx connection \<Rightarrow>
    'mux \<Rightarrow> 'mux result" where
  "RegisterQueryHandler G conn mux = RegisterQueryHandlerClient G (NewQueryClient conn) mux"

text \<open>
  The connection to an endpoint is closed at once when the registration fails, and when the
  context is done otherwise; a panic leaves the named error nil, so it counts as no failure.
\<close>

datatype conn_fate = NotOpened | ClosedAtOnce | ClosedWhenDone

definition fateOf :: "'m result \<Rightarrow> conn_fate" where
  "fateOf r = (case r of Err e \<Rightarrow> ClosedAtOnce | _ \<Rightarrow> ClosedWhenDone)"

definition RegisterQueryHandlerFromEndpoint :: "('req, 'ctx, query_rsp, 'http, 'mux) gateway_sdk \<Rightarrow>
    (string \<Rightarrow> 'ctx connection result) \<Rightarrow> string \<Rightarrow> 'mux \<Rightarrow> 'mux result \<times> conn_fate" where
  "RegisterQueryHandlerFromEndpoint G Dial endpoint mux =
     (case Dial endpoint of
        Err e \<Rightarrow> (Err e, NotOpened)
      | Panic \<Rightarrow> (Panic, NotOpened)
      | Ok conn \<Rightarrow> (let r = RegisterQueryHandler G conn mux in (r, fateOf r)))"

section \<open>The provider module\<close>

definition Provider_request_Query_Params_0 ::
    "('ctx \<Rightarrow> provider_params result) \<Rightarrow> 'ctx \<Rightarrow> path_params \<Rightarrow> provider_params result" where
  "Provider_request_Query_Params_0 client_Params ctx pathParams = client_Params ctx"

definition Provider_local_request_Query_Params_0 ::
    "('ctx \<Rightarrow> provider_params result) \<Rightarrow> 'ctx \<Rightarrow> path_params \<Rightarrow> provider_params result" where
  "Provider_local_request_Query_Params_0 server_Params ctx pathParams = server_Params ctx"

definition Provider_pattern_Query_Params_0 :: route_pattern where
  "Provider_pattern_Query_Params_0 = \<lparr>
     pat_ops = [2, 0, 2, 1, 2, 2], pat_pool = [''osmosis'', ''meshsecurityprovider'', ''Params''],
     pat_verb = [], assumeColonVerb = False\<rparr>"

definition Provider_RegisterQueryHandlerServer :: "('req, 'ctx, provider_params, 'http, 'mux) gateway_sdk \<Rightarrow>
    ('ctx \<Rightarrow> provider_params result) \<Rightarrow> 'mux \<Rightarrow> 'mux result" where
  "Provider_RegisterQueryHandlerServer G server_Params mux =
     Ok (mux_Handle G ''GET'' Provider_pattern_Query_Params_0
       (serveLocal G (Provider_local_request_Query_Params_0 server_Params)) mux)"

definition Provider_RegisterQueryHandlerClient :: "('req, 'ctx, provider_params, 'http, 'mux) gateway_sdk \<Rightarrow>
    ('ctx \<Rightarrow> provider_params result) \<Rightarrow> 'mux \<Rightarrow> 'mux result" where
  "Provider_RegisterQueryHandlerClient G client_Params mux =
     Ok (mux_Handle G ''GET'' Provider_pattern_Query_Params_0
       (serveRemote G (Provider_request_Query_Params_0 client_Params)) mux)"

definition Provider_RegisterQueryHandler :: "('req, 'ctx, provider_params, 'http, 'mux) gateway_sdk \<Rightarrow>
    ('ctx \<Rightarrow> provider_params result) \<Rightarrow> 'mux \<Rightarrow> 'mux result" where
  "Provider_RegisterQueryHandler G client mux = Provider_RegisterQueryHandlerClient G client mux"

definition Provider_RegisterQueryHandlerFromEndpoint :: "('req, 'ctx, provider_params, 'http, 'mux) gateway_sdk \<Rightarrow>
    (string \<Rightarrow> ('ctx \<Rightarrow> provider_params result) result) \<Rightarrow> string \<Rightarrow> 'mux \<Rightarrow> 'mux result \<times> conn_fate" where
  "Provider_RegisterQueryHandlerFromEndpoint G Dial endpoint mux =
     (case Dial endpoint of
        Err e \<Rightarrow> (Err e, NotOpened)
      | Panic \<Rightarrow> (Panic, NotOpened)
      | Ok client \<Rightarrow> (let r = Provider_RegisterQueryHandler G client mux in (r, fateOf r)))"

section \<open>The modules' and the chain's routes\<close>

definition Module_RegisterGRPCGatewayRoutes :: "('req, 'ctx, query_rsp, 'http, 'mux) gateway_sdk \<Rightarrow>
    'ctx connection \<Rightarrow> 'mux \<Rightarrow> 'mux result" where
  "Module_RegisterGRPCGatewayRoutes G clientCtx serveMux =
     mustR (RegisterQueryHandlerClient G (NewQueryClient clientCtx) serveMux)"

definition Provider_RegisterGRPCGatewayRoutes :: "('req, 'ctx, provider_params, 'http, 'mux) gateway_sdk \<Rightarrow>
    ('ctx \<Rightarrow> provider_params result) \<Rightarrow> 'mux \<Rightarrow> 'mux result" where
  "Provider_RegisterGRPCGatewayRoutes G client_Params mux =
     mustR (Provider_RegisterQueryHandlerClient G client_Params mux)"

text \<open>
  The routes of the demo chain: the SDK's services, then every module's, then the swagger pages,
  whose failure is a panic. The basic manager visits the modules in some order.
\<close>

definition RegisterAPIRoutes :: "('req, 'ctx, query_rsp, 'http, 'mux) gateway_sdk \<Rightarrow> 'ctx connection \<Rightarrow>
    ('mux \<Rightarrow> 'mux result) list \<Rightarrow> (app_module \<Rightarrow> 'mux \<Rightarrow> 'mux result) \<Rightarrow> app_module list \<Rightarrow>
    ('mux \<Rightarrow> 'mux result) \<Rightarrow> 'mux \<Rightarrow> 'mux result" where
  "RegisterAPIRoutes G clientCtx sdkServices others order RegisterSwaggerAPI mux =
     bindR (foldl bindR (Ok mux) sdkServices) (\<lambda>mux.
     bindR (registerAll (\<lambda>m. if m = MMeshsec then Module_RegisterGRPCGatewayRoutes G clientCtx else others m)
       order mux) (\<lambda>mux.
     mustR (RegisterSwaggerAPI mux)))"

section \<open>What the runtime promises\<close>

text \<open>
  Patterns of literals, and of literals with one captured segment behind them: the operation 2
  compares with the pool, 1 takes a segment, 4 joins the taken ones, 5 binds them to a name.
\<close>

definition litOps :: "nat \<Rightarrow> int list" where
  "litOps n = concat (map (\<lambda>i. [2, int i]) [0..<n])"

definition literalPattern :: "string list \<Rightarrow> route_pattern" where
  "literalPattern ls = \<lparr>pat_ops = litOps (length ls), pat_pool = ls, pat_verb = [], assumeColonVerb = False\<rparr>"

definition capturePattern :: "string list \<Rightarrow> string \<Rightarrow> route_pattern" where
  "capturePattern ls name = \<lparr>pat_ops = litOps (length ls) @ [1, 0, 4, 1, 5, int (length ls)],
     pat_pool = ls @ [name], pat_verb = [], assumeColonVerb = False\<rparr>"

abbreviation limitPrefix :: "string list" where
  "limitPrefix \<equiv> [''osmosis'', ''meshsecurity'', ''v1beta1'', ''max_cap_limit'']"

abbreviation limitsPath :: "string list" where
  "limitsPath \<equiv> [''osmosis'', ''meshsecurity'', ''v1beta1'', ''max_cap_limits'']"

abbreviation paramsPath :: "string list" where
  "paramsPath \<equiv> [''osmosis'', ''meshsecurity'', ''v1beta1'', ''params'']"

abbreviation providerParamsPath :: "string list" where
  "providerParamsPath \<equiv> [''osmosis'', ''meshsecurityprovider'', ''Params'']"

lemma pattern_shapes:
  "pattern_Query_VirtualStakingMaxCapLimit_0 = capturePattern limitPrefix ''address''"
  "pattern_Query_VirtualStakingMaxCapLimits_0 = literalPattern limitsPath"
  "pattern_Query_Params_0 = literalPattern paramsPath"
  "Provider_pattern_Query_Params_0 = literalPattern providerParamsPath"
  by code_simp+

text \<open>
  The multiplexer: a handler leaves other methods and the paths that do not match its pattern
  alone, and answers a path that matches and that nobody answered before.
\<close>

locale gateway_runtime =
  fixes G :: "('req, 'ctx, 'rsp, 'http, 'mux) gateway_sdk"
    and MatchPattern :: "route_pattern \<Rightarrow> string list \<Rightarrow> path_params option"
    and serve :: "'mux \<Rightarrow> string \<Rightarrow> string list \<Rightarrow> ('req \<Rightarrow> 'http result) option"
  assumes match_literal: "MatchPattern (literalPattern ls) path = (if path = ls then Some Map.empty else None)"
    and match_capture: "MatchPattern (capturePattern ls name) path =
      (if length path = Suc (length ls) \<and> butlast path = ls then Some [name \<mapsto> last path] else None)"
    and serve_other: "m' \<noteq> m \<or> MatchPattern pat path = None \<Longrightarrow>
      serve (mux_Handle G m pat h mux) m' path = serve mux m' path"
    and serve_new: "MatchPattern pat path = Some ps \<Longrightarrow> serve mux m path = None \<Longrightarrow>
      serve (mux_Handle G m pat h mux) m path = Some (\<lambda>req. h req ps)"
    and String_id: "runtime_String G v = Ok v"

text \<open>The routes of the mesh-security module.\<close>

definition meshPaths :: "string list list \<Rightarrow> bool" where
  "meshPaths ps \<longleftrightarrow> (\<forall>p \<in> set ps. p = limitsPath \<or> p = paramsPath \<or> (\<exists>a. p = limitPrefix @ [a]))"

locale mesh_gateway = gateway_runtime G MatchPattern serve
  for G :: "('req, 'ctx, query_rsp, 'http, 'mux) gateway_sdk" and MatchPattern and
    serve :: "'mux \<Rightarrow> string \<Rightarrow> string list \<Rightarrow> ('req \<Rightarrow> 'http result) option"
begin

lemma match_mesh [simp]:
  "MatchPattern pattern_Query_VirtualStakingMaxCapLimit_0 (limitPrefix @ [a]) = Some [''address'' \<mapsto> a]"
  "MatchPattern pattern_Query_VirtualStakingMaxCapLimit_0 limitsPath = None"
  "MatchPattern pattern_Query_VirtualStakingMaxCapLimit_0 paramsPath = None"
  "MatchPattern pattern_Query_VirtualStakingMaxCapLimits_0 limitsPath = Some Map.empty"
  "MatchPattern pattern_Query_VirtualStakingMaxCapLimits_0 paramsPath = None"
  "MatchPattern pattern_Query_VirtualStakingMaxCapLimits_0 (limitPrefix @ [a]) = None"
  "MatchPattern pattern_Query_Params_0 paramsPath = Some Map.empty"
  "MatchPattern pattern_Query_Params_0 limitsPath = None"
  "MatchPattern pattern_Query_Params_0 (limitPrefix @ [a]) = None"
  unfolding pattern_shapes match_literal match_capture by simp_all

text \<open>Three handlers on the three patterns answer the three kinds of paths, and nothing else changes.\<close>

lemma three_handlers:
  fixes mux h1 h2 h3
  defines "mux' \<equiv> mux_Handle G ''GET'' pattern_Query_Params_0 h3
    (mux_Handle G ''GET'' pattern_Query_VirtualStakingMaxCapLimits_0 h2
      (mux_Handle G ''GET'' pattern_Query_VirtualStakingMaxCapLimit_0 h1 mux))"
  shows "serve mux ''GET'' (limitPrefix @ [a]) = None \<Longrightarrow>
      serve mux' ''GET'' (limitPrefix @ [a]) = Some (\<lambda>req. h1 req [''address'' \<mapsto> a])"
    and "serve mux ''GET'' limitsPath = None \<Longrightarrow> serve mux' ''GET'' limitsPath = Some (\<lambda>req. h2 req Map.empty)"
    and "serve mux ''GET'' paramsPath = None \<Longrightarrow> serve mux' ''GET'' paramsPath = Some (\<lambda>req. h3 req Map.empty)"
    and "m \<noteq> ''GET'' \<or> \<not> meshPaths [path] \<Longrightarrow> serve mux' m path = serve mux m path"
proof -
  have single: "length path = Suc (length limitPrefix) \<and> butlast path = limitPrefix \<longleftrightarrow>
      (\<exists>a. path = limitPrefix @ [a])" for path
    by (cases path rule: rev_cases) auto
  show "m \<noteq> ''GET'' \<or> \<not> meshPaths [path] \<Longrightarrow> serve mux' m path = serve mux m path"
    unfolding mux'_def meshPaths_def pattern_shapes
    by (rule trans [OF serve_other trans [OF serve_other serve_other]])
      (auto simp only: match_literal match_capture single list.set split: if_splits)
qed (simp_all only: mux'_def serve_new serve_other match_mesh simp_thms)

text \<open>A client and a server that answer alike are served alike.\<close>

lemma local_remote:
  assumes "AnnotateIncomingContext G = AnnotateContext G" and "client = server"
  shows "RegisterQueryHandlerServer G server mux = RegisterQueryHandlerClient G client mux"
proof -
  have "serveLocal G = serveRemote G"
    using assms(1) by (simp add: fun_eq_iff serveLocal_def serveRemote_def)
  moreover have "local_request_Query_VirtualStakingMaxCapLimit_0 G server = request_Query_VirtualStakingMaxCapLimit_0 G server"
    "local_request_Query_VirtualStakingMaxCapLimits_0 server = request_Query_VirtualStakingMaxCapLimits_0 server"
    "local_request_Query_Params_0 server = request_Query_Params_0 server"
    by (simp_all add: fun_eq_iff local_request_Query_VirtualStakingMaxCapLimit_0_def
        request_Query_VirtualStakingMaxCapLimit_0_def local_request_Query_VirtualStakingMaxCapLimits_0_def
        request_Query_VirtualStakingMaxCapLimits_0_def local_request_Query_Params_0_def
        request_Query_Params_0_def)
  ultimately show ?thesis
    using assms(2) by (simp add: RegisterQueryHandlerServer_def RegisterQueryHandlerClient_def)
qed

text \<open>The module's routes, over a client.\<close>

lemma Module_routes:
  assumes "Module_RegisterGRPCGatewayRoutes G conn mux = Ok mux'"
  shows "serve mux ''GET'' (limitPrefix @ [a]) = None \<Longrightarrow> serve mux' ''GET'' (limitPrefix @ [a]) =
      Some (\<lambda>req. serveRemote G (\<lambda>ctx _. conn ctx LimitPath (LimitRequest a)) req Map.empty)"
    and "serve mux ''GET'' limitsPath = None \<Longrightarrow> serve mux' ''GET'' limitsPath =
      Some (\<lambda>req. serveRemote G (\<lambda>ctx _. conn ctx LimitsPath LimitsRequest) req Map.empty)"
    and "serve mux ''GET'' paramsPath = None \<Longrightarrow> serve mux' ''GET'' paramsPath =
      Some (\<lambda>req. serveRemote G (\<lambda>ctx _. conn ctx ParamsPath ParamsRequest) req Map.empty)"
    and "m \<noteq> ''GET'' \<or> \<not> meshPaths [path] \<Longrightarrow> serve mux' m path = serve mux m path"
proof -
  have mux': "mux' = mux_Handle G ''GET'' pattern_Query_Params_0
        (serveRemote G (request_Query_Params_0 (NewQueryClient conn)))
    (mux_Handle G ''GET'' pattern_Query_VirtualStakingMaxCapLimits_0
        (serveRemote G (request_Query_VirtualStakingMaxCapLimits_0 (NewQueryClient conn)))
      (mux_Handle G ''GET'' pattern_Query_VirtualStakingMaxCapLimit_0
        (serveRemote G (request_Query_VirtualStakingMaxCapLimit_0 G (NewQueryClient conn))) mux))"
    using assms by (simp add: Module_RegisterGRPCGatewayRoutes_def RegisterQueryHandlerClient_def Let_def)
  have limit: "request_Query_VirtualStakingMaxCapLimit_0 G (NewQueryClient conn) ctx [''address'' \<mapsto> a] =
      conn ctx LimitPath (LimitRequest a)" for ctx
    by (simp add: request_Query_VirtualStakingMaxCapLimit_0_def NewQueryClient_def String_id)
  have limits: "request_Query_VirtualStakingMaxCapLimits_0 (NewQueryClient conn) ctx ps = conn ctx LimitsPath LimitsRequest"
    and params: "request_Query_Params_0 (NewQueryClient conn) ctx ps = conn ctx ParamsPath ParamsRequest" for ctx ps
    by (simp_all add: request_Query_VirtualStakingMaxCapLimits_0_def request_Query_Params_0_def NewQueryClient_def)
  show "serve mux ''GET'' (limitPrefix @ [a]) = None \<Longrightarrow> serve mux' ''GET'' (limitPrefix @ [a]) =
      Some (\<lambda>req. serveRemote G (\<lambda>ctx _. conn ctx LimitPath (LimitRequest a)) req Map.empty)"
    unfolding mux' by (subst three_handlers(1)) (simp_all only: serveRemote_def limit)
  show "serve mux ''GET'' limitsPath = None \<Longrightarrow> serve mux' ''GET'' limitsPath =
      Some (\<lambda>req. serveRemote G (\<lambda>ctx _. conn ctx LimitsPath LimitsRequest) req Map.empty)"
    unfolding mux' by (subst three_handlers(2)) (simp_all only: serveRemote_def limits)
  show "serve mux ''GET'' paramsPath = None \<Longrightarrow> serve mux' ''GET'' paramsPath =
      Some (\<lambda>req. serveRemote G (\<lambda>ctx _. conn ctx ParamsPath ParamsRequest) req Map.empty)"
    unfolding mux' by (subst three_handlers(3)) (simp_all only: serveRemote_def params)
  show "m \<noteq> ''GET'' \<or> \<not> meshPaths [path] \<Longrightarrow> serve mux' m path = serve mux m path"
    unfolding mux' by (rule three_handlers(4))
qed

end

section \<open>From a request to the querier\<close>

text \<open>
  The chain's gateway on the chain's own routers: a connection calls what the query router
  leads to, in the state its context stands for.
\<close>

definition routedConnection :: "('m, 'q, 's, 'x) router_sdk \<Rightarrow> 'q \<Rightarrow> ('ctx \<Rightarrow> ('s, 'x) chain) \<Rightarrow>
    'ctx connection" where
  "routedConnection R queries stateOf = (\<lambda>ctx path req. case queryRoute R queries path of
     None \<Rightarrow> Err (ErrOther ''Unimplemented'') | Some h \<Rightarrow> h req (stateOf ctx))"

text \<open>What the gateway writes for the result of a query.\<close>

definition answer :: "('req, 'ctx, query_rsp, 'http, 'mux) gateway_sdk \<Rightarrow> 'req \<Rightarrow> ('a \<Rightarrow> query_rsp) \<Rightarrow>
    'a result \<Rightarrow> 'http result" where
  "answer G req f r = (case r of
     Ok x \<Rightarrow> Ok (ForwardResponseMessage G req (f x)) | Err e \<Rightarrow> Ok (HTTPError G req e) | Panic \<Rightarrow> Panic)"

locale mesh_api = mesh_gateway G MatchPattern serve + routers: service_routers R
  for G :: "('req, 'ctx, query_rsp, 'http, 'mux) gateway_sdk" and MatchPattern
    and serve :: "'mux \<Rightarrow> string \<Rightarrow> string list \<Rightarrow> ('req \<Rightarrow> 'http result) option"
    and R :: "('m, 'q, 's, 'x) router_sdk"
begin

lemma routed_answers:
  assumes "Module_RegisterServices R am cfg = Ok (msgs, queries)"
    and "Module_RegisterGRPCGatewayRoutes G (routedConnection R queries stateOf) mux = Ok mux'"
    and "AnnotateContext G req = Ok ctx"
    and "\<And>p. serve mux ''GET'' p = None"
  shows "\<exists>h. serve mux' ''GET'' (limitPrefix @ [a]) = Some h \<and>
      h req = answer G req LimitResponse (VirtualStakingMaxCapLimit (am_k am) (stateOf ctx) a)"
    and "\<exists>h. serve mux' ''GET'' limitsPath = Some h \<and>
      h req = answer G req LimitsResponse (VirtualStakingMaxCapLimits (am_k am) (stateOf ctx))"
    and "\<exists>h. serve mux' ''GET'' paramsPath = Some h \<and>
      h req = answer G req ParamsResponse (QueryParams (am_k am) (stateOf ctx))"
    and "m \<noteq> ''GET'' \<or> \<not> meshPaths [path] \<Longrightarrow> serve mux' m path = serve mux m path"
proof -
  note r = routers.Module_RegisterServices_routes [OF assms(1), unfolded routers.routesMesh_def snd_conv]
  have conn: "bindR q (\<lambda>x. Ok (f x)) = (case q of Ok x \<Rightarrow> Ok (f x) | Err e \<Rightarrow> Err e | Panic \<Rightarrow> Panic)"
    for q :: "'z result" and f :: "'z \<Rightarrow> query_rsp"
    by (cases q) simp_all
  note defs = serveRemote_def routedConnection_def answer_def assms(3)
  show "\<exists>h. serve mux' ''GET'' (limitPrefix @ [a]) = Some h \<and>
      h req = answer G req LimitResponse (VirtualStakingMaxCapLimit (am_k am) (stateOf ctx) a)"
    using r Module_routes(1) [OF assms(2) assms(4)]
    by (cases "VirtualStakingMaxCapLimit (am_k am) (stateOf ctx) a") (auto simp: defs)
  show "\<exists>h. serve mux' ''GET'' limitsPath = Some h \<and>
      h req = answer G req LimitsResponse (VirtualStakingMaxCapLimits (am_k am) (stateOf ctx))"
    using r Module_routes(2) [OF assms(2) assms(4)]
    by (cases "VirtualStakingMaxCapLimits (am_k am) (stateOf ctx)") (auto simp: defs)
  show "\<exists>h. serve mux' ''GET'' paramsPath = Some h \<and>
      h req = answer G req ParamsResponse (QueryParams (am_k am) (stateOf ctx))"
    using r Module_routes(3) [OF assms(2) assms(4)]
    by (cases "QueryParams (am_k am) (stateOf ctx)") (auto simp: defs)
  show "m \<noteq> ''GET'' \<or> \<not> meshPaths [path] \<Longrightarrow> serve mux' m path = serve mux m path"
    by (rule Module_routes(4) [OF assms(2)])
qed

text \<open>A gateway that calls the querier directly registers the very same handlers.\<close>

lemma routed_client:
  assumes "Module_RegisterServices R am cfg = Ok (msgs, queries)"
  shows "NewQueryClient (routedConnection R queries stateOf) = serverClient stateOf (NewQuerier (am_k am))"
  using routers.Module_RegisterServices_routes [OF assms, unfolded routers.routesMesh_def snd_conv]
  by (auto simp: NewQueryClient_def serverClient_def NewQuerier_def routedConnection_def fun_eq_iff)

lemma routed_server:
  assumes "Module_RegisterServices R am cfg = Ok (msgs, queries)"
    and "Module_RegisterGRPCGatewayRoutes G (routedConnection R queries stateOf) mux = Ok mux'"
    and "AnnotateIncomingContext G = AnnotateContext G"
  shows "RegisterQueryHandlerServer G (serverClient stateOf (NewQuerier (am_k am))) mux = Ok mux'"
  using assms(2) local_remote [OF assms(3) routed_client [OF assms(1), of stateOf]]
  by (simp add: Module_RegisterGRPCGatewayRoutes_def RegisterQueryHandlerClient_def Let_def)

end

end
