(* ===== verification/ExamplesApi.thy ===== *)
theory ExamplesApi
  imports ExamplesNode Gateway
begin

text \<open>
  Instances of the routers, codecs and the gateway's runtime: tables with the newest entry
  first, and an interpreter of path patterns. A request here is a unit, its context the chain's
  state, and what is written back the response or the error.
\<close>

section \<open>Routers and codecs\<close>

type_synonym ref_msgs = "(string \<times> (ref_store, ref_ext) msg_method) list"
type_synonym ref_queries = "(string \<times> (ref_store, ref_ext) query_method) list"

definition addRoutes :: "(string \<times> 'h) list \<Rightarrow> (string \<times> 'h) list \<Rightarrow> (string \<times> 'h) list result" where
  "addRoutes hs r = (if set (map fst hs) \<inter> set (map fst r) = {} \<and> distinct (map fst hs)
     then Ok (hs @ r) else Panic)"

definition ref_routers :: "(ref_msgs, ref_queries, ref_store, ref_ext) router_sdk" where
  "ref_routers = \<lparr>RegisterMsgService = addRoutes, RegisterQueryService = addRoutes,
     msgRoute = map_of, queryRoute = map_of\<rparr>"

interpretation ref_routes: service_routers ref_routers
  by unfold_locales
    (auto simp: ref_routers_def addRoutes_def map_add_def split: if_splits option.split)

type_synonym ref_amino = "(msg_type \<times> string) list \<times> bool"

definition ref_codec :: "(ref_amino, string list) codec_sdk" where
  "ref_codec = \<lparr>NewLegacyAmino = ([], False),
     RegisterConcrete = (\<lambda>ty n (names, isSealed).
       if isSealed \<or> ty \<in> set (map fst names) \<or> n \<in> set (map snd names) then Panic
       else Ok ((ty, n) # names, False)),
     RegisterCrypto = (\<lambda>(names, isSealed). if isSealed then Panic else
       Ok (names @ [(TExternal ''PubKeyEd25519'', ''tendermint/PubKeyEd25519'')], isSealed)),
     sdk_RegisterLegacyAminoCodec = Ok, std_RegisterLegacyAminoCodec = Ok,
     SealAmino = (\<lambda>(names, _). (names, True)),
     NewInterfaceRegistry = [],
     RegisterImplementations = (\<lambda>iface tys r. Ok (iface # r)),
     RegisterMsgServiceDesc = (\<lambda>desc r. Ok (desc # r)), std_RegisterInterfaces = Ok\<rparr>"

interpretation ref_amino: amino_codec ref_codec "\<lambda>c. map_of (fst c)" snd
proof (unfold_locales, goal_cases)
  case (1 ty n c c')
  then show ?case
    by (auto simp: ref_codec_def map_of_eq_None_iff split: prod.splits if_splits)
qed (auto simp: ref_codec_def map_add_Some_iff split: prod.splits if_splits)

lemma ref_init:
  "types_init ref_codec = Ok ([(TMsgSetVirtualStakingMaxCap, ''meshsecurity/MsgSetVirtualStakingMaxCap''),
     (TExternal ''PubKeyEd25519'', ''tendermint/PubKeyEd25519'')], False)"
  "Provider_types_init ref_codec ([], False) =
     Ok (([(TMsgTest, ''meshsecurityprovider/MsgTest'')], True), ([(TMsgTest, ''meshsecurityprovider/MsgTest'')], False))"
  by code_simp+

section \<open>The gateway\<close>

fun runOps :: "string list \<Rightarrow> int list \<Rightarrow> string list \<Rightarrow> string list \<Rightarrow> path_params \<Rightarrow> path_params option" where
  "runOps pool [] path stack b = (if path = [] then Some b else None)"
| "runOps pool [code] path stack b = None"
| "runOps pool (code # arg # ops) path stack b =
     (if code = 1 then (case path of [] \<Rightarrow> None | x # xs \<Rightarrow> runOps pool ops xs (x # stack) b)
      else if code = 2 then (case path of [] \<Rightarrow> None | x # xs \<Rightarrow>
        if x = pool ! nat arg then runOps pool ops xs (x # stack) b else None)
      else if code = 4 \<and> arg = 1 then runOps pool ops path stack b
      else if code = 5 then (case stack of [] \<Rightarrow> None | x # xs \<Rightarrow>
        runOps pool ops path xs (b(pool ! nat arg \<mapsto> x)))
      else None)"

definition runPattern :: "route_pattern \<Rightarrow> string list \<Rightarrow> path_params option" where
  "runPattern p path = runOps (pat_pool p) (pat_ops p) path [] Map.empty"

lemma runOps_literals:
  assumes "take (length ls) (drop k pool) = ls" and "k + length ls \<le> length pool"
  shows "runOps pool (concat (map (\<lambda>i. [2, int i]) [k..<k + length ls]) @ ops) path stack b =
    (if take (length ls) path = ls then runOps pool ops (drop (length ls) path) (rev ls @ stack) b else None)"
  using assms
proof (induction ls arbitrary: k path stack)
  case (Cons l ls)
  have pool: "pool ! k = l" "take (length ls) (drop (Suc k) pool) = ls" "Suc k + length ls \<le> length pool"
    using Cons.prems by (auto simp: Cons_nth_drop_Suc [symmetric])
  have "[k..<k + length (l # ls)] = k # [Suc k..<Suc k + length ls]"
    using upt_conv_Cons [of k "k + length (l # ls)"] by simp
  then show ?case
    using Cons.IH [OF pool(2,3)] pool(1) by (cases path) auto
qed simp

lemma runPattern_literal: "runPattern (literalPattern ls) path = (if path = ls then Some Map.empty else None)"
  using runOps_literals [of ls 0 ls "[]" path "[]" Map.empty]
  by (auto simp: runPattern_def literalPattern_def litOps_def)

lemma runPattern_capture:
  "runPattern (capturePattern ls name) path =
    (if length path = Suc (length ls) \<and> butlast path = ls then Some [name \<mapsto> last path] else None)"
proof -
  have run: "runPattern (capturePattern ls name) path = (if take (length ls) path = ls
      then runOps (ls @ [name]) [1, 0, 4, 1, 5, int (length ls)] (drop (length ls) path) (rev ls) Map.empty
      else None)"
    using runOps_literals [of ls 0 "ls @ [name]" "[1, 0, 4, 1, 5, int (length ls)]" path "[]" Map.empty]
    by (simp add: runPattern_def capturePattern_def litOps_def)
  have rest: "runOps (ls @ [name]) [1, 0, 4, 1, 5, int (length ls)] rest (rev ls) Map.empty =
      (if length rest = 1 then Some [name \<mapsto> hd rest] else None)" for rest
    by (cases rest) simp_all
  show ?thesis
  proof (cases "take (length ls) path = ls")
    case True
    then obtain rest where path: "path = ls @ rest"
      by (metis append_take_drop_id)
    show ?thesis
      using run [unfolded rest]
      by (cases rest rule: rev_cases) (auto simp: path butlast_append)
  next
    case False
    then have "\<not> (length path = Suc (length ls) \<and> butlast path = ls)"
      by (auto simp: butlast_conv_take)
    then show ?thesis
      using run False by simp
  qed
qed

type_synonym ref_http = "query_rsp + error"
type_synonym ref_mux = "(string \<times> route_pattern \<times> (unit \<Rightarrow> path_params \<Rightarrow> ref_http result)) list"

text \<open>The context of every request is the state the gateway was made for.\<close>

definition ref_gateway :: "(ref_store, ref_ext) chain \<Rightarrow>
    (unit, (ref_store, ref_ext) chain, query_rsp, ref_http, ref_mux) gateway_sdk" where
  "ref_gateway s = \<lparr>AnnotateContext = (\<lambda>req. Ok s), AnnotateIncomingContext = (\<lambda>req. Ok s),
     runtime_String = Ok, HTTPError = (\<lambda>req e. Inr e), ForwardResponseMessage = (\<lambda>req r. Inl r),
     mux_Handle = (\<lambda>m pat h mux. mux @ [(m, pat, h)])\<rparr>"

fun ref_serve :: "ref_mux \<Rightarrow> string \<Rightarrow> string list \<Rightarrow> (unit \<Rightarrow> ref_http result) option" where
  "ref_serve [] m path = None"
| "ref_serve ((m', pat, h) # mux) m path = (case if m' = m then runPattern pat path else None of
     Some ps \<Rightarrow> Some (\<lambda>req. h req ps) | None \<Rightarrow> ref_serve mux m path)"

lemma ref_serve_append:
  "ref_serve (mux @ [(m', pat, h)]) m path = (case ref_serve mux m path of
     Some f \<Rightarrow> Some f
   | None \<Rightarrow> if m' = m then map_option (\<lambda>ps req. h req ps) (runPattern pat path) else None)"
proof (induction mux)
  case (Cons e mux)
  then show ?case
    by (cases e) (auto split: option.splits)
qed (auto split: option.split)

interpretation ref_api: mesh_api "ref_gateway s" runPattern ref_serve ref_routers
proof (unfold_locales, goal_cases)
  case (1 ls path)
  show ?case by (rule runPattern_literal)
next
  case (2 ls name path)
  show ?case by (rule runPattern_capture)
qed (auto simp: ref_gateway_def ref_serve_append split: option.split)

text \<open>The reference chain's routes.\<close>

definition ref_module :: "(ref_store, ref_ext) AppModule" where
  "ref_module = NewAppModule \<lparr>MarshalJSON = \<lambda>_. Ok [], UnmarshalJSON = \<lambda>_. Ok (NewGenesisState ref_params0)\<rparr> ref_sdk"

lemma ref_services: "\<exists>cfg. Module_RegisterServices ref_routers ref_module ([], []) = Ok cfg"
  by (simp add: Module_RegisterServices_def ref_routers_def addRoutes_def Msg_serviceDesc_def Query_serviceDesc_def)

lemma ref_gateway_routes: "\<exists>mux. Module_RegisterGRPCGatewayRoutes (ref_gateway s) conn [] = Ok mux"
  by (simp add: Module_RegisterGRPCGatewayRoutes_def RegisterQueryHandlerClient_def Let_def)

end
