(* ===== verification/Calls.thy ===== *)
theory Calls
  imports Announce Refinement
begin

text \<open>
  What the chain owes its contracts over several steps. \<open>served\<close> says what a run of tasks did
  for each contract in turn; \<open>block_calls\<close> names both runs of a block end. The lemmas show
  that a recorded change is told at the end of its block to every contract that had a positive
  limit when it was recorded, whatever happens in between, and that a contract which keeps a
  positive limit is called within every epoch.
\<close>

section \<open>Serving contracts\<close>

text \<open>
  A run of a callback over contracts, by its results: a call that comes through is committed, one
  that fails leaves no trace, and in between the scheduler books the runs.
\<close>

inductive served :: "('s, 'x) sdk \<Rightarrow> (address \<Rightarrow> (('s, 'x) chain, unit) act) \<Rightarrow> exec_result list \<Rightarrow>
    ('s, 'x) chain \<Rightarrow> ('s, 'x) chain \<Rightarrow> bool" for E f where
  none: "served E f [] s s"
| committed: "f (Contract res) s = (Ok (), u) \<Longrightarrow> ExecErr res = None \<Longrightarrow>
    tasksOnly E (commitCache s u) s' \<Longrightarrow> served E f rs s' t \<Longrightarrow> served E f (res # rs) s t"
| dropped: "ExecErr res = Some e \<Longrightarrow> e = ErrPanic \<or> fst (f (Contract res) s) = Err e \<Longrightarrow>
    tasksOnly E s s' \<Longrightarrow> served E f rs s' t \<Longrightarrow> served E f (res # rs) s t"

lemma broadcast_served: "broadcast E ops rs s t \<Longrightarrow> served E (announcement E ops) rs s t"
  by (induction rule: broadcast.induct) (auto intro: served.intros)

context task_runner
begin

lemma execTask_served:
  assumes "tp \<noteq> SchedulerTaskUndefined" and "GetMaxSudoGas E s = Ok g"
    and "execTask E tp ep cb c h r s = (Ok res, s')" and "served E cb rs s' t"
  shows "served E cb (res # rs) s t"
proof -
  have res: "Contract res = c" "ExecErr res = meteredErr E g (cb c) s"
    and s': "tasksOnly E (branchState E g (cb c) s) s'"
    by (rule execTask_eq [OF assms(1,2), where ep = ep and cb = cb and c = c and h = h and r = r],
        use assms(3) in simp)+
  show ?thesis
  proof (cases "ExecErr res")
    case None
    then obtain u where "cb c s = (Ok (), u)" and "branchState E g (cb c) s = commitCache s u"
      using metered_Ok [of g "cb c" s] res(2) by (auto simp: branchState_def)
    then show ?thesis
      using None s' res(1) assms(4) by (auto intro: served.committed)
  next
    case (Some e)
    obtain q used where q: "gas_Metered E g (cb c) s = (q, used)"
      by (cases "gas_Metered E g (cb c) s")
    have "e = ErrPanic \<or> fst (cb c s) = Err e"
      using metered [OF q] Some res(2) q by (auto simp: meteredErr_def safeExec_def split: result.splits)
    moreover have "tasksOnly E s s'"
      using s' Some res(2) by (simp add: branchState_def)
    ultimately show ?thesis
      using Some res(1) assms(4) by (auto intro: served.dropped)
  qed
qed

lemma runTasks_served:
  assumes "goodExecutor E cb" and "tp \<noteq> SchedulerTaskUndefined"
    and "GetMaxSudoGas E s = Ok g" and "wfTasks E s"
  shows "\<exists>rs t. runTasks ts (execCallback E tp ep cb) (acc, s) = (Ok (), (acc @ rs, t)) \<and> served E cb rs s t"
  using assms(3,4)
proof (induction ts arbitrary: s acc)
  case Nil
  then show ?case by (auto simp: act_simps intro: served.none)
next
  case (Cons x ts)
  obtain h c r where x: "x = (h, c, r)" by (cases x) auto
  let ?b = "branchState E g (cb c) s"
  obtain res s1 where run: "execTask E tp ep cb c h r s = (Ok res, s1)"
    and s1: "tasksOnly E ?b s1" "wfTasks E ?b \<Longrightarrow> wfTasks E s1"
    by (rule execTask_eq [OF assms(2) Cons.prems(1), where ep = ep and cb = cb and c = c
          and h = h and r = r]) (rule that; assumption)
  note keeps = goodExecutor_branch [OF assms(1), of s g c]
  have "GetParams E s1 = GetParams E s"
    using tasksOnly_params [OF s1(1)] keepsTasks_params [OF keeps] by simp
  then have "GetMaxSudoGas E s1 = Ok g" "wfTasks E s1"
    using params_reads_cong(1) Cons.prems s1(2) keepsTasks_wfTasks [OF keeps] by metis+
  from Cons.IH [OF this, of "acc @ [res]"]
  obtain rs t where rest: "runTasks ts (execCallback E tp ep cb) (acc @ [res], s1) =
      (Ok (), ((acc @ [res]) @ rs, t))" and tail: "served E cb rs s1 t"
    by blast
  moreover have "execCallback E tp ep cb c h r (acc, s) = (Ok False, (acc @ [res], s1))"
    by (simp add: execCallback_def act_simps bindA_def run)
  ultimately have "runTasks (x # ts) (execCallback E tp ep cb) (acc, s) = (Ok (), (acc @ res # rs, t))"
    by (simp add: x bindA_def)
  then show ?case
    using execTask_served [OF assms(2) Cons.prems(1) run tail] by blast
qed

lemma ExecScheduledTasks_served:
  assumes "goodExecutor E cb" and "tp \<noteq> SchedulerTaskUndefined"
    and "GetMaxSudoGas E s = Ok g" and "wfTasks E s"
    and "ExecScheduledTasks E tp ep cb s = (Ok rs, t)"
  shows "served E cb rs s t"
proof -
  obtain rs' t' where "runTasks (dueTasks E s tp (height s)) (execCallback E tp ep cb) ([], s) =
      (Ok (), ([] @ rs', t'))" and "served E cb rs' s t'"
    using runTasks_served [OF assms(1-4), of "dueTasks E s tp (height s)" ep "[]"] by blast
  then show ?thesis
    using assms(2,5) by (simp add: ExecScheduledTasks_def withLocal_def act_simps IterateScheduledTasks_eq [OF assms(4)])
qed

end

section \<open>The calls of a block end\<close>

inductive block_calls :: "('s, 'x) sdk \<Rightarrow> ('s, 'x) chain \<Rightarrow> exec_result list \<Rightarrow> exec_result list \<Rightarrow>
    ('s, 'x) chain \<Rightarrow> bool" for E where
  "GetRebalanceEpochLength E s = Ok epoch \<Longrightarrow>
   ExecScheduledTasks E SchedulerTaskValsetUpdate epoch (valsetUpdateTask E) s = (Ok rs, s1) \<Longrightarrow>
   ClearPipedValsetOperations E s1 = (Ok (), s2) \<Longrightarrow>
   ExecScheduledTasks E SchedulerTaskHandleEpoch epoch (SendHandleEpoch E) s2 = (Ok rs', t) \<Longrightarrow>
   block_calls E s rs rs' t"

text \<open>A step within a block, a step that leaves a contract a positive limit, and an epoch call.\<close>

definition in_block :: "('s, 'x) sdk \<Rightarrow> ('s, 'x) chain \<Rightarrow> ('s, 'x) chain \<Rightarrow> bool" where
  "in_block E s t \<longleftrightarrow> mesh_step E s t \<and> height t = height s"

definition keeps_limit :: "('s, 'x) sdk \<Rightarrow> address \<Rightarrow> ('s, 'x) chain \<Rightarrow> ('s, 'x) chain \<Rightarrow> bool" where
  "keeps_limit E c s t \<longleftrightarrow> mesh_step E s t \<and> (\<exists>n. limitOf E t c = Some n \<and> 0 < n)"

definition epoch_call :: "('s, 'x) sdk \<Rightarrow> address \<Rightarrow> ('s, 'x) chain \<Rightarrow> ('s, 'x) chain \<Rightarrow> bool" where
  "epoch_call E c s t \<longleftrightarrow> (\<exists>u rs rs' s2 bt.
     EndBlocker E DefaultExecutionResponseHandler s = (Ok (), u) \<and> block_calls E s rs rs' u \<and>
     c \<in> set (map Contract rs') \<and> served E (SendHandleEpoch E) rs' s2 u \<and>
     t = u\<lparr>height := height u + 1, blockTime := bt\<rparr>)"

inductive_cases block_callsE: "block_calls E s rs rs' t"

context mesh_machine
begin

lemma dueTasks_cong:
  assumes "wfTasks E s" and "wfTasks E t" and "\<And>h c. taskAt E t tp h c = taskAt E s tp h c"
  shows "dueTasks E t tp m = dueTasks E s tp m"
proof (rule taskLess_unique)
  show "set (dueTasks E t tp m) = set (dueTasks E s tp m)"
    by (simp add: set_eq_iff dueTasks_iff [OF assms(1)] dueTasks_iff [OF assms(2)] assms(3))
qed (simp_all add: dueTasks_sorted assms(1,2))

text \<open>No task is due before the current block, so no contract has two due tasks of a type.\<close>

lemma due_distinct:
  assumes "meshInv E p L s"
  shows "distinct (map (fst \<circ> snd) (dueTasks E s tp (height s)))"
proof -
  have wf: "wfTasks E s" and ahead: "tasksAhead E s"
    using assms by (simp_all add: meshInv_def)
  have now: "fst x = height s" if x: "x \<in> set (dueTasks E s tp (height s))" for x
  proof -
    obtain h c r where hcr: "x = (h, c, r)" by (cases x)
    then have "taskAt E s tp h c = Some r" "h \<le> height s"
      using x by (simp_all add: dueTasks_iff [OF wf])
    then show ?thesis
      using tasksAheadD(2) [OF ahead] hcr by force
  qed
  have "sorted_wrt (\<lambda>x y. (fst \<circ> snd) x < (fst \<circ> snd) y) (dueTasks E s tp (height s))"
    by (rule sorted_wrt_mono_rel [OF _ dueTasks_sorted [OF wf]]) (use now in \<open>simp add: taskLess_def\<close>)
  then have "sorted_wrt (<) (map (fst \<circ> snd) (dueTasks E s tp (height s)))"
    by (simp add: sorted_wrt_map)
  then show ?thesis
    by (simp only: strict_sorted_iff)
qed

text \<open>
  A block end in a state of the invariant: every contract with a due update task is told the
  recorded changes, then every contract with a due epoch task is called.
\<close>

lemma block_end_calls:
  assumes inv: "meshInv E p L s" and "wasmRuns E" and "height s < 2 ^ 63"
    and ok: "EndBlocker E DefaultExecutionResponseHandler s = (Ok u, t)"
  obtains rs rs' s1 s2 where "block_calls E s rs rs' t"
    and "map Contract rs = map (fst \<circ> snd) (dueTasks E s SchedulerTaskValsetUpdate (height s))"
    and "served E (announcement E (pipedOps E s)) rs s s1"
    and "map Contract rs' = map (fst \<circ> snd) (dueTasks E s SchedulerTaskHandleEpoch (height s))"
    and "served E (SendHandleEpoch E) rs' s2 t"
proof -
  let ?V = SchedulerTaskValsetUpdate and ?H = SchedulerTaskHandleEpoch
  let ?epoch = "ucast (EpochLength p) :: u64" and ?g = "ucast (MaxGasEndBlocker p) :: u64"
  have tps: "?V \<noteq> SchedulerTaskUndefined" "?H \<noteq> SchedulerTaskUndefined" "?H \<noteq> ?V"
    by (simp_all add: task_defs)
  have i: "wfTasks E s" "GetParams E s = Ok p" "wfOps E s"
    using inv by (simp_all add: meshInv_def)
  have params: "GetMaxSudoGas E s = Ok ?g" "GetRebalanceEpochLength E s = Ok ?epoch"
    using i(2) by (simp_all add: GetMaxSudoGas_def GetRebalanceEpochLength_def)
  note le = height_plus_epoch(1) [OF assms(3), of "EpochLength p"]
  note good = wasmRuns_goodSudo [OF assms(2)]
  obtain rs s1 s2 rs' where run1: "ExecScheduledTasks E ?V ?epoch (valsetUpdateTask E) s = (Ok rs, s1)"
    and run2: "ClearPipedValsetOperations E s1 = (Ok (), s2)"
    and run3: "ExecScheduledTasks E ?H ?epoch (SendHandleEpoch E) s2 = (Ok rs', t)"
    using EndBlocker_OkD [OF ok] params(2) by (metis result.inject(1))
  obtain rs1 t1 where "ExecScheduledTasks E ?V ?epoch (valsetUpdateTask E) s = (Ok rs1, t1)"
    "map Contract rs1 = map (fst \<circ> snd) (dueTasks E s ?V (height s))"
    "height t1 = height s" "GetParams E t1 = GetParams E s" "wfTasks E t1"
    "\<And>h c. taskAt E t1 ?H h c = taskAt E s ?H h c"
    by (rule ExecScheduledTasks_eq [OF goodExecutor_valset [OF good] tps(1) params(1) i(1) le])
      (rule that, assumption, assumption, assumption, assumption, assumption, simp add: tps(3))
  then have s1: "map Contract rs = map (fst \<circ> snd) (dueTasks E s ?V (height s))"
    "height s1 = height s" "GetParams E s1 = GetParams E s" "wfTasks E s1"
    "\<And>h c. taskAt E s1 ?H h c = taskAt E s ?H h c"
    using run1 by simp_all
  have s2_eq: "s2 = s1\<lparr>mem := mem s2\<rparr>"
    by (rule ClearPipedValsetOperations_eq [of s1]) (use run2 in simp)
  have "store s2 = store s1" "height s2 = height s1"
    using arg_cong [OF s2_eq, of store] arg_cong [OF s2_eq, of height] by simp_all
  then have s2: "height s2 = height s" "GetMaxSudoGas E s2 = Ok ?g" "wfTasks E s2"
    "\<And>h c. taskAt E s2 ?H h c = taskAt E s ?H h c"
    using s1 params(1) GetParams_cong [of E s2 s1] params_reads_cong(1) [of E s2 s]
    by (simp_all add: wfTasks_def taskAt_def)
  obtain rs2 where "map Contract rs2 = map (fst \<circ> snd) (dueTasks E s2 ?H (height s2))"
    and "rs2 = rs'"
    by (rule ExecScheduledTasks_eq [OF goodExecutor_epoch [OF good] tps(2) s2(2,3)])
      (use le s2(1) run3 that in auto)
  then have "map Contract rs' = map (fst \<circ> snd) (dueTasks E s ?H (height s))"
    using dueTasks_cong [OF i(1) s2(3,4)] s2(1) by simp
  moreover have "served E (announcement E (pipedOps E s)) rs s s1"
    by (rule broadcast_served [OF valset_tasks_broadcast [OF assms(2) params(1) i(3,1) run1]])
  moreover have "served E (SendHandleEpoch E) rs' s2 t"
    by (rule ExecScheduledTasks_served [OF goodExecutor_epoch [OF good] tps(2) s2(2,3) run3])
  ultimately show thesis
    using that block_calls.intros [OF params(2) run1 run2 run3] s1(1) by blast
qed

text \<open>Every step but the block end stays at its height.\<close>

lemma mesh_step_height:
  assumes inv: "meshInv E p L s" and "TotalContractsMaxCap p = Coin d (Some L)" and "mesh_step E s t"
  obtains "height t = height s"
  | u t' bt where "EndBlocker E DefaultExecutionResponseHandler s = (Ok u, t')" and "height s < 2 ^ 63"
      and "t = t'\<lparr>height := height t' + 1, blockTime := bt\<rparr>"
  using assms(3)
proof cases
  case contract
  then have "height t = height s"
    using contract_step_frame by (simp add: onlyTotals_def)
  then show thesis by (rule that(1))
next
  case (set_cap req u)
  have i: "wfAmounts E s" "wfTasks E s" "GetTotalContractsMaxCap E s = Ok (Coin d (Some L))"
    "GetRebalanceEpochLength E s = Ok (ucast (EpochLength p))"
    using inv assms(2) by (simp_all add: meshInv_def GetTotalContractsMaxCap_def GetRebalanceEpochLength_def)
  have "Coin_Validate E (msg_MaxCap req) = Ok ()"
    using set_cap by (auto simp: SetVirtualStakingMaxCap_def ValidateBasic_def ok_iffs split: result.splits)
  then obtain n where n: "amount (msg_MaxCap req) = Some n"
    using Coin_Validate by blast
  have "height t = height s"
    by (rule SetVirtualStakingMaxCap_OkD [OF set_cap i n]) simp
  then show thesis by (rule that(1))
next
  case (valset op val si u)
  have wf: "wfAmounts E s"
    using inv by (simp add: meshInv_def)
  obtain t' where "sendAsync E op val si s = (Ok (), t')" "tasksOnly E (storedOp s op val si) t'"
    by (rule sendAsync_eq [OF valset(1) wf])
  then have "height t = height s"
    using valset(2) by (simp add: tasksOnly_def)
  then show thesis by (rule that(1))
next
  case (end_block u t' bt)
  then show thesis by (intro that(2)) auto
qed

section \<open>A change is told\<close>

lemma ledger_stays:
  assumes "(ledger_step epoch M)\<^sup>=\<^sup>= a b" and "now b = now a"
  shows "x \<in> changes a \<Longrightarrow> x \<in> changes b"
    and "agenda a SchedulerTaskValsetUpdate h c \<noteq> None \<Longrightarrow> agenda b SchedulerTaskValsetUpdate h c \<noteq> None"
    and "repeatsAt a c h \<Longrightarrow> caps b c = Some n \<Longrightarrow> 0 < n \<Longrightarrow> repeatsAt b c h"
proof -
  show "x \<in> changes b" if "x \<in> changes a"
    using assms that by (auto elim: ledger_step.cases)
  show "agenda b SchedulerTaskValsetUpdate h c \<noteq> None" if "agenda a SchedulerTaskValsetUpdate h c \<noteq> None"
    using assms that by (auto elim!: ledger_step.cases simp: rearranged_def announced_def task_defs)
  show "repeatsAt b c h" if r: "repeatsAt a c h" and n: "caps b c = Some n" "0 < n"
  proof (cases "ledger_step epoch M a b")
    case True
    then show ?thesis
    proof cases
      case (limit m c')
      then show ?thesis
        using r n by (auto simp: repeatsAt_limit split: if_splits)
    qed (use r assms(2) in \<open>auto simp: repeatsAt_def announced_def task_defs\<close>)
  qed (use assms(1) r in auto)
qed

text \<open>The changes recorded in a block and the updates that are due stay until its end.\<close>

lemma in_block_change:
  assumes "(in_block E)\<^sup>*\<^sup>* s t" and "meshInv E p L s" and "TotalContractsMaxCap p = Coin d (Some L)"
    and "wasmRuns E" and "x \<in> set (pipedOps E s)" and "taskAt E s SchedulerTaskValsetUpdate (height s) c \<noteq> None"
  shows "meshInv E p L t \<and> height t = height s \<and> x \<in> set (pipedOps E t) \<and>
    taskAt E t SchedulerTaskValsetUpdate (height s) c \<noteq> None"
  using assms(1)
proof (induction rule: rtranclp_induct)
  case base
  then show ?case using assms by simp
next
  case (step t u)
  then have inv: "meshInv E p L t" and h: "height u = height t" and run: "mesh_step E t u"
    by (simp_all add: in_block_def)
  note stays = ledger_stays [OF mesh_step_refines [OF inv assms(3,4) run], unfolded ledgerOf_sel, OF h]
  show ?case
    using mesh_step_inv [OF inv assms(3,4) run] stays(1,2) step.IH h by simp
qed

lemma change_told:
  assumes inv: "meshInv E p L s" "TotalContractsMaxCap p = Coin d (Some L)" "wasmRuns E"
    and "goodOp op val si" and "sendAsync E op val si s = (Ok (), t)"
    and "(in_block E)\<^sup>*\<^sup>* t u" and "height u < 2 ^ 63"
  obtains rs rs' u1 v where "EndBlocker E DefaultExecutionResponseHandler u = (Ok (), v)"
    and "block_calls E u rs rs' v" and "distinct (map Contract rs)"
    and "served E (announcement E (pipedOps E u)) rs u u1" and "reportedOp op val si \<in> set (pipedOps E u)"
    and "\<And>c n. limitOf E s c = Some n \<Longrightarrow> 0 < n \<Longrightarrow> c \<in> set (map Contract rs)"
proof -
  let ?V = SchedulerTaskValsetUpdate
  have i: "wfAmounts E s" "wfOps E s"
    using inv(1) by (simp_all add: meshInv_def)
  note inv_t = meshInv_valset [OF inv(1) assms(4,5)]
  have "sendAsync E op val si s = (Ok (), t) \<and> tasksOnly E (storedOp s op val si) t \<and>
      (\<forall>c n. limitOf E s c = Some n \<longrightarrow> 0 < n \<longrightarrow> taskAt E t ?V (height s) c \<noteq> None)"
    by (rule sendAsync_eq [OF assms(4) i(1)]) (use assms(5) in auto)
  then have at: "\<And>c n. limitOf E s c = Some n \<Longrightarrow> 0 < n \<Longrightarrow> taskAt E t ?V (height t) c \<noteq> None"
    and only: "tasksOnly E (storedOp s op val si) t"
    by (auto simp: tasksOnly_def)
  have x: "reportedOp op val si \<in> set (pipedOps E t)"
    using pipedOps_cong [OF tasksOnly_mem [OF only]] pipedOps_storedOp [OF i(2) assms(4)] by simp
  have u: "meshInv E p L u \<and> reportedOp op val si \<in> set (pipedOps E u)"
  proof -
    show ?thesis
      using assms(6)
    proof (induction rule: rtranclp_induct)
      case (step u v)
      then have iu: "meshInv E p L u" and h: "height v = height u" and run: "mesh_step E u v"
        by (simp_all add: in_block_def)
      show ?case
        using mesh_step_inv [OF iu inv(2,3) run] step.IH
          ledger_stays(1) [OF mesh_step_refines [OF iu inv(2,3) run], unfolded ledgerOf_sel, OF h] by blast
    qed (use inv_t x in simp)
  qed
  have due: "taskAt E u ?V (height u) c \<noteq> None" if "limitOf E s c = Some n" "0 < n" for c n
    using in_block_change [OF assms(6) inv_t inv(2,3) x at [OF that]] by metis
  note wf = u [THEN conjunct1]
  obtain rs0 s1 v where v: "EndBlocker E DefaultExecutionResponseHandler u = (Ok (), v)"
    by (rule block_end_broadcast [OF wf inv(3) assms(7)])
  obtain rs rs' u1 s2 where calls: "block_calls E u rs rs' v"
    and rs: "map Contract rs = map (fst \<circ> snd) (dueTasks E u ?V (height u))"
    and told: "served E (announcement E (pipedOps E u)) rs u u1"
    by (rule block_end_calls [OF wf inv(3) assms(7) v])
  have "c \<in> set (map Contract rs)" if lim: "limitOf E s c = Some n" "0 < n" for c n
  proof -
    obtain r where "taskAt E u ?V (height u) c = Some r"
      using due [OF lim] by blast
    then have "(height u, c, r) \<in> set (dueTasks E u ?V (height u))"
      using wf by (simp add: dueTasks_iff meshInv_def)
    then show ?thesis
      unfolding rs by force
  qed
  moreover have "distinct (map Contract rs)"
    unfolding rs by (rule due_distinct [OF wf])
  ultimately show thesis
    using that v calls told u by blast
qed

section \<open>Epoch calls\<close>

text \<open>The repeating task of a contract that keeps a positive limit stays until its call.\<close>

lemma repeat_until_call:
  assumes inv: "meshInv E p L s" "TotalContractsMaxCap p = Coin d (Some L)" "wasmRuns E"
    and "keeps_limit E c s t" and "taskAt E s SchedulerTaskHandleEpoch h c = Some True"
  shows "taskAt E t SchedulerTaskHandleEpoch h c = Some True \<or> epoch_call E c s t \<and> height s = h"
proof -
  let ?H = SchedulerTaskHandleEpoch
  obtain n where step: "mesh_step E s t" and n: "limitOf E t c = Some n" "0 < n"
    using assms(4) by (auto simp: keeps_limit_def)
  from inv(1,2) step show ?thesis
  proof (rule mesh_step_height)
    assume h: "height t = height s"
    show ?thesis
      using ledger_stays(3) [OF mesh_step_refines [OF inv step], unfolded ledgerOf_sel repeatsAt_def, OF h assms(5) n]
      by simp
  next
    fix u t' bt
    have "tasksAhead E s"
      using inv(1) by (simp add: meshInv_def)
    from tasksAheadD(2) [OF this assms(5)] have ahead: "height s \<le> h" .
    assume e: "EndBlocker E DefaultExecutionResponseHandler s = (Ok u, t')" and h: "height s < 2 ^ 63"
      and t: "t = t'\<lparr>height := height t' + 1, blockTime := bt\<rparr>"
    have wf: "wfTasks E s"
      using inv(1) by (simp add: meshInv_def)
    show ?thesis
    proof (cases "h \<le> height s")
      case True
      obtain rs rs' s1 s2 where calls: "block_calls E s rs rs' t'"
        and rs': "map Contract rs' = map (fst \<circ> snd) (dueTasks E s ?H (height s))"
        and served: "served E (SendHandleEpoch E) rs' s2 t'"
        by (rule block_end_calls [OF inv(1,3) h e])
      have "(h, c, True) \<in> set (dueTasks E s ?H (height s))"
        using assms(5) True by (simp add: dueTasks_iff [OF wf])
      then have "c \<in> set (map Contract rs')"
        unfolding rs' by force
      then have "epoch_call E c s t"
        using e calls served t unfolding epoch_call_def by auto
      then show ?thesis
        using True ahead by simp
    next
      case False
      have "taskAt E t ?H h c = taskAt E t' ?H h c"
        by (simp add: t taskAt_def)
      also have "\<dots> = Some True"
        using EndBlocker_effect(5) [OF inv(1,3) e h] False assms(5) by (simp add: performed_def)
      finally show ?thesis by simp
    qed
  qed
qed

lemma keeps_limit_inv:
  assumes "(keeps_limit E c)\<^sup>*\<^sup>* s t" and "meshInv E p L s"
    and "TotalContractsMaxCap p = Coin d (Some L)" and "wasmRuns E"
  shows "meshInv E p L t"
  using assms(1,2)
  by (induction rule: rtranclp_induct) (use mesh_step_inv [OF _ assms(3,4)] in \<open>auto simp: keeps_limit_def\<close>)

text \<open>A run that gets past the task has called the contract.\<close>

lemma called_by:
  assumes "(keeps_limit E c)\<^sup>*\<^sup>* s t" and inv: "meshInv E p L s" "TotalContractsMaxCap p = Coin d (Some L)" "wasmRuns E"
    and "taskAt E s SchedulerTaskHandleEpoch h c = Some True" and "h < height t"
  obtains u v where "(keeps_limit E c)\<^sup>*\<^sup>* s u" and "epoch_call E c u v" and "height u = h"
    and "(keeps_limit E c)\<^sup>*\<^sup>* v t"
proof -
  have "taskAt E t SchedulerTaskHandleEpoch h c = Some True \<or>
    (\<exists>u v. (keeps_limit E c)\<^sup>*\<^sup>* s u \<and> epoch_call E c u v \<and> height u = h \<and> (keeps_limit E c)\<^sup>*\<^sup>* v t)"
    using assms(1)
  proof (induction rule: rtranclp_induct)
    case (step t w)
    then show ?case
      using repeat_until_call [OF keeps_limit_inv [OF step(1) inv] inv(2,3) step(2), of h]
      by (blast intro: rtranclp.rtrancl_into_rtrancl)
  qed (use assms(5) in simp)
  moreover have "taskAt E t SchedulerTaskHandleEpoch h c \<noteq> Some True"
  proof
    assume "taskAt E t SchedulerTaskHandleEpoch h c = Some True"
    then have "height t \<le> h"
      using keeps_limit_inv [OF assms(1) inv] tasksAheadD(2) [of E t] by (simp add: meshInv_def)
    with assms(6) show False by simp
  qed
  ultimately show thesis using that by blast
qed

text \<open>Blocks go on: the block end of a state of the invariant comes through.\<close>

lemma next_block:
  assumes inv: "meshInv E p L s" "TotalContractsMaxCap p = Coin d (Some L)" "wasmRuns E" and "height s < 2 ^ 63"
  obtains t where "mesh_step E s t" and "meshInv E p L t" and "\<And>c. limitOf E t c = limitOf E s c"
    and "unat (height t) = unat (height s) + 1"
proof -
  obtain u where u: "EndBlocker E DefaultExecutionResponseHandler s = (Ok (), u)"
    by (rule block_end_broadcast [OF inv(1,3) assms(4)])
  note effect = EndBlocker_effect [OF inv(1,3) u assms(4)]
  let ?t = "u\<lparr>height := height u + 1, blockTime := blockTime u\<rparr>"
  have step: "mesh_step E s ?t"
    by (rule mesh_step.end_block [OF u assms(4)])
  have "limitOf E ?t c = limitOf E s c" for c
    using fun_cong [OF effect(1), of c] by (simp add: amountAt_def)
  moreover have "unat (height ?t) = unat (height s) + 1"
    using unat_no_wrap [of "height s" 1] height_plus_epoch(2) [OF assms(4)] effect(4) by simp
  ultimately show thesis
    using that [OF step mesh_step_inv [OF inv step]] by blast
qed

lemma blocks_go_on:
  assumes inv: "meshInv E p L s" "TotalContractsMaxCap p = Coin d (Some L)" "wasmRuns E"
    and "limitOf E s c = Some n" and "0 < n" and "unat (height s) + k < 2 ^ 63"
  shows "\<exists>t. (keeps_limit E c)\<^sup>*\<^sup>* s t \<and> meshInv E p L t \<and> limitOf E t c = Some n \<and>
    unat (height t) = unat (height s) + k"
  using assms(6)
proof (induction k)
  case 0
  then show ?case using inv(1) assms(4) by auto
next
  case (Suc k)
  then obtain t where t: "(keeps_limit E c)\<^sup>*\<^sup>* s t" "meshInv E p L t" "limitOf E t c = Some n"
    "unat (height t) = unat (height s) + k"
    by auto
  then have "height t < 2 ^ 63"
    using Suc.prems by (simp add: word_less_nat_alt)
  note succ = next_block [OF t(2) inv(2,3) this]
  obtain u where u: "mesh_step E t u" "meshInv E p L u" "\<And>c. limitOf E u c = limitOf E t c"
    "unat (height u) = unat (height t) + 1"
    by (rule succ) (rule that; blast)
  then have "keeps_limit E c t u"
    using t(3) assms(5) by (simp add: keeps_limit_def)
  with t(1) have "(keeps_limit E c)\<^sup>*\<^sup>* s u" ..
  then show ?case
    using u t(3,4) by auto
qed

end

end
