(* ===== verification/EntryPoints.thy ===== *)
theory EntryPoints
  imports Refinement AppModules
begin

text \<open>
  Every way into the module. Contracts, governance, the staking hooks, the decorated staking and
  slashing keepers and the block hooks are the module's entry points; the lemmas show that each
  call that comes through is a run of the state machine of theory \<open>Machine\<close>. What holds of
  the machine's reachable states therefore holds however the chain calls the module.
\<close>

section \<open>Calls\<close>

text \<open>The hooks of \<open>staking_hooks.go\<close> and the methods of the decorators of \<open>adapter.go\<close>, as calls.\<close>

datatype hook_call =
    OnValidatorBonded address address | OnBeginUnbonding address address
  | OnValidatorSlashed address dec | OnUnbondingInitiated u64 | OnValidatorModified address
  | OnValidatorCreated address | OnValidatorRemoved address address
  | OnDelegationCreated address address | OnSharesModified address address
  | OnDelegationRemoved address address | OnDelegationModified address address

fun runHook :: "('s, 'x) sdk \<Rightarrow> hook_call \<Rightarrow> (('s, 'x) chain, unit) act" where
  "runHook E (OnValidatorBonded consAddr valAddr) = AfterValidatorBonded E consAddr valAddr"
| "runHook E (OnBeginUnbonding consAddr valAddr) = AfterValidatorBeginUnbonding E consAddr valAddr"
| "runHook E (OnValidatorSlashed valAddr fraction) = BeforeValidatorSlashed E valAddr fraction"
| "runHook E (OnUnbondingInitiated i) = AfterUnbondingInitiated E i"
| "runHook E (OnValidatorModified valAddr) = BeforeValidatorModified E valAddr"
| "runHook E (OnValidatorCreated valAddr) = AfterValidatorCreated E valAddr"
| "runHook E (OnValidatorRemoved consAddr valAddr) = AfterValidatorRemoved E consAddr valAddr"
| "runHook E (OnDelegationCreated delAddr valAddr) = BeforeDelegationCreated E delAddr valAddr"
| "runHook E (OnSharesModified delAddr valAddr) = BeforeDelegationSharesModified E delAddr valAddr"
| "runHook E (OnDelegationRemoved delAddr valAddr) = BeforeDelegationRemoved E delAddr valAddr"
| "runHook E (OnDelegationModified delAddr valAddr) = AfterDelegationModified E delAddr valAddr"

text \<open>The validator a hook is about, as far as the module records it.\<close>

fun hookValidator :: "hook_call \<Rightarrow> address option" where
  "hookValidator (OnValidatorBonded consAddr valAddr) = Some valAddr"
| "hookValidator (OnBeginUnbonding consAddr valAddr) = Some valAddr"
| "hookValidator (OnValidatorModified valAddr) = Some valAddr"
| "hookValidator _ = None"

datatype keeper_call =
    SlashCall address u64 u64 dec | SlashWithReasonCall address u64 u64 dec
  | JailCall address | UnjailCall address | TombstoneCall address

fun runKeeperCall :: "('s, 'x) sdk \<Rightarrow> keeper_call \<Rightarrow> (('s, 'x) chain, unit) act" where
  "runKeeperCall E (SlashCall consAddr pow h ratio) =
     bindA (dec_Slash (NewStakingDecorator E) consAddr pow h ratio) (\<lambda>_. ret ())"
| "runKeeperCall E (SlashWithReasonCall consAddr h pow ratio) =
     bindA (dec_SlashWithInfractionReason (NewStakingDecorator E) consAddr h pow ratio) (\<lambda>_. ret ())"
| "runKeeperCall E (JailCall consAddr) = dec_Jail (NewStakingDecorator E) consAddr"
| "runKeeperCall E (UnjailCall consAddr) = dec_Unjail (NewStakingDecorator E) consAddr"
| "runKeeperCall E (TombstoneCall consAddr) = CaptureTombstoneDecorator E consAddr"

text \<open>
  A call that comes through. Messages that fail are rolled back, and a panic in a block hook
  stops the chain. \<open>am\<close> is the module as the chain builds it, with the default handler of
  task results.
\<close>

inductive chain_call :: "genesis_state json_codec \<Rightarrow> ('s, 'x) sdk \<Rightarrow> ('s, 'x) chain \<Rightarrow> ('s, 'x) chain \<Rightarrow> bool"
  for cdc E where
  others: "chain_call cdc E s (s\<lparr>ext := x, events := es\<rparr>)"
| message: "DispatchMsg E (NewDefaultCustomMsgHandler E) contract port msg s = (Ok evs, t) \<Longrightarrow> chain_call cdc E s t"
| proposal: "SetVirtualStakingMaxCap E req s = (Ok u, t) \<Longrightarrow> chain_call cdc E s t"
| hook: "runHook E hk s = (Ok u, t) \<Longrightarrow> (\<And>val. hookValidator hk = Some val \<Longrightarrow> length val \<le> 32) \<Longrightarrow>
    chain_call cdc E s t"
| keeper: "runKeeperCall E kc s = (Ok u, t) \<Longrightarrow> chain_call cdc E s t"
| begin_block: "Module_BeginBlock (NewAppModule cdc E) s = (Ok u, t) \<Longrightarrow> chain_call cdc E s t"
| end_block: "Module_EndBlock (NewAppModule cdc E) s = (Ok us, t) \<Longrightarrow> height s < 2 ^ 63 \<Longrightarrow>
    chain_call cdc E s (t\<lparr>height := height t + 1, blockTime := bt\<rparr>)"

section \<open>The laws of validators\<close>

text \<open>
  Addresses have at most 32 bytes (the SDK's address formats), a number of at most 256 bits is
  written with one to 79 characters, and staking slashes by such a number.
\<close>

locale validators =
  fixes E :: "('s, 'x) sdk"
  assumes operator_short: "validator_GetOperator E v = Ok val \<Longrightarrow> length val \<le> 32"
    and digits: "int256 n \<Longrightarrow> Int_String E n \<noteq> [] \<and> length (Int_String E n) \<le> 79"
    and slashed: "staking_Slash E consAddr h pow ratio x = (Ok n, x') \<Longrightarrow> int256 n"
begin

lemma goodOp_slash:
  assumes "length val \<le> 32" and "int256 n"
  shows "goodOp ValidatorSlashed val (Some \<lparr>InfractionHeight = h, Power = pow,
    TotalSlashAmount = Int_String E n, SlashFraction = f\<rparr>)"
  using assms(1) digits [OF assms(2)] by (simp add: goodOp_def shortOp_def knownOps_def)

end

lemma goodOp_plain:
  assumes "length val \<le> 32" and "op \<in> {ValidatorBonded, ValidatorUnbonded, ValidatorJailed,
    ValidatorTombstoned, ValidatorUnjailed, ValidatorModified}"
  shows "goodOp op val None"
  using assms by (auto simp: goodOp_def shortOp_def knownOps_def valset_op_defs)

section \<open>Calls are runs of the machine\<close>

abbreviation mesh_run :: "('s, 'x) sdk \<Rightarrow> ('s, 'x) chain \<Rightarrow> ('s, 'x) chain \<Rightarrow> bool" where
  "mesh_run E \<equiv> (mesh_step E)\<^sup>*\<^sup>*"

lemma mesh_step_ext: "mesh_step E s (s\<lparr>ext := x\<rparr>)"
  using mesh_step.contract [OF contract_step.other_modules [of E s "events s" x]] by simp

lemma mesh_run_onExt: "onExt f s = (r, t) \<Longrightarrow> mesh_run E s t"
  using mesh_step_ext [of E s] by (auto simp: act_simps split: prod.splits)

lemma reachable_run: "mesh_run E s t \<Longrightarrow> mesh_reachable E p s \<Longrightarrow> mesh_reachable E p t"
  by (induction rule: rtranclp_induct) (auto intro: mesh_reachable.step)

context mesh_machine
begin

lemma propagate_run:
  assumes "wfAmounts E s" and "propagate E val schedule s = (Ok u, t)"
    and "\<And>v a. validator_GetOperator E v = Ok a \<Longrightarrow> schedule a = sendAsync E op a si \<and> goodOp op a si"
  shows "mesh_run E s t"
proof (cases val)
  case None
  with assms(2) show ?thesis by (simp add: propagate_def act_simps)
next
  case (Some v)
  with assms(2) obtain a where a: "validator_GetOperator E v = Ok a"
    by (auto simp: propagate_def act_simps bindA_def split: prod.splits result.splits)
  note sched = assms(3) [OF a]
  obtain t' where t': "sendAsync E op a si s = (Ok (), t')"
    by (rule sendAsync_eq [OF sched [THEN conjunct2] assms(1)])
  then have "t = t'"
    using assms(2) a sched by (simp add: propagate_def Some act_simps bindA_def attempt_def)
  then have "mesh_step E s t"
    using mesh_step.valset [OF sched [THEN conjunct2] t'] by simp
  then show ?thesis by simp
qed

lemma runHook_run:
  assumes "runHook E hk s = (Ok u, t)" and "\<And>val. hookValidator hk = Some val \<Longrightarrow> length val \<le> 32"
  shows "mesh_run E s t"
proof -
  have "mesh_run E s t" if "sendAsync E op val None s = (Ok u, t)" "length val \<le> 32"
    "op \<in> {ValidatorBonded, ValidatorUnbonded, ValidatorModified}" for op val
    using mesh_step.valset [OF goodOp_plain [OF that(2)] that(1)] that(3) by auto
  note sent = this
  show ?thesis
  proof (cases hk)
    case (OnValidatorBonded c v)
    then show ?thesis
      using assms sent [of ValidatorBonded v] by (simp add: AfterValidatorBonded_def ScheduleBonded_def)
  next
    case (OnBeginUnbonding c v)
    then show ?thesis
      using assms sent [of ValidatorUnbonded v] by (simp add: AfterValidatorBeginUnbonding_def ScheduleUnbonded_def)
  next
    case (OnValidatorModified v)
    then show ?thesis
      using assms sent [of ValidatorModified v] by (simp add: BeforeValidatorModified_def ScheduleModified_def)
  qed (use assms(1) in \<open>simp_all add: BeforeValidatorSlashed_def AfterUnbondingInitiated_def
      AfterValidatorCreated_def AfterValidatorRemoved_def BeforeDelegationCreated_def
      BeforeDelegationSharesModified_def BeforeDelegationRemoved_def AfterDelegationModified_def act_simps\<close>)
qed

end

locale mesh_validators = mesh_machine E valid_denom + validators E
  for E :: "('s, 'x) sdk" and valid_denom :: "string \<Rightarrow> bool"
begin

lemma propagate_plain:
  assumes "wfAmounts E s" and "propagate E val schedule s = (Ok u, t)"
    and "\<And>a. schedule a = sendAsync E op a None"
    and "op \<in> {ValidatorJailed, ValidatorTombstoned, ValidatorUnjailed}"
  shows "mesh_run E s t"
  by (rule propagate_run [OF assms(1,2), where op = op and si = None])
    (use assms(3,4) goodOp_plain [OF operator_short] in auto)

lemma decorated_run:
  assumes "bindA (propagate E val schedule) (\<lambda>_. onExt f) s = (Ok u, t)" and "wfAmounts E s"
    and "\<And>a. schedule a = sendAsync E op a None"
    and "op \<in> {ValidatorJailed, ValidatorTombstoned, ValidatorUnjailed}"
  shows "mesh_run E s t"
proof -
  obtain s1 where p: "propagate E val schedule s = (Ok (), s1)" and f: "onExt f s1 = (Ok u, t)"
    using assms(1) by (auto simp: bindA_def split: prod.splits result.splits)
  show ?thesis
    by (rule rtranclp_trans [OF propagate_plain [OF assms(2) p assms(3,4)] mesh_run_onExt [OF f]])
qed

lemma Slash_run:
  assumes "Slash E consAddr h pow ratio s = (Ok n, t)" and "wfAmounts E s"
  shows "mesh_run E s t"
proof -
  let ?val = "staking_ValidatorByConsAddr E (ext s) consAddr"
  obtain x' s1 where x': "staking_Slash E consAddr h pow ratio (ext s) = (Ok n, x')"
    and p: "propagate E ?val (\<lambda>operator. ScheduleSlashed E operator h pow n ratio) (s\<lparr>ext := x'\<rparr>) = (Ok (), s1)"
    and t: "t = s1"
    using assms(1) by (cases "staking_Slash E consAddr h pow ratio (ext s)")
      (auto simp: Slash_def act_simps Let_def bindA_def split: prod.splits result.splits)
  have "mesh_run E (s\<lparr>ext := x'\<rparr>) s1"
    by (rule propagate_run [OF _ p, where op = ValidatorSlashed and si = "Some \<lparr>InfractionHeight = pow, Power = h,
          TotalSlashAmount = Int_String E n, SlashFraction = Dec_String E ratio\<rparr>"])
      (use assms(2) goodOp_slash [OF operator_short slashed [OF x']] in \<open>simp_all add: ScheduleSlashed_def\<close>)
  then show ?thesis
    unfolding t using converse_rtranclp_into_rtranclp [of "mesh_step E" s "s\<lparr>ext := x'\<rparr>" s1]
      mesh_step_ext [of E s x'] by simp
qed

lemma runKeeperCall_run:
  assumes "runKeeperCall E kc s = (Ok u, t)" and "wfAmounts E s"
  shows "mesh_run E s t"
proof (cases kc)
  case (SlashCall a p h r)
  then obtain n where "Slash E a p h r s = (Ok n, t)"
    using assms(1) by (auto simp: NewStakingDecorator_def bindA_def act_simps split: prod.splits result.splits)
  then show ?thesis using Slash_run assms(2) by blast
next
  case (SlashWithReasonCall a h p r)
  then obtain n where "Slash E a h p r s = (Ok n, t)"
    using assms(1) by (auto simp: NewStakingDecorator_def SlashWithInfractionReason_def bindA_def act_simps
        split: prod.splits result.splits)
  then show ?thesis using Slash_run assms(2) by blast
next
  case (JailCall a)
  then show ?thesis
    using decorated_run [of _ "ScheduleJailed E" _ s u t ValidatorJailed] assms
    by (simp add: NewStakingDecorator_def Jail_def act_simps ScheduleJailed_def)
next
  case (UnjailCall a)
  then show ?thesis
    using decorated_run [of _ "ScheduleUnjailed E" _ s u t ValidatorUnjailed] assms
    by (simp add: NewStakingDecorator_def Unjail_def act_simps ScheduleUnjailed_def)
next
  case (TombstoneCall a)
  then show ?thesis
    using decorated_run [of _ "ScheduleTombstoned E" _ s u t ValidatorTombstoned] assms
    by (simp add: CaptureTombstoneDecorator_def Tombstone_def act_simps ScheduleTombstoned_def)
qed

lemma chain_call_run:
  assumes "chain_call cdc E s t" and "wfAmounts E s"
  shows "mesh_run E s t"
  using assms(1)
proof cases
  case (others x es)
  then show ?thesis
    by (simp only:) (intro r_into_rtranclp mesh_step.contract contract_step.other_modules)
next
  case (message contract port msg evs)
  then show ?thesis
    by (intro r_into_rtranclp mesh_step.contract contract_step.dispatch)
next
  case (proposal req u)
  then show ?thesis
    by (intro r_into_rtranclp mesh_step.set_cap)
next
  case (hook hk u)
  then show ?thesis by (rule runHook_run)
next
  case (keeper kc u)
  then show ?thesis by (rule runKeeperCall_run [OF _ assms(2)])
next
  case (begin_block u)
  then show ?thesis by (simp add: Module_BeginBlock_def act_simps)
next
  case (end_block us t' bt)
  then obtain u where "EndBlocker E DefaultExecutionResponseHandler s = (Ok u, t')"
    by (auto simp: Module_EndBlock_def NewAppModule_def NewAppModuleX_def bindA_def act_simps
        split: prod.splits result.splits)
  then show ?thesis
    unfolding end_block(1) by (intro r_into_rtranclp mesh_step.end_block end_block(3))
qed

end

end
