(* ===== verification/Interfaces.thy ===== *)
theory Interfaces
  imports Supply Valset
begin

text \<open>
  The interfaces of \<open>types/expected_keepers.go\<close> as records of their methods, where an interface
  that embeds another extends its record, and the structs that implement them: both adapters
  with their embedded keepers (\<open>keeper/adapter.go\<close>) and the keeper itself with its
  constructors (\<open>keeper/keeper.go\<close>). The other theories read a keeper as the environment it
  sees, \<open>('s, 'x) sdk\<close>; the lemmas show that the keeper built from interface values is the
  one they work with.
\<close>

section \<open>Interfaces\<close>

datatype bond_status = Unspecified | Unbonded | Unbonding | Bonded

record 'x SDKBankKeeper =
  Bank_GetBalance :: "'x \<Rightarrow> address \<Rightarrow> string \<Rightarrow> coin"
  Bank_MintCoins :: "string \<Rightarrow> coins \<Rightarrow> ('x, unit) act"
  Bank_BurnCoins :: "string \<Rightarrow> coins \<Rightarrow> ('x, unit) act"
  Bank_SendCoinsFromAccountToModule :: "address \<Rightarrow> string \<Rightarrow> coins \<Rightarrow> ('x, unit) act"
  Bank_SendCoinsFromModuleToAccount :: "string \<Rightarrow> address \<Rightarrow> coins \<Rightarrow> ('x, unit) act"
  Bank_UndelegateCoinsFromModuleToAccount :: "string \<Rightarrow> address \<Rightarrow> coins \<Rightarrow> ('x, unit) act"

record 'x XBankKeeper = "'x SDKBankKeeper" +
  XBank_AddSupplyOffset :: "string \<Rightarrow> int \<Rightarrow> ('x, unit) act"

text \<open>
  A method with a callback runs it on the state of the other modules; \<open>stakingtypes.Params\<close> is
  the type \<open>'p\<close>, a duration a 64-bit number.
\<close>

record ('x, 'p) SDKStakingKeeper =
  Staking_BondDenom :: "'x \<Rightarrow> string"
  Staking_GetAllValidators :: "'x \<Rightarrow> validator list"
  Staking_GetValidator :: "'x \<Rightarrow> address \<Rightarrow> validator option"
  Staking_ValidateUnbondAmount :: "'x \<Rightarrow> address \<Rightarrow> address \<Rightarrow> int \<Rightarrow> dec result"
  Staking_Delegate :: "address \<Rightarrow> int \<Rightarrow> bond_status \<Rightarrow> validator \<Rightarrow> bool \<Rightarrow> ('x, dec) act"
  Staking_GetDelegation :: "'x \<Rightarrow> address \<Rightarrow> address \<Rightarrow> dec option"
  Staking_UnbondingTime :: "'x \<Rightarrow> u64"
  Staking_GetParams :: "'x \<Rightarrow> 'p"
  Staking_Unbond :: "address \<Rightarrow> address \<Rightarrow> dec \<Rightarrow> ('x, int) act"
  Staking_IterateBondedValidatorsByPower :: "(u64 \<Rightarrow> validator \<Rightarrow> ('x, bool) act) \<Rightarrow> ('x, unit) act"
  Staking_TotalBondedTokens :: "'x \<Rightarrow> int"
  Staking_IterateDelegations :: "address \<Rightarrow> (u64 \<Rightarrow> address \<times> dec \<Rightarrow> ('x, bool) act) \<Rightarrow> ('x, unit) act"
  Staking_GetValidatorByConsAddr :: "'x \<Rightarrow> address \<Rightarrow> validator option"

record ('x, 'p) XStakingKeeper = "('x, 'p) SDKStakingKeeper" +
  XStaking_InstantUndelegate :: "address \<Rightarrow> address \<Rightarrow> dec \<Rightarrow> ('x, coins) act"

record 'x CommunityPoolKeeper =
  Pool_WithdrawDelegationRewards :: "address \<Rightarrow> address \<Rightarrow> ('x, coins) act"

record ('x, 'acc) AccountKeeper =
  Account_GetModuleAddress :: "string \<Rightarrow> address"
  Account_GetModuleAccount :: "string \<Rightarrow> ('x, 'acc) act"

record ('s, 'x) WasmKeeper =
  Wasm_Sudo :: "address \<Rightarrow> bytes \<Rightarrow> (('s, 'x) chain, bytes) act"
  Wasm_HasContractInfo :: "'x \<Rightarrow> address \<Rightarrow> bool"

section \<open>Adapters\<close>

text \<open>
  An adapter has the methods of the keeper it embeds and its own. The staking adapter calls the
  embedded staking keeper and the vanilla bank keeper; coins are made by the SDK.
\<close>

record 'x bank_adapter =
  adapted_bank :: "'x SDKBankKeeper"

definition BankKeeperAdapter :: "'x bank_adapter \<Rightarrow> 'x XBankKeeper" where
  "BankKeeperAdapter b =
     SDKBankKeeper.extend (adapted_bank b) (XBankKeeper.fields BankKeeperAdapter_AddSupplyOffset)"

record ('x, 'p) staking_adapter =
  adapted_staking :: "('x, 'p) SDKStakingKeeper"
  adapter_bank :: "'x SDKBankKeeper"

definition Adapter_InstantUndelegate :: "('s, 'x) sdk \<Rightarrow> ('x, 'p) staking_adapter \<Rightarrow>
    address \<Rightarrow> address \<Rightarrow> dec \<Rightarrow> ('x, coins) act" where
  "Adapter_InstantUndelegate E a delAddr valAddr sharesAmount = withState (\<lambda>ctx.
     case Staking_GetValidator (adapted_staking a) ctx valAddr of
       None \<Rightarrow> fail ErrNoDelegatorForAddress
     | Some validator \<Rightarrow>
         bindA (Staking_Unbond (adapted_staking a) delAddr valAddr sharesAmount) (\<lambda>returnAmount.
         withState (\<lambda>ctx.
         bindA (liftR (Coin_New E (Staking_BondDenom (adapted_staking a) ctx) (Some returnAmount))) (\<lambda>amt.
         bindA (liftR (Coins_New E amt)) (\<lambda>res.
         let moduleName = (if ValBonded validator then BondedPoolName else NotBondedPoolName) in
         bindA (Bank_UndelegateCoinsFromModuleToAccount (adapter_bank a) moduleName delAddr res) (\<lambda>_.
         ret res))))))"

definition StakingKeeperAdapter :: "('s, 'x) sdk \<Rightarrow> ('x, 'p) staking_adapter \<Rightarrow> ('x, 'p) XStakingKeeper" where
  "StakingKeeperAdapter E a =
     SDKStakingKeeper.extend (adapted_staking a) (XStakingKeeper.fields (Adapter_InstantUndelegate E a))"

section \<open>The keeper\<close>

text \<open>
  The keeper's fields; its stores and codec are those of the environment. An option is applied
  to the new keeper.
\<close>

record ('s, 'x, 'p) Keeper =
  k_bank :: "'x XBankKeeper"
  k_Staking :: "('x, 'p) XStakingKeeper"
  k_wasm :: "('s, 'x) WasmKeeper"
  k_authority :: string

definition Option_apply :: "(('s, 'x, 'p) Keeper \<Rightarrow> ('s, 'x, 'p) Keeper) \<Rightarrow> ('s, 'x, 'p) Keeper \<Rightarrow> ('s, 'x, 'p) Keeper" where
  "Option_apply f k = f k"

definition Keeper_NewKeeperX :: "'x XBankKeeper \<Rightarrow> ('x, 'p) XStakingKeeper \<Rightarrow> ('s, 'x) WasmKeeper \<Rightarrow> string \<Rightarrow>
    (('s, 'x, 'p) Keeper \<Rightarrow> ('s, 'x, 'p) Keeper) list \<Rightarrow> ('s, 'x, 'p) Keeper" where
  "Keeper_NewKeeperX bank staking wasm auth opts =
     fold Option_apply opts
       \<lparr>k_bank = bank, k_Staking = staking, k_wasm = wasm, k_authority = auth\<rparr>"

definition Keeper_NewKeeper :: "('s, 'x) sdk \<Rightarrow> 'x SDKBankKeeper \<Rightarrow> ('x, 'p) SDKStakingKeeper \<Rightarrow>
    ('s, 'x) WasmKeeper \<Rightarrow> string \<Rightarrow> (('s, 'x, 'p) Keeper \<Rightarrow> ('s, 'x, 'p) Keeper) list \<Rightarrow> ('s, 'x, 'p) Keeper" where
  "Keeper_NewKeeper E bank staking wasm auth opts =
     Keeper_NewKeeperX (BankKeeperAdapter \<lparr>adapted_bank = bank\<rparr>)
       (StakingKeeperAdapter E \<lparr>adapted_staking = staking, adapter_bank = bank\<rparr>) wasm auth opts"

text \<open>\<open>WithWasmKeeperDecorated\<close> replaces the wasm keeper by the decorated one.\<close>

definition decorateWasm :: "(('s, 'x) WasmKeeper \<Rightarrow> ('s, 'x) WasmKeeper) \<Rightarrow>
    ('s, 'x, 'p) Keeper \<Rightarrow> ('s, 'x, 'p) Keeper" where
  "decorateWasm cb k = k\<lparr>k_wasm := cb (k_wasm k)\<rparr>"

section \<open>The environment a keeper sees\<close>

text \<open>
  Virtual staking delegates unbonded tokens from the contract's account
  (\<open>stakingtypes.Unbonded\<close> and \<open>true\<close> in \<open>keeper/stake.go\<close>).
\<close>

definition withBank :: "('x, 'm) SDKBankKeeper_scheme \<Rightarrow> ('s, 'x) sdk \<Rightarrow> ('s, 'x) sdk" where
  "withBank b E = E\<lparr>bank_MintCoins := Bank_MintCoins b, bank_BurnCoins := Bank_BurnCoins b,
     bank_SendCoinsFromAccountToModule := Bank_SendCoinsFromAccountToModule b,
     bank_SendCoinsFromModuleToAccount := Bank_SendCoinsFromModuleToAccount b,
     bank_UndelegateCoinsFromModuleToAccount := Bank_UndelegateCoinsFromModuleToAccount b\<rparr>"

definition withStaking :: "('x, 'p, 'm) SDKStakingKeeper_scheme \<Rightarrow> ('s, 'x) sdk \<Rightarrow> ('s, 'x) sdk" where
  "withStaking k E = E\<lparr>staking_BondDenom := Staking_BondDenom k,
     staking_GetValidator := Staking_GetValidator k,
     staking_ValidatorByConsAddr := Staking_GetValidatorByConsAddr k,
     staking_GetDelegation := Staking_GetDelegation k,
     staking_ValidateUnbondAmount := Staking_ValidateUnbondAmount k,
     staking_Delegate := (\<lambda>delAddr amt v. Staking_Delegate k delAddr amt Unbonded v True),
     staking_Unbond := Staking_Unbond k\<rparr>"

definition withWasm :: "('s, 'x) WasmKeeper \<Rightarrow> ('s, 'x) sdk \<Rightarrow> ('s, 'x) sdk" where
  "withWasm w E = E\<lparr>wasm_Sudo := Wasm_Sudo w, wasm_HasContractInfo := Wasm_HasContractInfo w\<rparr>"

definition seenBy :: "('s, 'x) sdk \<Rightarrow> ('s, 'x, 'p) Keeper \<Rightarrow> ('s, 'x) sdk" where
  "seenBy E k = (withWasm (k_wasm k) (withStaking (k_Staking k) (withBank (k_bank k) E)))
     \<lparr>bank_AddSupplyOffset := XBank_AddSupplyOffset (k_bank k),
      staking_InstantUndelegate := XStaking_InstantUndelegate (k_Staking k),
      authority := k_authority k\<rparr>"

section \<open>Lemmas\<close>

lemma extend_simps [simp]:
  "XBank_AddSupplyOffset (SDKBankKeeper.extend b (XBankKeeper.fields f)) = f"
  "Bank_MintCoins (SDKBankKeeper.extend b m) = Bank_MintCoins b"
  "Bank_BurnCoins (SDKBankKeeper.extend b m) = Bank_BurnCoins b"
  "Bank_SendCoinsFromAccountToModule (SDKBankKeeper.extend b m) = Bank_SendCoinsFromAccountToModule b"
  "Bank_SendCoinsFromModuleToAccount (SDKBankKeeper.extend b m) = Bank_SendCoinsFromModuleToAccount b"
  "Bank_UndelegateCoinsFromModuleToAccount (SDKBankKeeper.extend b m) = Bank_UndelegateCoinsFromModuleToAccount b"
  by (simp_all add: SDKBankKeeper.defs XBankKeeper.defs)

lemma staking_extend_simps [simp]:
  "XStaking_InstantUndelegate (SDKStakingKeeper.extend k (XStakingKeeper.fields g)) = g"
  "Staking_BondDenom (SDKStakingKeeper.extend k m) = Staking_BondDenom k"
  "Staking_GetValidator (SDKStakingKeeper.extend k m) = Staking_GetValidator k"
  "Staking_GetValidatorByConsAddr (SDKStakingKeeper.extend k m) = Staking_GetValidatorByConsAddr k"
  "Staking_GetDelegation (SDKStakingKeeper.extend k m) = Staking_GetDelegation k"
  "Staking_ValidateUnbondAmount (SDKStakingKeeper.extend k m) = Staking_ValidateUnbondAmount k"
  "Staking_Delegate (SDKStakingKeeper.extend k m) = Staking_Delegate k"
  "Staking_Unbond (SDKStakingKeeper.extend k m) = Staking_Unbond k"
  by (simp_all add: SDKStakingKeeper.defs XStakingKeeper.defs)

text \<open>An adapter keeps the methods it embeds.\<close>

lemma withBank_adapter: "withBank (BankKeeperAdapter \<lparr>adapted_bank = b\<rparr>) E = withBank b E"
  by (simp add: withBank_def BankKeeperAdapter_def)

lemma withStaking_adapter:
  "withStaking (StakingKeeperAdapter E' \<lparr>adapted_staking = k, adapter_bank = b\<rparr>) E = withStaking k E"
  by (simp add: withStaking_def StakingKeeperAdapter_def)

lemma InstantUndelegate_adapter:
  "Adapter_InstantUndelegate E \<lparr>adapted_staking = k, adapter_bank = b\<rparr> =
     InstantUndelegate (withWasm w (withStaking k (withBank b E))\<lparr>authority := auth\<rparr>)"
  by (simp add: fun_eq_iff Adapter_InstantUndelegate_def InstantUndelegate_def withWasm_def withStaking_def
      withBank_def Let_def cong: option.case_cong)

lemma seenBy_decorate:
  "seenBy E (decorateWasm cb k) =
     WithWasmKeeperDecorated (\<lambda>(sudo, info). case cb \<lparr>Wasm_Sudo = sudo, Wasm_HasContractInfo = info\<rparr> of
       w \<Rightarrow> (Wasm_Sudo w, Wasm_HasContractInfo w)) (seenBy E k)"
  by (cases "k_wasm k", rule sdk.equality) (simp_all add: seenBy_def decorateWasm_def WithWasmKeeperDecorated_def withWasm_def)

lemma seenBy_options:
  "seenBy E (fold Option_apply (map decorateWasm cbs) k) =
     fold (\<lambda>o_apply k. o_apply k) (map (\<lambda>cb. WithWasmKeeperDecorated (\<lambda>(sudo, info).
       case cb \<lparr>Wasm_Sudo = sudo, Wasm_HasContractInfo = info\<rparr> of
         w \<Rightarrow> (Wasm_Sudo w, Wasm_HasContractInfo w))) cbs) (seenBy E k)"
  by (induction cbs arbitrary: k) (simp_all add: seenBy_decorate Option_apply_def)

text \<open>
  The keeper built from interface values sees what \<open>NewKeeper\<close> of theory \<open>Stake\<close> makes of the
  environment with those values.
\<close>

lemma NewKeeper_seen:
  "seenBy E (Keeper_NewKeeper E bank staking wasm auth (map decorateWasm cbs)) =
     NewKeeper (withWasm wasm (withStaking staking (withBank bank E))\<lparr>authority := auth\<rparr>)
       (map (\<lambda>cb. WithWasmKeeperDecorated (\<lambda>(sudo, info).
         case cb \<lparr>Wasm_Sudo = sudo, Wasm_HasContractInfo = info\<rparr> of
           w \<Rightarrow> (Wasm_Sudo w, Wasm_HasContractInfo w))) cbs)"
proof -
  let ?E = "withWasm wasm (withStaking staking (withBank bank E))\<lparr>authority := auth\<rparr>"
  have "seenBy E \<lparr>k_bank = BankKeeperAdapter \<lparr>adapted_bank = bank\<rparr>,
      k_Staking = StakingKeeperAdapter E \<lparr>adapted_staking = staking, adapter_bank = bank\<rparr>,
      k_wasm = wasm, k_authority = auth\<rparr> = NewBankKeeperAdapter (NewStakingKeeperAdapter ?E)"
    by (simp add: seenBy_def withBank_adapter withStaking_adapter NewBankKeeperAdapter_def
        NewStakingKeeperAdapter_def InstantUndelegate_adapter [symmetric, where auth = auth and w = wasm])
      (simp add: BankKeeperAdapter_def StakingKeeperAdapter_def)
  then show ?thesis
    by (simp add: Keeper_NewKeeper_def Keeper_NewKeeperX_def NewKeeper_def NewKeeperX_def seenBy_options)
qed

end
