(* ===== verification/Errors.thy ===== *)
theory Errors
  imports Types
begin

text \<open>
  The registered errors of the module (\<open>types/errors.go\<close>). The registry belongs to the SDK: it
  takes a codespace, a code and a text, and panics when the code is taken. The lemmas show that
  the four registrations of the module's initialisation come through once, and give the codes
  that clients see of the model's error values.
\<close>

section \<open>Registration\<close>

record 'e module_errors =
  e_Invalid :: 'e
  e_MaxCapExceeded :: 'e
  e_Unsupported :: 'e
  e_Unknown :: 'e

definition errors_init :: "(string \<Rightarrow> u32 \<Rightarrow> string \<Rightarrow> ('reg, 'e) act) \<Rightarrow> ('reg, 'e module_errors) act" where
  "errors_init Register =
     bindA (Register ModuleName 1 ''invalid'') (\<lambda>invalid.
     bindA (Register ModuleName 2 ''max cap exceeded'') (\<lambda>maxCapExceeded.
     bindA (Register ModuleName 3 ''unsupported'') (\<lambda>unsupported.
     bindA (Register ModuleName 4 ''unknown'') (\<lambda>unknown.
     ret \<lparr>e_Invalid = invalid, e_MaxCapExceeded = maxCapExceeded, e_Unsupported = unsupported,
       e_Unknown = unknown\<rparr>))))"

text \<open>Which registered error a value of the model stands for; the others are the SDK's.\<close>

fun registered :: "'e module_errors \<Rightarrow> error \<Rightarrow> 'e option" where
  "registered es ErrInvalid = Some (e_Invalid es)"
| "registered es ErrMaxCapExceeded = Some (e_MaxCapExceeded es)"
| "registered es ErrUnsupported = Some (e_Unsupported es)"
| "registered es ErrUnknown = Some (e_Unknown es)"
| "registered es _ = None"

section \<open>The registry\<close>

text \<open>\<open>key\<close> is the codespace and code of a registered error, \<open>taken\<close> the codes in use.\<close>

locale error_registry =
  fixes Register :: "string \<Rightarrow> u32 \<Rightarrow> string \<Rightarrow> ('reg, 'e) act"
    and taken :: "'reg \<Rightarrow> (string \<times> u32) set"
    and key :: "'e \<Rightarrow> string \<times> u32"
  assumes Register_new: "(cs, c) \<notin> taken r \<Longrightarrow>
      \<exists>e r'. Register cs c d r = (Ok e, r') \<and> key e = (cs, c) \<and> taken r' = insert (cs, c) (taken r)"
    and Register_taken: "(cs, c) \<in> taken r \<Longrightarrow> fst (Register cs c d r) = Panic"
begin

lemma errors_init_Ok:
  assumes "\<And>c. (ModuleName, c) \<notin> taken r"
  obtains es r' where "errors_init Register r = (Ok es, r')"
    and "key (e_Invalid es) = (ModuleName, 1)" and "key (e_MaxCapExceeded es) = (ModuleName, 2)"
    and "key (e_Unsupported es) = (ModuleName, 3)" and "key (e_Unknown es) = (ModuleName, 4)"
    and "taken r' = taken r \<union> {(ModuleName, 1), (ModuleName, 2), (ModuleName, 3), (ModuleName, 4)}"
proof -
  obtain e1 r1 where 1: "Register ModuleName 1 ''invalid'' r = (Ok e1, r1)" "key e1 = (ModuleName, 1)"
    "taken r1 = insert (ModuleName, 1) (taken r)"
    using Register_new [OF assms] by blast
  have "(ModuleName, 2) \<notin> taken r1" using assms 1(3) by simp
  from Register_new [OF this] obtain e2 r2
    where 2: "Register ModuleName 2 ''max cap exceeded'' r1 = (Ok e2, r2)" "key e2 = (ModuleName, 2)"
      "taken r2 = insert (ModuleName, 2) (taken r1)"
    by blast
  have "(ModuleName, 3) \<notin> taken r2" using assms 1(3) 2(3) by simp
  from Register_new [OF this] obtain e3 r3
    where 3: "Register ModuleName 3 ''unsupported'' r2 = (Ok e3, r3)" "key e3 = (ModuleName, 3)"
      "taken r3 = insert (ModuleName, 3) (taken r2)"
    by blast
  have "(ModuleName, 4) \<notin> taken r3" using assms 1(3) 2(3) 3(3) by simp
  from Register_new [OF this] obtain e4 r4
    where 4: "Register ModuleName 4 ''unknown'' r3 = (Ok e4, r4)" "key e4 = (ModuleName, 4)"
      "taken r4 = insert (ModuleName, 4) (taken r3)"
    by blast
  show thesis
    by (rule that [of "\<lparr>e_Invalid = e1, e_MaxCapExceeded = e2, e_Unsupported = e3, e_Unknown = e4\<rparr>" r4])
      (use 1 2 3 4 in \<open>auto simp: errors_init_def act_simps bindA_def\<close>)
qed

text \<open>Different errors of the module have different codes.\<close>

lemma registered_inj:
  assumes "errors_init Register r = (Ok es, r')" and "\<And>c. (ModuleName, c) \<notin> taken r"
    and "registered es a = Some x" and "registered es b = Some y" and "key x = key y"
  shows "a = b"
proof -
  have "key (e_Invalid es) = (ModuleName, 1) \<and> key (e_MaxCapExceeded es) = (ModuleName, 2) \<and>
      key (e_Unsupported es) = (ModuleName, 3) \<and> key (e_Unknown es) = (ModuleName, 4)"
    by (rule errors_init_Ok [OF assms(2)]) (use assms(1) in auto)
  with assms(3-5) show ?thesis
    by (cases a; cases b) auto
qed

text \<open>A second initialisation panics at its first registration.\<close>

lemma errors_init_again:
  assumes "(ModuleName, 1) \<in> taken r"
  shows "fst (errors_init Register r) = Panic"
  using Register_taken [OF assms, of "''invalid''"]
  by (auto simp: errors_init_def bindA_def split: prod.splits result.splits)

end

end
