(* ===== verification/Accessors.thy ===== *)
theory Accessors
  imports Daemon Services
begin

text \<open>
  What the demo application shows of itself, and constants: the struct \<open>MeshApp\<close> without its
  keepers (theory \<open>Wiring\<close> has those), its accessors and the services it registers
  (\<open>demo/app/app.go\<close>), the client context the daemon starts from (\<open>demo/cmd/meshd/root.go\<close>),
  the modules' entries for codecs, and the weights of simulated operations
  (\<open>demo/app/params/weights.go\<close>).
\<close>

section \<open>The application struct\<close>

definition appName :: string where "appName = ''MeshApp''"

definition NodeDir :: string where "NodeDir = ''.meshd''"

text \<open>\<open>ExpandEnv\<close> replaces variables of the process's environment in a text.\<close>

definition DefaultNodeHome :: "(string \<Rightarrow> string) \<Rightarrow> string" where
  "DefaultNodeHome ExpandEnv = ExpandEnv ''$HOME/'' @ NodeDir"

text \<open>
  The base application, module manager, simulation manager and configurator are values of the
  SDK; the keys are named by their modules.
\<close>

record ('base, 'a, 'r, 'c, 't, 'mm, 'sm, 'conf) mesh_app =
  app_BaseApp :: 'base
  app_legacyAmino :: 'a
  app_appCodec :: 'c
  app_txConfig :: 't
  app_interfaceRegistry :: 'r
  app_keys :: "app_module list"
  app_tkeys :: "app_module list"
  app_memKeys :: "app_module list"
  app_ModuleManager :: 'mm
  app_sm :: 'sm
  app_configurator :: 'conf

text \<open>
  The struct as \<open>NewMeshApp\<close> first builds it from the encodings; the managers and the
  configurator are set later.
\<close>

definition initialApp :: "('a, 'r, 'c, 't) EncodingConfig \<Rightarrow> 'base \<Rightarrow>
    ('base, 'a, 'r, 'c, 't, 'mm option, 'sm option, 'conf option) mesh_app" where
  "initialApp encodingConfig bApp = (
     let interfaceRegistry = enc_InterfaceRegistry encodingConfig
     in \<lparr>app_BaseApp = bApp, app_legacyAmino = enc_Amino encodingConfig,
         app_appCodec = enc_Marshaler encodingConfig interfaceRegistry,
         app_txConfig = enc_TxConfig encodingConfig interfaceRegistry,
         app_interfaceRegistry = interfaceRegistry,
         app_keys = kvStoreKeys, app_tkeys = transientStoreKeys, app_memKeys = memoryStoreKeys,
         app_ModuleManager = None, app_sm = None, app_configurator = None\<rparr>)"

section \<open>Accessors\<close>

definition App_Name :: "('base \<Rightarrow> string) \<Rightarrow> ('base, 'a, 'r, 'c, 't, 'mm, 'sm, 'conf) mesh_app \<Rightarrow> string" where
  "App_Name BaseApp_Name app = BaseApp_Name (app_BaseApp app)"

definition App_Configurator :: "('base, 'a, 'r, 'c, 't, 'mm, 'sm, 'conf) mesh_app \<Rightarrow> 'conf" where
  "App_Configurator app = app_configurator app"

definition App_LegacyAmino :: "('base, 'a, 'r, 'c, 't, 'mm, 'sm, 'conf) mesh_app \<Rightarrow> 'a" where
  "App_LegacyAmino app = app_legacyAmino app"

definition App_AppCodec :: "('base, 'a, 'r, 'c, 't, 'mm, 'sm, 'conf) mesh_app \<Rightarrow> 'c" where
  "App_AppCodec app = app_appCodec app"

definition App_InterfaceRegistry :: "('base, 'a, 'r, 'c, 't, 'mm, 'sm, 'conf) mesh_app \<Rightarrow> 'r" where
  "App_InterfaceRegistry app = app_interfaceRegistry app"

definition App_TxConfig :: "('base, 'a, 'r, 'c, 't, 'mm, 'sm, 'conf) mesh_app \<Rightarrow> 't" where
  "App_TxConfig app = app_txConfig app"

definition App_SimulationManager :: "('base, 'a, 'r, 'c, 't, 'mm, 'sm, 'conf) mesh_app \<Rightarrow> 'sm" where
  "App_SimulationManager app = app_sm app"

section \<open>Services of the SDK\<close>

text \<open>
  The three services are the SDK's; they are put on the base application's query router, the
  first two with the interface registry and a method of the application.
\<close>

record ('base, 'router, 'ctx, 'r, 'w) node_sdk =
  GRPCQueryRouter :: "'base \<Rightarrow> 'router"
  authtx_RegisterTxService :: "'router \<Rightarrow> 'ctx \<Rightarrow> 'base \<Rightarrow> 'r \<Rightarrow> ('w, unit) act"
  tmservice_RegisterTendermintService :: "'ctx \<Rightarrow> 'router \<Rightarrow> 'r \<Rightarrow> 'base \<Rightarrow> ('w, unit) act"
  nodeservice_RegisterNodeService :: "'ctx \<Rightarrow> 'router \<Rightarrow> ('w, unit) act"

definition RegisterTxService :: "('base, 'router, 'ctx, 'r, 'w) node_sdk \<Rightarrow>
    ('base, 'a, 'r, 'c, 't, 'mm, 'sm, 'conf) mesh_app \<Rightarrow> 'ctx \<Rightarrow> ('w, unit) act" where
  "RegisterTxService N app clientCtx =
     authtx_RegisterTxService N (GRPCQueryRouter N (app_BaseApp app)) clientCtx (app_BaseApp app)
       (app_interfaceRegistry app)"

definition RegisterTendermintService :: "('base, 'router, 'ctx, 'r, 'w) node_sdk \<Rightarrow>
    ('base, 'a, 'r, 'c, 't, 'mm, 'sm, 'conf) mesh_app \<Rightarrow> 'ctx \<Rightarrow> ('w, unit) act" where
  "RegisterTendermintService N app clientCtx =
     tmservice_RegisterTendermintService N clientCtx (GRPCQueryRouter N (app_BaseApp app))
       (app_interfaceRegistry app) (app_BaseApp app)"

definition RegisterNodeService :: "('base, 'router, 'ctx, 'r, 'w) node_sdk \<Rightarrow>
    ('base, 'a, 'r, 'c, 't, 'mm, 'sm, 'conf) mesh_app \<Rightarrow> 'ctx \<Rightarrow> ('w, unit) act" where
  "RegisterNodeService N app clientCtx =
     nodeservice_RegisterNodeService N clientCtx (GRPCQueryRouter N (app_BaseApp app))"

section \<open>The client context of the daemon\<close>

text \<open>The fields of the SDK's \<open>client.Context\<close> that the daemon sets, on an empty context.\<close>

record ('a, 'r, 'c, 't, 'in, 'ret) client_context =
  ctx_Codec :: "'c option"
  ctx_InterfaceRegistry :: "'r option"
  ctx_TxConfig :: "'t option"
  ctx_LegacyAmino :: "'a option"
  ctx_Input :: "'in option"
  ctx_AccountRetriever :: "'ret option"
  ctx_HomeDir :: string
  ctx_ViperPrefix :: "string option"

definition initClientCtx :: "('a, 'r, 'c, 't) EncodingConfig \<Rightarrow> (string \<Rightarrow> string) \<Rightarrow> 'in \<Rightarrow> 'ret \<Rightarrow>
    ('a, 'r, 'c, 't, 'in, 'ret) client_context" where
  "initClientCtx encodingConfig ExpandEnv stdin retriever = (
     let registry = enc_InterfaceRegistry encodingConfig
     in \<lparr>ctx_Codec = Some (enc_Marshaler encodingConfig registry),
         ctx_InterfaceRegistry = Some registry,
         ctx_TxConfig = Some (enc_TxConfig encodingConfig registry),
         ctx_LegacyAmino = Some (enc_Amino encodingConfig),
         ctx_Input = Some stdin, ctx_AccountRetriever = Some retriever,
         ctx_HomeDir = DefaultNodeHome ExpandEnv, ctx_ViperPrefix = Some ''''\<rparr>)"

section \<open>The modules and codecs\<close>

definition Module_RegisterLegacyAminoCodec :: "('a, 'r) codec_sdk \<Rightarrow> 'a \<Rightarrow> 'a result" where
  "Module_RegisterLegacyAminoCodec D amino = RegisterLegacyAminoCodec D amino"

definition Module_RegisterInterfaces :: "('a, 'r) codec_sdk \<Rightarrow> 'r \<Rightarrow> 'r result" where
  "Module_RegisterInterfaces D registry = RegisterInterfaces D registry"

definition Provider_Module_RegisterLegacyAminoCodec :: "('a, 'r) codec_sdk \<Rightarrow> 'a \<Rightarrow> 'a result" where
  "Provider_Module_RegisterLegacyAminoCodec D cdc = Provider_RegisterLegacyAminoCodec D cdc"

definition Provider_Module_RegisterInterfaces :: "('a, 'r) codec_sdk \<Rightarrow> 'r \<Rightarrow> 'r result" where
  "Provider_Module_RegisterInterfaces D registry = Provider_RegisterInterfaces D registry"

section \<open>Simulation weights\<close>

definition DefaultWeights :: "(string \<times> int) list" where
  "DefaultWeights = [
     (''MsgSend'', 100), (''MsgMultiSend'', 10), (''MsgSetWithdrawAddress'', 50),
     (''MsgWithdrawDelegationReward'', 50), (''MsgWithdrawValidatorCommission'', 50),
     (''MsgFundCommunityPool'', 50), (''MsgDeposit'', 100), (''MsgVote'', 67), (''MsgUnjail'', 100),
     (''MsgCreateValidator'', 100), (''MsgEditValidator'', 5), (''MsgDelegate'', 100),
     (''MsgUndelegate'', 100), (''MsgBeginRedelegate'', 100),
     (''CommunitySpendProposal'', 5), (''TextProposal'', 5), (''ParamChangeProposal'', 5),
     (''MsgStoreCode'', 50), (''MsgInstantiateContract'', 100), (''MsgExecuteContract'', 100),
     (''MsgUpdateAdmin'', 25), (''MsgClearAdmin'', 10), (''MsgMigrateContract'', 50),
     (''StoreCodeProposal'', 5), (''InstantiateContractProposal'', 5), (''UpdateAdminProposal'', 5),
     (''ExecuteContractProposal'', 5), (''ClearAdminProposal'', 5), (''MigrateContractProposal'', 5),
     (''SudoContractProposal'', 5), (''PinCodesProposal'', 5), (''UnpinCodesProposal'', 5),
     (''UpdateInstantiateConfigProposal'', 5), (''StoreAndInstantiateContractProposal'', 5)]"

section \<open>Lemmas\<close>

text \<open>The application and the daemon read with the same encodings.\<close>

lemma same_encodings:
  "ctx_Codec (initClientCtx enc ee i ret) = Some (App_AppCodec (initialApp enc b))"
  "ctx_InterfaceRegistry (initClientCtx enc ee i ret) = Some (App_InterfaceRegistry (initialApp enc b))"
  "ctx_TxConfig (initClientCtx enc ee i ret) = Some (App_TxConfig (initialApp enc b))"
  "ctx_LegacyAmino (initClientCtx enc ee i ret) = Some (App_LegacyAmino (initialApp enc b))"
  by (simp_all add: initClientCtx_def initialApp_def Let_def App_AppCodec_def App_InterfaceRegistry_def
      App_TxConfig_def App_LegacyAmino_def)

text \<open>Every operation has one weight, and it is positive.\<close>

lemma DefaultWeights_ok: "distinct (map fst DefaultWeights)" "list_all (\<lambda>w. 0 < snd w) DefaultWeights"
  by code_simp+

end
