(* ===== verification/ExamplesCalls.thy ===== *)
theory ExamplesCalls
  imports ExamplesApi Calls EntryPoints Interfaces Errors Accessors
begin

text \<open>
  Instances for the witnesses, continued: the laws of validators and of the error registry hold
  together, and a history of the reference chain through its entry points.
\<close>

interpretation ref_validators: mesh_validators ref_sdk ref_denom
proof (intro mesh_validators.intro ref_machine.mesh_machine_axioms validators.intro, goal_cases)
  case (1 v val)
  then show ?case by (auto simp: ref_defs ok_iffs split: if_splits)
next
  case (2 n)
  then show ?case using ref_IntString_length by (simp add: ref_defs)
next
  case (3 consAddr h pow ratio x n x')
  then show ?case by (auto simp: ref_defs Let_def split: if_splits)
qed

section \<open>A registry of errors\<close>

definition ref_Register :: "string \<Rightarrow> u32 \<Rightarrow> string \<Rightarrow> ((string \<times> u32) list, string \<times> u32) act" where
  "ref_Register cs c d r = (if (cs, c) \<in> set r then (Panic, r) else (Ok (cs, c), (cs, c) # r))"

interpretation ref_errors: error_registry ref_Register set id
  by unfold_locales (simp_all add: ref_Register_def)

lemma ref_errors_init: "fst (errors_init ref_Register []) = Ok \<lparr>e_Invalid = (ModuleName, 1),
    e_MaxCapExceeded = (ModuleName, 2), e_Unsupported = (ModuleName, 3), e_Unknown = (ModuleName, 4)\<rparr>"
  by code_simp

section \<open>A history of calls\<close>

definition ref_genesis_codec :: "genesis_state json_codec" where
  "ref_genesis_codec = \<lparr>MarshalJSON = (\<lambda>gs. Ok []), UnmarshalJSON = (\<lambda>bz. Ok (NewGenesisState ref_params0))\<rparr>"

lemma ref_genesis_call:
  "Module_InitGenesis (NewAppModule ref_genesis_codec ref_sdk) ref_genesis_codec [] ref_start = (Ok [], ref_genesis)"
  by (simp add: Module_InitGenesis_def NewAppModule_def NewAppModuleX_def ref_genesis_codec_def act_simps
      bindA_def ref_genesis_step)

text \<open>The validator of the bond is slashed for a double sign; its operator joins the active set.\<close>

definition ref_punished :: "(ref_store, ref_ext) chain" where
  "ref_punished = snd (runKeeperCall ref_sdk (SlashWithReasonCall [86] 7 20 100000000000000000) ref_bonded)"

definition ref_joined :: "(ref_store, ref_ext) chain" where
  "ref_joined = snd (runHook ref_sdk (OnValidatorBonded [86] [86]) ref_punished)"

lemma ref_call_steps:
  "runKeeperCall ref_sdk (SlashWithReasonCall [86] 7 20 100000000000000000) ref_bonded = (Ok (), ref_punished)"
  "runHook ref_sdk (OnValidatorBonded [86] [86]) ref_punished = (Ok (), ref_joined)"
proof -
  have "fst (runKeeperCall ref_sdk (SlashWithReasonCall [86] 7 20 100000000000000000) ref_bonded) = Ok ()"
    by code_simp
  then show "runKeeperCall ref_sdk (SlashWithReasonCall [86] 7 20 100000000000000000) ref_bonded = (Ok (), ref_punished)"
    by (simp add: ref_punished_def prod_eq_iff)
  have "fst (runHook ref_sdk (OnValidatorBonded [86] [86]) ref_punished) = Ok ()"
    by code_simp
  then show "runHook ref_sdk (OnValidatorBonded [86] [86]) ref_punished = (Ok (), ref_joined)"
    by (simp add: ref_joined_def prod_eq_iff)
qed

lemma ref_calls: "(chain_call ref_genesis_codec ref_sdk)\<^sup>*\<^sup>* ref_genesis ref_joined"
proof -
  let ?call = "chain_call ref_genesis_codec ref_sdk"
  have "?call ref_genesis ref_capped"
    by (rule chain_call.proposal [OF ref_capped_step])
  moreover have "?call ref_capped ref_bonded"
    by (rule chain_call.message [OF ref_bonded_step])
  moreover have "?call ref_bonded ref_punished"
    by (rule chain_call.keeper [OF ref_call_steps(1)])
  moreover have "?call ref_punished ref_joined"
    by (rule chain_call.hook [OF ref_call_steps(2)]) simp
  ultimately show ?thesis 
    by (intro converse_rtranclp_into_rtranclp [OF _ converse_rtranclp_into_rtranclp [OF _
          converse_rtranclp_into_rtranclp [OF _ r_into_rtranclp]]])
qed

end
