(* ===== verification/Reentry.thy ===== *)
theory Reentry
  imports Calls
begin

text \<open>
  A contract that is called may also change the validator set: through another contract it can
  send staking or slashing messages, and then the hooks (\<open>keeper/staking_hooks.go\<close>) and the
  decorators (\<open>keeper/adapter.go\<close>) record changes while the contracts are told. The lemmas show
  what is left of the module's promises under such calls: the tables stay readable and the limits
  within their total, the block end comes through, and every contract with a due task hears at
  least what was recorded when the block end began.
\<close>

section \<open>Calls that record changes\<close>

inductive hooked_step :: "('s, 'x) sdk \<Rightarrow> ('s, 'x) chain \<Rightarrow> ('s, 'x) chain \<Rightarrow> bool" for E where
  act: "contract_step E s t \<Longrightarrow> hooked_step E s t"
| hook: "goodOp op val si \<Longrightarrow> sendAsync E op val si s = (r, t) \<Longrightarrow> hooked_step E s t"

inductive_cases hooked_stepE: "hooked_step E s t"

definition hookedRuns :: "('s, 'x) sdk \<Rightarrow> bool" where
  "hookedRuns E \<longleftrightarrow> (\<forall>c bz s. (hooked_step E)\<^sup>*\<^sup>* s (snd (wasm_Sudo E c bz s)))"

text \<open>No call records a change.\<close>

definition silentCalls :: "('s, 'x) sdk \<Rightarrow> bool" where
  "silentCalls E \<longleftrightarrow> (\<forall>c bz s. mem (snd (wasm_Sudo E c bz s)) = mem s)"

text \<open>
  What contracts hear, by the results of their calls: each is told all changes recorded so far,
  those its predecessors were told among them.
\<close>

inductive heard :: "('s, 'x) sdk \<Rightarrow> piped_op list \<Rightarrow> exec_result list \<Rightarrow>
    ('s, 'x) chain \<Rightarrow> ('s, 'x) chain \<Rightarrow> bool" for E where
  over: "set ops \<subseteq> set (pipedOps E s) \<Longrightarrow> heard E ops [] s s"
| told: "set ops \<subseteq> set (pipedOps E s) \<Longrightarrow> announcement E (pipedOps E s) (Contract res) s = (Ok (), u) \<Longrightarrow>
    ExecErr res = None \<Longrightarrow> tasksOnly E (commitCache s u) s' \<Longrightarrow> heard E (pipedOps E s) rs s' t \<Longrightarrow>
    heard E ops (res # rs) s t"
| failed: "set ops \<subseteq> set (pipedOps E s) \<Longrightarrow> ExecErr res = Some e \<Longrightarrow>
    e = ErrPanic \<or> fst (announcement E (pipedOps E s) (Contract res) s) = Err e \<Longrightarrow>
    tasksOnly E s s' \<Longrightarrow> heard E (pipedOps E s) rs s' t \<Longrightarrow> heard E ops (res # rs) s t"

text \<open>The part of the invariant that such calls keep.\<close>

definition readable :: "('s, 'x) sdk \<Rightarrow> ('s, 'x) chain \<Rightarrow> bool" where
  "readable E s \<longleftrightarrow> wfAmounts E s \<and> wfOps E s"

definition coreInv :: "('s, 'x) sdk \<Rightarrow> params \<Rightarrow> int \<Rightarrow> ('s, 'x) chain \<Rightarrow> bool" where
  "coreInv E p L s \<longleftrightarrow> GetParams E s = Ok p \<and> readable E s \<and> wfTasks E s \<and> totalCaps E s \<le> L"

text \<open>How far a call can get: parameters, limits and height stay, and changes are only added.\<close>

definition grows :: "('s, 'x) sdk \<Rightarrow> ('s, 'x) chain \<Rightarrow> ('s, 'x) chain \<Rightarrow> bool" where
  "grows E s t \<longleftrightarrow> GetParams E t = GetParams E s \<and> height t = height s \<and>
     (\<forall>c. limitOf E t c = limitOf E s c) \<and> set (pipedOps E s) \<subseteq> set (pipedOps E t)"

lemma grows_refl [simp]: "grows E s s"
  by (simp add: grows_def)

lemma grows_trans: "grows E s t \<Longrightarrow> grows E t u \<Longrightarrow> grows E s u"
  by (auto simp: grows_def)

lemma grows_commitCache: "grows E s t \<Longrightarrow> grows E s (commitCache s t)"
  by (simp add: grows_def amountAt_def pipedOps_def GetParams_def)

lemma readable_commitCache [simp]:
  "readable E (commitCache s t) = readable E t" "wfTasks E (commitCache s t) = wfTasks E t"
  by (simp_all add: readable_def wfAmounts_def wfTasks_def wfOps_def)

lemma wasmRuns_hooked: "wasmRuns E \<Longrightarrow> hookedRuns E"
  unfolding wasmRuns_def hookedRuns_def
  using rtranclp_mono [of "contract_step E" "hooked_step E"] hooked_step.act by blast

context mesh_machine
begin

lemma wasmRuns_silent: "wasmRuns E \<Longrightarrow> silentCalls E"
  unfolding wasmRuns_def silentCalls_def using contract_run_frame(1) by (auto simp: onlyTotals_def)

lemma coreInv_grows:
  assumes "coreInv E p L s" and "grows E s t" and "readable E t" and "wfTasks E t"
  shows "coreInv E p L t"
proof -
  have "totalCaps E t = totalCaps E s"
    using assms(2) by (intro totalCaps_cong) (simp add: grows_def)
  with assms show ?thesis by (simp add: coreInv_def grows_def)
qed

lemma tasksOnly_stays:
  assumes "tasksOnly E s t"
  shows "readable E t \<longleftrightarrow> readable E s" and "grows E s t"
  using tasksOnly_params [OF assms] tasksOnly_amounts(1,3) [OF assms] assms
    pipedOps_cong [OF tasksOnly_mem [OF assms]] wfOps_cong [OF tasksOnly_mem [OF assms]]
  by (simp_all add: readable_def grows_def tasksOnly_def)

lemma hooked_step_stays:
  assumes "hooked_step E s t" and "readable E s"
  shows "readable E t \<and> grows E s t \<and> (wfTasks E s \<longrightarrow> wfTasks E t)"
  using assms(1)
proof cases
  case act
  note frame = contract_step_frame [OF act]
  note keeps = onlyTotals_keepsTasks [OF frame]
  have same: "mem t = mem s" "height t = height s"
    using frame by (simp_all add: onlyTotals_def)
  then show ?thesis
    using keepsTasks_params [OF keeps] onlyTotals_limit [OF frame] pipedOps_cong [OF same(1)]
      contract_step_wf [OF act] keepsTasks_wfTasks [OF keeps] wfOps_cong [OF same(1)] assms(2)
    by (simp add: grows_def readable_def)
next
  case (hook op val si r)
  have wf: "wfAmounts E s" "wfOps E s"
    using assms(2) by (simp_all add: readable_def)
  obtain t' where t': "sendAsync E op val si s = (Ok (), t')" "tasksOnly E (storedOp s op val si) t'"
    "wfTasks E s \<Longrightarrow> wfTasks E t'"
    by (rule sendAsync_eq [OF hook(1) wf(1)]) (rule that; assumption)
  have t: "t' = t" using hook(2) t'(1) by simp
  have "readable E (storedOp s op val si)" and grow: "grows E s (storedOp s op val si)"
    using wf wfOps_storedOp [OF wf(2) hook(1)] pipedOps_storedOp [OF wf(2) hook(1)]
    by (auto simp: readable_def wfAmounts_def grows_def GetParams_def amountAt_def)
  then show ?thesis
    using tasksOnly_stays [OF t'(2)] t'(3) grows_trans [OF grow] by (simp add: t)
qed

lemma hooked_run_stays:
  assumes "(hooked_step E)\<^sup>*\<^sup>* s t" and "readable E s"
  shows "readable E t \<and> grows E s t \<and> (wfTasks E s \<longrightarrow> wfTasks E t)"
  using assms
  by (induction rule: rtranclp_induct) (auto intro: grows_trans dest: hooked_step_stays)

lemma sudo_stays:
  assumes "hookedRuns E" and "readable E s"
    and "snd (cb c s) = s \<or> (\<exists>bz. snd (cb c s) = snd (wasm_Sudo E c bz s))"
  shows "readable E (snd (cb c s)) \<and> grows E s (snd (cb c s)) \<and> (wfTasks E s \<longrightarrow> wfTasks E (snd (cb c s)))"
proof -
  have "(hooked_step E)\<^sup>*\<^sup>* s (snd (cb c s))"
    using assms(1,3) by (metis rtranclp.rtrancl_refl hookedRuns_def)
  from hooked_run_stays [OF this assms(2)] show ?thesis .
qed

lemma branchState_stays:
  assumes "hookedRuns E" and "readable E s"
    and "snd (cb c s) = s \<or> (\<exists>bz. snd (cb c s) = snd (wasm_Sudo E c bz s))"
  shows "readable E (branchState E g (cb c) s)" and "grows E s (branchState E g (cb c) s)"
    and "wfTasks E s \<Longrightarrow> wfTasks E (branchState E g (cb c) s)"
  using sudo_stays [where cb = cb and c = c, OF assms] assms(2)
  by (simp_all add: branchState_def grows_commitCache)

section \<open>Runs of tasks\<close>

text \<open>
  A run over any tasks, of a callback that does no more than such a call: it comes through, and
  every contract is served in the state its predecessors left.
\<close>

lemma runTasks_stays:
  assumes "hookedRuns E" and "tp \<noteq> SchedulerTaskUndefined" and "GetMaxSudoGas E s = Ok g"
    and cb: "\<And>c s. snd (cb c s) = s \<or> (\<exists>bz. snd (cb c s) = snd (wasm_Sudo E c bz s))"
    and "coreInv E p L s" and "height s \<le> height s + ep"
  shows "\<exists>rs t. runTasks ts (execCallback E tp ep cb) (acc, s) = (Ok (), (acc @ rs, t)) \<and>
    served E cb rs s t \<and> map Contract rs = map (fst \<circ> snd) ts \<and>
    (\<forall>res \<in> set rs. RescheduleErr res = None) \<and> coreInv E p L t \<and> grows E s t"
  using assms(3,5,6)
proof (induction ts arbitrary: s acc)
  case Nil
  then show ?case by (auto simp: act_simps intro: served.none)
next
  case (Cons x ts)
  obtain h c r where x: "x = (h, c, r)" by (cases x) auto
  let ?b = "branchState E g (cb c) s"
  obtain res s1 where run: "execTask E tp ep cb c h r s = (Ok res, s1)"
    and res: "Contract res = c"
      "RescheduleErr res = (if r \<and> ep \<noteq> 0 \<and> height s + ep < height s then Some ErrInvalid else None)"
    and s1: "tasksOnly E ?b s1" "wfTasks E ?b \<Longrightarrow> wfTasks E s1"
    by (rule execTask_eq [OF assms(2) Cons.prems(1), where ep = ep and cb = cb and c = c
          and h = h and r = r]) (rule that; assumption)
  have wf: "readable E s" "wfTasks E s"
    using Cons.prems(2) by (simp_all add: coreInv_def)
  note b = branchState_stays [where cb = cb and c = c and g = g, OF assms(1) wf(1) cb]
  note t = tasksOnly_stays [OF s1(1)]
  have grow: "grows E s s1"
    by (rule grows_trans [OF b(2) t(2)])
  have core: "coreInv E p L s1"
    by (rule coreInv_grows [OF Cons.prems(2) grow]) (use b t s1(2) wf in simp_all)
  have "GetMaxSudoGas E s1 = Ok g" "height s1 \<le> height s1 + ep"
    using grow Cons.prems(1,3) params_reads_cong(1) [of E s1 s] by (simp_all add: grows_def)
  from Cons.IH [OF this(1) core this(2), of "acc @ [res]"]
  obtain rs u where rest: "runTasks ts (execCallback E tp ep cb) (acc @ [res], s1) =
      (Ok (), ((acc @ [res]) @ rs, u))"
    and tail: "served E cb rs s1 u" "map Contract rs = map (fst \<circ> snd) ts"
      "\<forall>res \<in> set rs. RescheduleErr res = None" "coreInv E p L u" "grows E s1 u"
    by blast
  have "execCallback E tp ep cb c h r (acc, s) = (Ok False, (acc @ [res], s1))"
    by (simp add: execCallback_def act_simps bindA_def run)
  then have "runTasks (x # ts) (execCallback E tp ep cb) (acc, s) = (Ok (), (acc @ res # rs, u))"
    using rest by (simp add: x bindA_def)
  moreover have "served E cb (res # rs) s u"
    by (rule execTask_served [OF assms(2) Cons.prems(1) run tail(1)])
  ultimately show ?case
    using tail res Cons.prems(3) grows_trans [OF grow]
    by (intro exI [of _ "res # rs"] exI [of _ u]) (simp add: x not_less)
qed

lemma ExecScheduledTasks_stays:
  assumes "hookedRuns E" and "tp \<noteq> SchedulerTaskUndefined" and "GetMaxSudoGas E s = Ok g"
    and "\<And>c s. snd (cb c s) = s \<or> (\<exists>bz. snd (cb c s) = snd (wasm_Sudo E c bz s))"
    and "coreInv E p L s" and "height s \<le> height s + ep"
  obtains rs t where "ExecScheduledTasks E tp ep cb s = (Ok rs, t)" and "served E cb rs s t"
    and "map Contract rs = map (fst \<circ> snd) (dueTasks E s tp (height s))"
    and "\<forall>res \<in> set rs. RescheduleErr res = None" and "coreInv E p L t" and "grows E s t"
proof -
  have wf: "wfTasks E s"
    using assms(5) by (simp add: coreInv_def)
  let ?ts = "dueTasks E s tp (height s)"
  obtain rs t where run: "runTasks ?ts (execCallback E tp ep cb) ([], s) = (Ok (), ([] @ rs, t))"
    and rs: "served E cb rs s t" "map Contract rs = map (fst \<circ> snd) ?ts"
      "\<forall>res \<in> set rs. RescheduleErr res = None" "coreInv E p L t" "grows E s t"
    using runTasks_stays [where cb = cb and ts = ?ts and acc = "[]", OF assms] by blast
  have "ExecScheduledTasks E tp ep cb s = (Ok rs, t)"
    using run assms(2) by (simp add: ExecScheduledTasks_def withLocal_def act_simps IterateScheduledTasks_eq [OF wf])
  with rs that show thesis by blast
qed

text \<open>Who is served by the update tasks hears all changes recorded so far.\<close>

lemma served_heard:
  assumes "served E (valsetUpdateTask E) rs s t" and "hookedRuns E" and "readable E s"
    and "set ops \<subseteq> set (pipedOps E s)"
  shows "heard E ops rs s t"
  using assms(1,3,4)
proof (induction arbitrary: ops rule: served.induct)
  case none
  then show ?case by (auto intro: heard.over)
next
  case (committed res s u s' rs t)
  have f: "announcement E (pipedOps E s) (Contract res) s = (Ok (), u)"
    using committed.hyps(1) valsetUpdateTask_announcement committed.prems(1) by (simp add: readable_def)
  have b: "readable E (commitCache s u)" "grows E s (commitCache s u)"
    using sudo_stays [where cb = "valsetUpdateTask E" and c = "Contract res", OF assms(2) committed.prems(1)
        valsetUpdateTask_state] committed.hyps(1) by (simp_all add: grows_commitCache)
  note t = tasksOnly_stays [OF committed.hyps(3)]
  have "grows E s s'"
    by (rule grows_trans [OF b(2) t(2)])
  then have "heard E (pipedOps E s) rs s' t"
    using committed.IH b(1) t(1) by (simp add: grows_def)
  then show ?case
    using committed.hyps committed.prems f by (auto intro: heard.told)
next
  case (dropped res e s s' rs t)
  have f: "valsetUpdateTask E (Contract res) s = announcement E (pipedOps E s) (Contract res) s"
    using valsetUpdateTask_announcement dropped.prems(1) by (simp add: readable_def)
  note t = tasksOnly_stays [OF dropped.hyps(3)]
  have "heard E (pipedOps E s) rs s' t"
    using dropped.IH dropped.prems(1) t by (simp add: grows_def)
  then show ?case
    using dropped.hyps dropped.prems f by (auto intro: heard.failed)
qed

section \<open>Block ends\<close>

text \<open>
  The block end comes through. Between its two runs no change is stored; what is recorded in the
  first run is told to the contracts that are still to be called, and dropped.
\<close>

lemma EndBlocker_hooked:
  assumes "hookedRuns E" and core: "coreInv E p L s" and h: "height s < 2 ^ 63"
  obtains rs s1 s2 rs' t where
    "ExecScheduledTasks E SchedulerTaskValsetUpdate (ucast (EpochLength p)) (valsetUpdateTask E) s = (Ok rs, s1)"
    and "map Contract rs = map (fst \<circ> snd) (dueTasks E s SchedulerTaskValsetUpdate (height s))"
    and "heard E (pipedOps E s) rs s s1"
    and "ClearPipedValsetOperations E s1 = (Ok (), s2)" and "pipedOps E s2 = []"
    and "ExecScheduledTasks E SchedulerTaskHandleEpoch (ucast (EpochLength p)) (SendHandleEpoch E) s2 = (Ok rs', t)"
    and "map Contract rs' = map (fst \<circ> snd) (dueTasks E s2 SchedulerTaskHandleEpoch (height s2))"
    and "served E (SendHandleEpoch E) rs' s2 t"
    and "EndBlocker E DefaultExecutionResponseHandler s = (Ok (), t)"
    and "coreInv E p L t" and "height t = height s" and "\<And>c. limitOf E t c = limitOf E s c"
proof -
  let ?V = SchedulerTaskValsetUpdate and ?H = SchedulerTaskHandleEpoch
  let ?epoch = "ucast (EpochLength p) :: u64" and ?g = "ucast (MaxGasEndBlocker p) :: u64"
  have tps: "?V \<noteq> SchedulerTaskUndefined" "?H \<noteq> SchedulerTaskUndefined"
    by (simp_all add: task_defs)
  have params: "GetMaxSudoGas E x = Ok ?g" "GetRebalanceEpochLength E x = Ok ?epoch" if "coreInv E p L x" for x
    using that by (simp_all add: coreInv_def GetMaxSudoGas_def GetRebalanceEpochLength_def)
  note le = height_plus_epoch(1) [OF h, of "EpochLength p"]
  obtain rs s1 where run1: "ExecScheduledTasks E ?V ?epoch (valsetUpdateTask E) s = (Ok rs, s1)"
    and served: "served E (valsetUpdateTask E) rs s s1"
    and rs: "map Contract rs = map (fst \<circ> snd) (dueTasks E s ?V (height s))"
      "\<forall>res \<in> set rs. RescheduleErr res = None"
    and s1: "coreInv E p L s1" "grows E s s1"
    by (rule ExecScheduledTasks_stays [where cb = "valsetUpdateTask E", OF assms(1) tps(1) params(1) [OF core]
          valsetUpdateTask_state core le]) (rule that; assumption)
  have heard: "heard E (pipedOps E s) rs s s1"
    by (rule served_heard [OF served assms(1)]) (use core in \<open>simp_all add: coreInv_def\<close>)
  obtain s2 where run2: "ClearPipedValsetOperations E s1 = (Ok (), s2)" and clear: "pipedOps E s2 = []"
    and wf2: "wfOps E s2" and s2: "s2 = s1\<lparr>mem := mem s2\<rparr>"
    by (rule ClearPipedValsetOperations_eq [of s1])
  have same: "store s2 = store s1" "height s2 = height s1"
    using arg_cong [OF s2, of store] arg_cong [OF s2, of height] by simp_all
  have limits: "limitOf E s2 c = limitOf E s1 c" for c
    by (simp add: amountAt_def same)
  have core2: "coreInv E p L s2"
    using s1(1) wf2 totalCaps_cong [OF limits] GetParams_cong [of E s2 s1]
    by (simp add: coreInv_def readable_def wfAmounts_def wfTasks_def same)
  have le2: "height s2 \<le> height s2 + ?epoch"
    using le s1(2) by (simp add: same grows_def)
  have epoch: "snd (SendHandleEpoch E c x) = x \<or> (\<exists>bz. snd (SendHandleEpoch E c x) = snd (wasm_Sudo E c bz x))" for c x
    unfolding SendHandleEpoch_def by (rule doSudoCall_state)
  obtain rs' t where run3: "ExecScheduledTasks E ?H ?epoch (SendHandleEpoch E) s2 = (Ok rs', t)"
    and rs': "served E (SendHandleEpoch E) rs' s2 t"
      "map Contract rs' = map (fst \<circ> snd) (dueTasks E s2 ?H (height s2))"
      "\<forall>res \<in> set rs'. RescheduleErr res = None"
    and t: "coreInv E p L t" "grows E s2 t"
    by (rule ExecScheduledTasks_stays [where cb = "SendHandleEpoch E", OF assms(1) tps(2) params(1) [OF core2]
          epoch core2 le2]) (rule that; assumption)
  have "EndBlocker E DefaultExecutionResponseHandler s = (Ok (), t)"
    using rs(2) rs'(3)
    by (simp add: EndBlocker_def act_simps params(2) [OF core] rspHandler_def bindA_def caught_def run1 run2 run3
        handleAll_default)
  moreover have "height t = height s" "limitOf E t c = limitOf E s c" for c
    using t(2) s1(2) limits by (simp_all add: grows_def same)
  ultimately show thesis
    using that run1 rs(1) heard run2 clear run3 rs'(1,2) t(1) by blast
qed

section \<open>Reachable states\<close>

lemma meshInv_core: "meshInv E p L s \<Longrightarrow> coreInv E p L s"
  by (simp add: meshInv_def coreInv_def readable_def)

lemma coreInv_set_cap:
  assumes "coreInv E p L s" and "TotalContractsMaxCap p = Coin d (Some L)"
    and ok: "SetVirtualStakingMaxCap E req s = (Ok u, t)"
  shows "coreInv E p L t"
proof -
  have inv: "GetParams E s = Ok p" "wfAmounts E s" "wfTasks E s" "wfOps E s"
    using assms(1) by (simp_all add: coreInv_def readable_def)
  show ?thesis
    by (rule SetVirtualStakingMaxCap_tables [OF inv(1-3) assms(2) ok])
      (use inv(1,4) wfOps_cong [of t s] in \<open>simp add: coreInv_def readable_def\<close>)
qed

lemma hooked_step_core:
  assumes "hooked_step E s t" and "coreInv E p L s"
  shows "coreInv E p L t"
  using hooked_step_stays [OF assms(1)] coreInv_grows [OF assms(2)] assms(2)
  by (simp add: coreInv_def)

text \<open>The machine's steps keep this part of the invariant even when calls record changes.\<close>

lemma mesh_step_core:
  assumes "coreInv E p L s" and "TotalContractsMaxCap p = Coin d (Some L)" and "hookedRuns E"
    and "mesh_step E s t"
  shows "coreInv E p L t"
  using assms(4)
proof cases
  case contract
  then show ?thesis using hooked_step_core [OF hooked_step.act assms(1)] by blast
next
  case (set_cap req u)
  then show ?thesis using coreInv_set_cap [OF assms(1,2)] by blast
next
  case (valset op val si u)
  then show ?thesis using hooked_step_core [OF hooked_step.hook assms(1)] by blast
next
  case (end_block u t' bt)
  have "coreInv E p L t'"
    by (rule EndBlocker_hooked [OF assms(3,1) end_block(3)]) (use end_block(2) in simp)
  moreover have "totalCaps E t = totalCaps E t'"
    using end_block(1) by (intro totalCaps_cong) (simp add: amountAt_def)
  ultimately show ?thesis
    using end_block(1) by (simp add: coreInv_def readable_def wfAmounts_def wfTasks_def wfOps_def GetParams_def)
qed

lemma reachable_core:
  assumes "mesh_reachable E p s" and "TotalContractsMaxCap p = Coin d (Some L)" and "0 \<le> L"
    and "hookedRuns E"
  shows "coreInv E p L s"
  using assms(1)
proof induction
  case (genesis s u t)
  then show ?case
    using genesis_meshInv [OF _ _ assms(3)] meshInv_core by (simp add: setCap_def assms(2))
next
  case (step s t)
  then show ?case using mesh_step_core assms(2,4) by blast
qed

text \<open>When no call records a change, all contracts are told the same list.\<close>

lemma heard_silent:
  assumes "heard E ops rs s t" and "silentCalls E" and "readable E s" and "pipedOps E s = ops" and "hookedRuns E"
  shows "broadcast E ops rs s t \<and> mem t = mem s"
  using assms(1,3,4)
proof induction
  case (over ops s)
  then show ?case by (auto intro: broadcast.over)
next
  case (told ops s res u s' rs t)
  have f: "valsetUpdateTask E (Contract res) s = (Ok (), u)"
    using told.hyps(2) valsetUpdateTask_announcement told.prems(1) by (simp add: readable_def)
  have mem_u: "mem u = mem s"
    using valsetUpdateTask_state [of E "Contract res" s] assms(2) f by (auto simp: silentCalls_def)
  have "readable E u"
    using sudo_stays [where cb = "valsetUpdateTask E" and c = "Contract res", OF assms(5) told.prems(1)
        valsetUpdateTask_state] f by simp
  then have "readable E s'"
    using tasksOnly_stays(1) [OF told.hyps(4)] by simp
  moreover have mem': "mem s' = mem s"
    using tasksOnly_mem [OF told.hyps(4)] mem_u by simp
  ultimately show ?case
    using told pipedOps_cong [OF mem'] by (auto intro: broadcast.told)
next
  case (failed ops s res e s' rs t)
  have mem': "mem s' = mem s"
    using tasksOnly_mem [OF failed.hyps(4)] .
  then show ?case
    using failed pipedOps_cong [OF mem'] tasksOnly_stays(1) [OF failed.hyps(4)]
    by (auto intro: broadcast.failed)
qed

lemma served_silent:
  assumes "served E (SendHandleEpoch E) rs s t" and "silentCalls E"
  shows "mem t = mem s"
  using assms(1)
proof induction
  case (committed res s u s' rs t)
  then have "mem u = mem s"
    using doSudoCall_state [of E "Contract res" _ s] assms(2)
    unfolding SendHandleEpoch_def silentCalls_def by (metis snd_conv)
  then show ?case
    using committed tasksOnly_mem [OF committed.hyps(3)] by simp
next
  case (dropped res e s s' rs t)
  then show ?case using tasksOnly_mem by metis
qed simp

text \<open>The block end of a reachable state.\<close>

lemma block_end_hears:
  assumes "coreInv E p L s" and "hookedRuns E" and "height s < 2 ^ 63"
  obtains rs s1 s2 t where
    "ExecScheduledTasks E SchedulerTaskValsetUpdate (ucast (EpochLength p)) (valsetUpdateTask E) s = (Ok rs, s1)"
    and "map Contract rs = map (fst \<circ> snd) (dueTasks E s SchedulerTaskValsetUpdate (height s))"
    and "heard E (pipedOps E s) rs s s1"
    and "ClearPipedValsetOperations E s1 = (Ok (), s2)" and "pipedOps E s2 = []"
    and "EndBlocker E DefaultExecutionResponseHandler s = (Ok (), t)"
    and "silentCalls E \<Longrightarrow> broadcast E (pipedOps E s) rs s s1 \<and> pipedOps E t = []"
proof -
  obtain rs s1 s2 rs' t where run:
    "ExecScheduledTasks E SchedulerTaskValsetUpdate (ucast (EpochLength p)) (valsetUpdateTask E) s = (Ok rs, s1)"
    "map Contract rs = map (fst \<circ> snd) (dueTasks E s SchedulerTaskValsetUpdate (height s))"
    "heard E (pipedOps E s) rs s s1"
    "ClearPipedValsetOperations E s1 = (Ok (), s2)" "pipedOps E s2 = []"
    "served E (SendHandleEpoch E) rs' s2 t"
    "EndBlocker E DefaultExecutionResponseHandler s = (Ok (), t)"
    by (rule EndBlocker_hooked [OF assms(2,1,3)]) (rule that; assumption)
  have "broadcast E (pipedOps E s) rs s s1 \<and> pipedOps E t = []" if silent: "silentCalls E"
    using heard_silent [OF run(3) silent _ refl assms(2)] assms(1) run(5)
      pipedOps_cong [OF served_silent [OF run(6) silent]] by (simp add: coreInv_def)
  with run that show thesis by blast
qed

end

end
