(* ===== verification/ExamplesReentry.thy ===== *)
theory ExamplesReentry
  imports ExamplesCalls Reentry
begin

text \<open>
  The reference environment with a contract that changes the validator set when it is called:
  an instance for calls that record changes, and what becomes of a change recorded so.
\<close>

section \<open>A contract that unjails\<close>

definition hook_Sudo :: "address \<Rightarrow> bytes \<Rightarrow> ((ref_store, ref_ext) chain, bytes) act" where
  "hook_Sudo c bz = bindA (wasm_Sudo ref_sdk c bz) (\<lambda>rsp.
     if c = [50] then bindA (sendAsync ref_sdk ValidatorUnjailed [86] None) (\<lambda>_. ret rsp) else ret rsp)"

definition hook_sdk :: "(ref_store, ref_ext) sdk" where
  "hook_sdk = ref_sdk\<lparr>wasm_Sudo := hook_Sudo\<rparr>"

lemma mesh_machine_sudo: "mesh_machine E d \<Longrightarrow> mesh_machine (E\<lparr>wasm_Sudo := f\<rparr>) d"
  by (simp add: mesh_machine_def mesh_machine_axioms_def block_end_def mesh_keeper_def keeper_def mesh_store_def
      task_runner_def gas_meter_def sdk_addresses_def sdk_numbers_def)

interpretation hook_machine: mesh_machine hook_sdk ref_denom
  unfolding hook_sdk_def by (rule mesh_machine_sudo [OF ref_machine.mesh_machine_axioms])

lemma sendAsync_sudo: "sendAsync (E\<lparr>wasm_Sudo := f\<rparr>) op val si = sendAsync E op val si"
proof -
  let ?E = "E\<lparr>wasm_Sudo := f\<rparr>"
  have "ScheduleOneShotTask ?E tp c h = ScheduleOneShotTask E tp c h" for tp c h
    by (simp add: ScheduleOneShotTask_def storeSet_def cong: if_cong)
  then have "scheduleValsetUpdate ?E c m = scheduleValsetUpdate E c m" for c m
    by (simp add: scheduleValsetUpdate_def cong: if_cong)
  then have schedule: "scheduleValsetUpdate ?E = scheduleValsetUpdate E"
    by (simp add: fun_eq_iff)
  have "iterCaps ?E es cb w = iterCaps E es cb w" for es cb and w :: "error option \<times> ('a, 'b) chain"
  proof (induction es arbitrary: w)
    case (Cons e es)
    then have "iterCaps ?E es cb = iterCaps E es cb"
      by (simp add: fun_eq_iff)
    then show ?case by (cases e) (simp cong: if_cong)
  qed simp
  then have "iterCaps ?E es cb = iterCaps E es cb" for es
    and cb :: "address \<Rightarrow> int \<Rightarrow> (error option \<times> ('a, 'b) chain, bool) act"
    by (simp add: fun_eq_iff)
  then have "IterateMaxCapLimit ?E cb = IterateMaxCapLimit E cb"
    for cb :: "address \<Rightarrow> int \<Rightarrow> (error option \<times> ('a, 'b) chain, bool) act"
    by (simp add: IterateMaxCapLimit_def)
  then show ?thesis
    by (simp add: sendAsync_def BuildPipedValsetOpKey_def schedule cong: if_cong)
qed

lemma hook_hookedRuns: "hookedRuns hook_sdk"
  unfolding hookedRuns_def
proof (intro allI)
  fix c bz s
  obtain r t where sudo: "wasm_Sudo ref_sdk c bz s = (r, t)"
    by (cases "wasm_Sudo ref_sdk c bz s")
  have "t = s\<lparr>ext := ext t, events := events s\<rparr>"
    using sudo by (auto simp: ref_defs ref_Sudo_def split: if_splits)
  then have first: "hooked_step hook_sdk s t"
    using hooked_step.act [OF contract_step.other_modules] by metis
  have good: "goodOp ValidatorUnjailed [86] None"
    by (simp add: goodOp_def shortOp_def knownOps_def valset_op_defs)
  have "hooked_step hook_sdk t (snd (sendAsync ref_sdk ValidatorUnjailed [86] None t))"
    using hooked_step.hook [OF good, of hook_sdk t] unfolding hook_sdk_def sendAsync_sudo by (metis prod.collapse)
  with first have "(hooked_step hook_sdk)\<^sup>*\<^sup>* s (snd (sendAsync ref_sdk ValidatorUnjailed [86] None t))"
    by (rule converse_rtranclp_into_rtranclp [OF _ r_into_rtranclp])
  moreover have "(hooked_step hook_sdk)\<^sup>*\<^sup>* s t"
    using first by blast
  ultimately show "(hooked_step hook_sdk)\<^sup>*\<^sup>* s (snd (wasm_Sudo hook_sdk c bz s))"
    using sudo by (auto simp: hook_sdk_def hook_Sudo_def act_simps bindA_def split: result.split prod.split)
qed

section \<open>A change that is lost\<close>

text \<open>
  Two contracts have limits when the validator is slashed. The second one, when told, unjails
  the validator: the first contract has been told by then.
\<close>

definition hook_start :: "(ref_store, ref_ext) chain" where
  "hook_start = ref_start\<lparr>ext := (ext ref_start)\<lparr>r_broken := []\<rparr>\<rparr>"

definition hook_genesis :: "(ref_store, ref_ext) chain" where
  "hook_genesis = hook_start\<lparr>store := [([1], ref_paramBytes)]\<rparr>"

definition hook_limited :: "(ref_store, ref_ext) chain" where
  "hook_limited = hook_genesis\<lparr>
     store := [([4, 1, 0, 0, 0, 0, 0, 0, 0, 15, 49], [1]), ([2, 49], [52, 48]), ([1], ref_paramBytes)],
     events := [EmitMaxCapLimitUpdatedEvent [49] (Coin ''stake'' (Some 40)),
       EmitSchedulerRegisteredEvent [49] 15 True]\<rparr>"

definition hook_both :: "(ref_store, ref_ext) chain" where
  "hook_both = hook_limited\<lparr>
     store := ([4, 1, 0, 0, 0, 0, 0, 0, 0, 15, 50], [1]) # ([2, 50], [50, 48]) # store hook_limited,
     events := events hook_limited @ [EmitMaxCapLimitUpdatedEvent [50] (Coin ''stake'' (Some 20)),
       EmitSchedulerRegisteredEvent [50] 15 True]\<rparr>"

definition hook_slashed :: "(ref_store, ref_ext) chain" where
  "hook_slashed = hook_both\<lparr>
     store := ([4, 2, 0, 0, 0, 0, 0, 0, 0, 10, 50], [0]) # ([4, 2, 0, 0, 0, 0, 0, 0, 0, 10, 49], [0]) # store hook_both,
     mem := mem ref_slashed,
     events := events hook_both @ [EmitSchedulerRegisteredEvent [49] 10 False, EmitSchedulerRegisteredEvent [50] 10 False]\<rparr>"

definition hook_ended :: "(ref_store, ref_ext) chain" where
  "hook_ended = hook_slashed\<lparr>
     store := ([4, 2, 0, 0, 0, 0, 0, 0, 0, 10, 49], [0]) # store hook_both, mem := [],
     ext := (ext hook_slashed)\<lparr>r_calls := [([49], [2]), ([50], [2])]\<rparr>,
     events := events hook_slashed @ [EmitSchedulerExecutionEvent [49] None,
       EmitSchedulerRegisteredEvent [49] 10 False, EmitSchedulerExecutionEvent [50] None]\<rparr>"

lemma hook_genesis_step: "InitGenesis hook_sdk (NewGenesisState ref_params0) hook_start = (Ok (), hook_genesis)"
  by code_simp

lemma hook_limited_step: "SetVirtualStakingMaxCap hook_sdk (ref_cap ''a1'' 40) hook_genesis = (Ok (), hook_limited)"
  by code_simp

lemma hook_both_step: "SetVirtualStakingMaxCap hook_sdk (ref_cap ''a2'' 20) hook_limited = (Ok (), hook_both)"
  by code_simp

lemma hook_slashed_step: "sendAsync hook_sdk ValidatorSlashed [86] (Some ref_slash) hook_both = (Ok (), hook_slashed)"
  by code_simp

lemma hook_ended_step: "EndBlocker hook_sdk DefaultExecutionResponseHandler hook_slashed = (Ok (), hook_ended)"
  by code_simp

lemma hook_reachable: "mesh_reachable hook_sdk ref_params0 hook_slashed"
proof -
  have "emptyChain hook_sdk hook_start"
    by (simp add: emptyChain_def hook_start_def ref_start_def hook_sdk_def ref_defs)
  then have "mesh_reachable hook_sdk ref_params0 hook_genesis"
    by (rule mesh_reachable.genesis [OF _ hook_genesis_step])
  from mesh_reachable.step [OF this mesh_step.set_cap [OF hook_limited_step]]
  have "mesh_reachable hook_sdk ref_params0 hook_both"
    by (rule mesh_reachable.step [OF _ mesh_step.set_cap [OF hook_both_step]])
  then show ?thesis
    by (rule mesh_reachable.step [OF _ mesh_step.valset [OF ref_goodOp hook_slashed_step]])
qed

lemma hook_height: "height hook_slashed = 10"
  by (simp add: hook_slashed_def hook_both_def hook_limited_def hook_genesis_def hook_start_def
      ref_start_def)

text \<open>
  At the block end both contracts are called once, the second one records that the validator is
  unjailed, and then no change is stored any more: the first contract is never told. The task
  that was registered for it stays behind and runs in the next block, with an empty report.
\<close>

lemma hook_lost:
  "map fst (r_calls (ext hook_ended)) = [[49], [50]]" "pipedOps hook_sdk hook_ended = []"
  "taskAt hook_sdk hook_ended SchedulerTaskValsetUpdate 10 [49] = Some False" "height hook_ended = 10"
proof -
  show "map fst (r_calls (ext hook_ended)) = [[49], [50]]" "height hook_ended = 10"
    by (simp_all add: hook_ended_def hook_slashed_def hook_both_def hook_limited_def hook_genesis_def
        hook_start_def ref_start_def)
  have "kv_PrefixIterator hook_sdk [] PipedValsetPrefix = []"
    by (simp add: hook_sdk_def ref_defs ref_Iterator_def)
  then show "pipedOps hook_sdk hook_ended = []"
    by (simp add: pipedOps_def hook_ended_def)
  show "taskAt hook_sdk hook_ended SchedulerTaskValsetUpdate 10 [49] = Some False"
    by code_simp
qed

end
