(* ===== verification/Spec2Isabelle.thy ===== *)
theory Spec2Isabelle
  imports ExamplesReentry
begin

text \<open>
  Mesh security lets smart contracts stake "virtual" tokens on a Cosmos SDK chain. The
  repository holds the module \<open>x/meshsecurity\<close>, the stub \<open>x/meshsecurityprovider\<close> and a
  demo chain. This development models the two modules as they are written, and of the demo
  chain what decides how they run, and proves what makes them correct.

  How the program works. Governance gives a contract a max cap limit
  (\<open>keeper/msg_server.go\<close>, \<open>keeper/keeper.go\<close>); the limits of all contracts together stay
  within a total in the module's parameters. A contract with a limit may bond: the module
  mints tokens, books them as a negative supply offset, and delegates them in the contract's
  name (\<open>keeper/stake.go\<close>, reached through \<open>keeper/handler_plugin.go\<close>); unbonding burns
  them. A scheduler (\<open>keeper/scheduler.go\<close>) keeps tasks by type, height and contract in the
  store. Changes of validators (\<open>keeper/staking_hooks.go\<close>, \<open>keeper/adapter.go\<close>) are packed
  into keys of a memory store (\<open>types/keys.go\<close>, \<open>keeper/valset_updates.go\<close>). The block end
  (\<open>abci.go\<close>) runs the due tasks: first the validator updates, then the epoch callbacks.

  Theories and what they model:
  \<^item> \<open>Prelude\<close>: results with error and panic, state-passing actions, Go slices, big-endian
    numbers. \<open>Types\<close>: the messages of \<open>contract/*.go\<close>, task and operation codes, events, and
    the chain state (module store, memory store, state of the other modules, events, header).
  \<^item> \<open>Sdk\<close>: all code outside the repository, as one record of functions that the definitions
    take as an argument, and the laws the lemmas use of it, as locales.
  \<^item> \<open>Keys\<close>: \<open>types/keys.go\<close>. \<open>Params\<close>: \<open>keeper/params.go\<close>, \<open>keeper/genesis.go\<close>,
    \<open>types/params.go\<close>, \<open>types/genesis.go\<close>. \<open>Keeper\<close>: \<open>keeper/keeper.go\<close>.
  \<^item> \<open>Scheduler\<close> and \<open>Execution\<close>: \<open>keeper/scheduler.go\<close>; \<open>LiveTasks\<close>: its iterator once more,
    as a loop over the live store. \<open>Stake\<close>: \<open>keeper/stake.go\<close>, the adapters and constructors;
    \<open>Supply\<close>: what messages do to the supply, with supply offsets and on the vanilla SDK.
  \<^item> \<open>Valset\<close>: \<open>keeper/valset_updates.go\<close>, \<open>keeper/staking_hooks.go\<close> and the decorators of
    \<open>keeper/adapter.go\<close>; \<open>ValsetFacts\<close> holds their lemmas.
  \<^item> \<open>Handlers\<close>: \<open>keeper/handler_plugin.go\<close>, \<open>keeper/query_plugin.go\<close>, \<open>keeper/querier.go\<close>.
    \<open>MsgServer\<close>: \<open>keeper/msg_server.go\<close>, \<open>types/tx.go\<close>. \<open>EndBlock\<close>: \<open>abci.go\<close>,
    \<open>keeper/wasm.go\<close>. \<open>Provider\<close>: \<open>x/meshsecurityprovider\<close>.
  \<^item> \<open>AppModules\<close>: both \<open>module.go\<close>, the modules as the module manager sees them. \<open>Cli\<close>: the
    commands in \<open>client/cli\<close> of both modules. \<open>Services\<close>: message and query services and their
    registration, both \<open>types/codec.go\<close>, the encodings of the demo chain. \<open>Gateway\<close>: the HTTP
    gateway, \<open>types/query.pb.gw.go\<close> of both modules.
  \<^item> \<open>App\<close>: of \<open>demo/app/app.go\<close> the message handlers, the module orders, the module accounts
    and the parameter subspaces; \<open>demo/app/ante.go\<close>; \<open>demo/app/upgrades.go\<close>. \<open>AppBlocks\<close>: the
    block hooks of the chain. \<open>Wiring\<close>: the
    construction of the keepers, stores and IBC routes in \<open>NewMeshApp\<close>. \<open>Startup\<close>: the calls of
    \<open>NewMeshApp\<close> in their order and what becomes of an error at each place, with what the SDK
    does in a call as a parameter, and the lookups of keys and subspaces.
    \<open>Export\<close>: \<open>demo/app/export.go\<close> and the command \<open>appExport\<close>. \<open>ExportZero\<close>: what the
    whole preparation for height zero leaves. \<open>Daemon\<close>: the commands, prefixes and configuration of
    \<open>demo/cmd/meshd\<close>.
  \<^item> \<open>Ledger\<close>: the abstract specification, a ledger of limits, bonded amounts, tasks and
    changes with its own steps and invariants. \<open>Refinement\<close>: the chain, read through
    \<open>ledgerOf\<close>, takes no other steps.
  \<^item> \<open>Machine\<close>: the module as a state machine, and the invariant of its reachable states.
    \<open>EntryPoints\<close>: every call the chain makes to the module, staking hooks and decorated
    keepers included, is a run of the machine. \<open>Announce\<close>: the validator updates of a block
    end as a broadcast, its reference. \<open>Calls\<close>: what contracts get over several steps: every
    recorded change at the end of its block, and an epoch call within every epoch. \<open>Reentry\<close>:
    what is left of this when called contracts record changes themselves.
  \<^item> \<open>Interfaces\<close>: \<open>types/expected_keepers.go\<close> as records, the adapters' and the keeper's
    structs, and the keeper they make. \<open>Errors\<close>: \<open>types/errors.go\<close>. \<open>Accessors\<close>: the
    struct \<open>MeshApp\<close> and its accessors, the daemon's client context, simulation weights.
  \<^item> \<open>Reference\<close>, \<open>Examples\<close>, \<open>ExamplesApp\<close>, \<open>ExamplesNode\<close>, \<open>ExamplesApi\<close>,
    \<open>ExamplesCalls\<close> and \<open>ExamplesReentry\<close>: an executable instance of the environment that satisfies all laws, a short history of it, and
    instances for the export, the command line, the vanilla SDK, the daemon, the routers, the
    codecs and the gateway; the witnesses of the properties run on them.

  How to read the model. An action takes the chain and gives a result, \<open>Ok\<close>, \<open>Err\<close> or
  \<open>Panic\<close>, and the chain after it. A closure that captures a variable runs with the variable
  beside the chain. \<open>CacheContext\<close> is a copy of the chain that \<open>done()\<close> writes back. Heights,
  epochs and gas are words of their width, so sums wrap; a theorem that needs a sum not to wrap
  says \<open>height s \<le> height s + epoch\<close>. Amounts are integers, and where \<open>math.Int\<close> overflows
  at 256 bits the model panics (\<open>int256\<close>). Loops over iterators are structural recursions over
  the entries at the iterator's creation, so no fuel is needed anywhere. The loop over due
  tasks is also read the other way, as a partial function that looks at the store anew in
  every step; it is shown to return, with the same result.

  What the groups of lemmas show. The tables of limits, totals and tasks read as maps
  (\<open>limitOf\<close>, \<open>delegatedOf\<close>, \<open>taskAt\<close>), and each operation's effect is stated on these maps;
  the memory store reads as a list of changes (\<open>pipedOps\<close>). States in which all entries can be
  read are \<open>wfAmounts\<close>, \<open>wfTasks\<close> and \<open>wfOps\<close>; every operation preserves them, and \<open>Machine\<close>
  shows that they hold in all reachable states. Interfaces are locales, interpreted on the
  code's own functions: the message handler's keeper and authorizer (\<open>Handlers\<close>), the runner of
  tasks (\<open>Execution\<close>), the store, the numbers, the codec and the bank (\<open>Sdk\<close>, \<open>Stake\<close>).

  What contracts may do when they are called. The Wasm runtime is a parameter, so the properties
  say what they assume of a sudo call. \<open>goodSudo\<close> leaves the scheduler and the parameters alone.
  \<open>wasmRuns\<close> allows the messages of the module (bond, unbond) and any change of the other modules,
  and is what the ledger, the epoch calls and the delivery of changes rest on (C2 to C5, C8, C33,
  C37, and of C1 that no task is in the past). On a real chain a called contract can also execute
  another one that sends staking or slashing messages, whose hooks and decorated keepers record
  validator changes in the middle of a block end. \<open>hookedRuns\<close> allows that too, and C1 and C7 hold
  under it: tables, limits and block ends stay sound, but a change recorded then is lost for the
  contracts called before it (\<open>hook_lost\<close> in \<open>ExamplesReentry\<close>).

  Not modelled: logging, telemetry and error texts, which no result depends on; the JSON,
  protobuf and amino encodings, which are parameters with the laws the lemmas use; the
  generated protobuf types, except the names and methods of the services; headers, marshalers
  and call metadata of the gateway; of the demo chain the arguments of SDK constructors other
  than keepers and stores, and what the SDK's services do and collect as the default genesis;
  texts and flags of commands; panics of constructors on nil arguments; test code. \<open>log.Fatal\<close> in
  the export, which exits the process, and a panic are both \<open>Panic\<close>. What is left
  of the sources otherwise are imports, interface assertions and comments.
\<close>

lemmas machine_block = mesh_machine.axioms(1)
lemmas block_mesh = block_end.axioms(1)
lemmas mesh_keeperD = mesh_keeper.axioms(1)
lemmas keeper_store = keeper.axioms(1)

section \<open>The state machine\<close>

text \<open>
  C1. In every state the chain can reach from genesis, the parameters are those of the genesis,
  the stored tables are readable, and all max cap limits together stay within the total of the
  parameters. A call into a contract may bond, unbond, change the other modules, and record
  validator changes (\<open>hookedRuns\<close>). When calls record none (\<open>wasmRuns\<close>), every scheduled task is
  moreover of a known type and not in the past.
\<close>

theorem reachable_invariant:
  assumes "mesh_machine E valid_denom" and "hookedRuns E"
    and "TotalContractsMaxCap p = Coin d (Some L)" and "0 \<le> L" and "mesh_reachable E p s"
  shows "GetParams E s = Ok p \<and> wfAmounts E s \<and> wfTasks E s \<and> wfOps E s \<and>
    (\<Sum>c | limitOf E s c \<noteq> None. the (limitOf E s c)) \<le> L \<and>
    (wasmRuns E \<longrightarrow> (\<forall>tp h c r. taskAt E s tp h c = Some r \<longrightarrow>
       (tp = SchedulerTaskHandleEpoch \<or> tp = SchedulerTaskValsetUpdate) \<and> height s \<le> h))"
  using mesh_machine.reachable_core [OF assms(1,5,3,4,2)] mesh_machine.reachable_inv [OF assms(1,5,3,4)]
    keeper.totalCaps_sum [OF mesh_keeperD [OF block_mesh [OF machine_block [OF assms(1)]]], of s]
  by (simp add: meshInv_def coreInv_def readable_def tasksAhead_def)

lemma reachable_invariant_witness:
  "(\<Sum>c | limitOf ref_sdk ref_slashed c \<noteq> None. the (limitOf ref_sdk ref_slashed c)) \<le> 100 \<and>
    (\<nexists>h. taskAt ref_sdk ref_slashed SchedulerTaskValsetUpdate h [49] = Some False \<and> h < height ref_slashed) \<and>
    (\<Sum>c | limitOf hook_sdk hook_slashed c \<noteq> None. the (limitOf hook_sdk hook_slashed c)) \<le> 100"
proof (intro conjI)
  note ref = reachable_invariant [OF ref_machine.mesh_machine_axioms wasmRuns_hooked [OF ref_wasmRuns] ref_total
      zero_le_numeral ref_reachable(4)]
  show "(\<Sum>c | limitOf ref_sdk ref_slashed c \<noteq> None. the (limitOf ref_sdk ref_slashed c)) \<le> 100"
    using ref by (elim conjE)
  show "\<nexists>h. taskAt ref_sdk ref_slashed SchedulerTaskValsetUpdate h [49] = Some False \<and> h < height ref_slashed"
    using ref ref_wasmRuns by (meson not_le)
  show "(\<Sum>c | limitOf hook_sdk hook_slashed c \<noteq> None. the (limitOf hook_sdk hook_slashed c)) \<le> 100"
    using reachable_invariant [OF hook_machine.mesh_machine_axioms hook_hookedRuns ref_total zero_le_numeral
        hook_reachable]
    by (elim conjE)
qed

text \<open>
  C2. The module is a refinement of the ledger of theory \<open>Ledger\<close>. Reading limits, totals,
  tasks and recorded changes out of the stores turns every history of the chain into a history
  of the ledger, and every further step into one step of the ledger or none: limits change only
  within the total, totals only by bonding up to the limit and by unbonding, tasks and changes
  only as the ledger says. It follows that in every reachable state a contract without a limit
  has nothing delegated, and no contract more than the total of all limits. This is for calls
  into contracts that bond, unbond and change other modules, and record no validator changes
  themselves (\<open>wasmRuns\<close>).
\<close>

theorem ledger_refinement:
  assumes "mesh_machine E valid_denom" and "wasmRuns E" and "mesh_reachable E p s"
    and "TotalContractsMaxCap p = Coin d (Some L)" and "0 \<le> L"
  shows "ledger_reachable (ucast (EpochLength p)) L (ledgerOf E s) \<and>
    (\<forall>t. mesh_step E s t \<longrightarrow>
      (ledger_step (ucast (EpochLength p)) L)\<^sup>=\<^sup>= (ledgerOf E s) (ledgerOf E t)) \<and>
    (\<forall>c. 0 \<le> totalOf E s c \<and> totalOf E s c \<le> L \<and> (limitOf E s c = None \<longrightarrow> totalOf E s c = 0))"
proof -
  note reachable = mesh_machine.reachable_refines [OF assms(1,3,4,5,2)]
  note inv = mesh_machine.reachable_inv [OF assms(1,3,4,5,2)]
  have "ledgerInv L (ledgerOf E s)"
    by (rule ledger_reachable_inv [OF reachable assms(5)])
  then show ?thesis
    using reachable mesh_machine.mesh_step_refines [OF assms(1) inv assms(4,2)]
    by (simp add: ledgerInv_def)
qed

lemma ledger_refinement_witness:
  "ledger_reachable 5 100 (ledgerOf ref_sdk ref_slashed) \<and> totalOf ref_sdk ref_slashed [50] = 0 \<and>
    totalOf ref_sdk ref_slashed [49] \<le> 100"
proof -
  have "limitOf ref_sdk ref_slashed [50] = None"
    by code_simp
  then show ?thesis
    using ledger_refinement [OF ref_machine.mesh_machine_axioms ref_wasmRuns ref_reachable(4) ref_total]
    by (simp add: ref_params0_def)
qed

text \<open>
  C3. Every way into the module is covered. On a chain that starts from a genesis file and then
  calls the module in any order through its entry points, by messages of contracts, proposals,
  staking hooks, the decorated staking and slashing keepers, block hooks, and whatever the other
  modules do to their own state, every state is a reachable state of the machine, and the ledger
  it stands for is one that the abstract ledger can reach. Calls into contracts are assumed to
  record no validator changes themselves (\<open>wasmRuns\<close>); all other calls of hooks are covered.
\<close>

theorem chain_calls_refine:
  assumes "mesh_validators E valid_denom" and "wasmRuns E"
    and "TotalContractsMaxCap p = Coin d (Some L)" and "0 \<le> L"
    and "emptyChain E s0" and "UnmarshalJSON cdc bz = Ok (NewGenesisState p)"
    and "Module_InitGenesis (NewAppModule cdc E) cdc bz s0 = (Ok us, s)"
    and "(chain_call cdc E)\<^sup>*\<^sup>* s t"
  shows "mesh_reachable E p t \<and> ledger_reachable (ucast (EpochLength p)) L (ledgerOf E t)"
proof -
  note machine = mesh_validators.axioms(1) [OF assms(1)]
  have "InitGenesis E (NewGenesisState p) s0 = (Ok (), s)"
    using assms(6,7) by (auto simp: Module_InitGenesis_def NewAppModule_def NewAppModuleX_def act_simps bindA_def
        split: prod.splits result.splits)
  then have start: "mesh_reachable E p s"
    by (rule mesh_reachable.genesis [OF assms(5)])
  from assms(8) have reach: "mesh_reachable E p t"
  proof (induction rule: rtranclp_induct)
    case (step t u)
    have "wfAmounts E t"
      using mesh_machine.reachable_inv [OF machine step.IH assms(3,4,2)] by (simp add: meshInv_def)
    then show ?case
      by (rule reachable_run [OF mesh_validators.chain_call_run [OF assms(1) step(2)] step.IH])
  qed (use start in simp)
  then show ?thesis
    using mesh_machine.reachable_refines [OF machine reach assms(3,4,2)] by simp
qed

lemma chain_calls_refine_witness:
  "mesh_reachable ref_sdk ref_params0 ref_joined \<and> ledger_reachable 5 100 (ledgerOf ref_sdk ref_joined)"
  using chain_calls_refine [OF ref_validators.mesh_validators_axioms ref_wasmRuns ref_total _ ref_empty _
      ref_genesis_call ref_calls]
  by (simp add: ref_genesis_codec_def ref_params0_def)

text \<open>
  C4. Regular rebalances. When the epoch length is not zero, a contract never has more than one
  repeating task, which lies between the current block and one epoch ahead, and every contract
  with a positive limit has one: whatever happened since genesis, the block end will call it
  within an epoch. Calls into contracts are assumed to record no validator changes (\<open>wasmRuns\<close>).
\<close>

theorem regular_rebalance:
  assumes "mesh_machine E valid_denom" and "wasmRuns E" and "mesh_reachable E p s"
    and "TotalContractsMaxCap p = Coin d (Some L)" and "0 \<le> L" and "EpochLength p \<noteq> 0"
  shows "(\<forall>h. taskAt E s SchedulerTaskHandleEpoch h c = Some True \<longrightarrow>
      height s \<le> h \<and> unat h \<le> unat (height s) + unat (EpochLength p) \<and>
      (\<forall>h'. taskAt E s SchedulerTaskHandleEpoch h' c = Some True \<longrightarrow> h' = h)) \<and>
    (\<forall>n. limitOf E s c = Some n \<longrightarrow> 0 < n \<longrightarrow>
      (\<exists>h. taskAt E s SchedulerTaskHandleEpoch h c = Some True))"
proof -
  have epoch: "(ucast (EpochLength p) :: u64) \<noteq> 0" "unat (ucast (EpochLength p) :: u64) = unat (EpochLength p)"
    using assms(6) ucast_epoch by simp_all
  have "agendaInv (ucast (EpochLength p)) (ledgerOf E s)"
    by (rule ledger_reachable_agenda [OF mesh_machine.reachable_refines [OF assms(1,3,4,5,2)] epoch(1)])
  from agendaInvD [OF this] agendaInv_positive [OF this] show ?thesis
    unfolding repeatsAt_def ledgerOf_sel epoch(2) by blast
qed

lemma regular_rebalance_witness:
  "\<exists>h. taskAt ref_sdk ref_slashed SchedulerTaskHandleEpoch h [49] = Some True \<and> unat h \<le> 15"
proof -
  have "limitOf ref_sdk ref_slashed [49] = Some 40" and "height ref_slashed = 10"
    by code_simp+
  moreover have "EpochLength ref_params0 = 5"
    by (simp add: ref_params0_def)
  ultimately show ?thesis
    using regular_rebalance [OF ref_machine.mesh_machine_axioms ref_wasmRuns ref_reachable(4) ref_total, of "[49]"]
    by auto
qed

text \<open>
  C5. Contracts are called within every epoch. When a contract has a positive limit in a
  reachable state and keeps a positive limit on a run that ends more than an epoch later, then on
  this run there is a block end, at most an epoch after the start, that calls the contract with
  the epoch message; the call is committed when it comes through and leaves no trace when it
  fails. And blocks go on: there are such runs of any length. Calls into contracts are assumed
  to record no validator changes (\<open>wasmRuns\<close>).
\<close>

theorem epoch_called:
  assumes "mesh_machine E valid_denom" and "wasmRuns E" and "mesh_reachable E p s"
    and "TotalContractsMaxCap p = Coin d (Some L)" and "0 \<le> L" and "EpochLength p \<noteq> 0"
    and "limitOf E s c = Some n" and "0 < n"
  shows "(\<forall>t. (keeps_limit E c)\<^sup>*\<^sup>* s t \<and> unat (height s) + unat (EpochLength p) < unat (height t) \<longrightarrow>
      (\<exists>u v. (keeps_limit E c)\<^sup>*\<^sup>* s u \<and> epoch_call E c u v \<and> (keeps_limit E c)\<^sup>*\<^sup>* v t \<and>
        unat (height u) \<le> unat (height s) + unat (EpochLength p))) \<and>
    (\<forall>k. unat (height s) + k < 2 ^ 63 \<longrightarrow>
      (\<exists>t. (keeps_limit E c)\<^sup>*\<^sup>* s t \<and> unat (height t) = unat (height s) + k))"
proof -
  note inv = mesh_machine.reachable_inv [OF assms(1,3,4,5,2)]
  have epoch: "(ucast (EpochLength p) :: u64) \<noteq> 0" "unat (ucast (EpochLength p) :: u64) = unat (EpochLength p)"
    using assms(6) ucast_epoch by simp_all
  have "agendaInv (ucast (EpochLength p)) (ledgerOf E s)"
    by (rule ledger_reachable_agenda [OF mesh_machine.reachable_refines [OF assms(1,3,4,5,2)] epoch(1)])
  then obtain h where h: "taskAt E s SchedulerTaskHandleEpoch h c = Some True"
    and bound: "unat h \<le> unat (height s) + unat (EpochLength p)"
    using agendaInv_positive [of "ucast (EpochLength p)" "ledgerOf E s" c n] agendaInvD(2) [of "ucast (EpochLength p)" "ledgerOf E s" c]
      assms(7,8) unfolding repeatsAt_def ledgerOf_sel epoch(2) by blast
  have "\<exists>u v. (keeps_limit E c)\<^sup>*\<^sup>* s u \<and> epoch_call E c u v \<and> (keeps_limit E c)\<^sup>*\<^sup>* v t \<and>
      unat (height u) \<le> unat (height s) + unat (EpochLength p)"
    if "(keeps_limit E c)\<^sup>*\<^sup>* s t" "unat (height s) + unat (EpochLength p) < unat (height t)" for t
  proof -
    have "h < height t"
      using that(2) bound by (simp add: word_less_nat_alt)
    then show ?thesis
      by (rule mesh_machine.called_by [OF assms(1) that(1) inv assms(4,2) h]) (use bound in blast)
  qed
  with mesh_machine.blocks_go_on [OF assms(1) inv assms(4,2,7,8)] show ?thesis
    by blast
qed

lemma epoch_called_witness:
  "\<exists>u v. epoch_call ref_sdk [49] u v \<and> unat (height u) \<le> 15"
proof -
  have s: "limitOf ref_sdk ref_slashed [49] = Some 40" "height ref_slashed = 10" "EpochLength ref_params0 = 5"
    by (code_simp, code_simp, simp add: ref_params0_def)
  note called = epoch_called [OF ref_machine.mesh_machine_axioms ref_wasmRuns ref_reachable(4) ref_total _ _ s(1)]
  have "\<forall>k. unat (height ref_slashed) + k < 2 ^ 63 \<longrightarrow>
      (\<exists>t. (keeps_limit ref_sdk [49])\<^sup>*\<^sup>* ref_slashed t \<and> unat (height t) = unat (height ref_slashed) + k)"
    by (rule called [THEN conjunct2]) (simp_all add: s(3))
  from spec [OF this, of 6] obtain t where "(keeps_limit ref_sdk [49])\<^sup>*\<^sup>* ref_slashed t" "unat (height t) = 16"
    by (auto simp: s(2))
  moreover have "\<forall>t. (keeps_limit ref_sdk [49])\<^sup>*\<^sup>* ref_slashed t \<and> 15 < unat (height t) \<longrightarrow>
      (\<exists>u v. (keeps_limit ref_sdk [49])\<^sup>*\<^sup>* ref_slashed u \<and> epoch_call ref_sdk [49] u v \<and>
        (keeps_limit ref_sdk [49])\<^sup>*\<^sup>* v t \<and> unat (height u) \<le> 15)"
    using called by (simp add: s(2,3))
  ultimately show ?thesis
    by fastforce
qed

section \<open>The block end\<close>

text \<open>
  C6. With the default response handler a block end always comes through, and it leaves the
  task table as follows: no validator set update and no epoch task of this block or earlier
  is left, every one of them that repeats is registered one epoch ahead, and all other tasks
  are untouched. It does not matter which contracts failed.
\<close>

theorem EndBlocker_task_table:
  assumes "block_end E valid_denom" and "goodSudo E" and "wfTasks E s"
    and "GetMaxSudoGas E s = Ok g" and "GetRebalanceEpochLength E s = Ok epoch"
    and "height s \<le> height s + epoch"
  shows "\<exists>t. EndBlocker E DefaultExecutionResponseHandler s = (Ok (), t) \<and>
    height t = height s \<and> GetParams E t = GetParams E s \<and> wfTasks E t \<and>
    (\<forall>tp h c. taskAt E t tp h c =
      (if tp = SchedulerTaskValsetUpdate \<or> tp = SchedulerTaskHandleEpoch then
        (if h \<le> height s then None
         else if epoch \<noteq> 0 \<and> h = height s + epoch \<and> (\<exists>h0 \<le> height s. taskAt E s tp h0 c = Some True)
         then Some True else taskAt E s tp h c)
       else taskAt E s tp h c))"
  by (rule block_end.EndBlocker_eq [OF assms]) blast

lemma EndBlocker_task_table_witness:
  "\<exists>t. EndBlocker ref_sdk DefaultExecutionResponseHandler ref_slashed = (Ok (), t) \<and>
    taskAt ref_sdk t SchedulerTaskValsetUpdate 10 [49] = None \<and>
    taskAt ref_sdk t SchedulerTaskHandleEpoch 15 [49] = taskAt ref_sdk ref_slashed SchedulerTaskHandleEpoch 15 [49]"
proof -
  have h: "height ref_slashed = 10"
    by (simp add: ref_slashed_def ref_bonded_def ref_capped_def ref_genesis_def ref_start_def)
  obtain t where "EndBlocker ref_sdk DefaultExecutionResponseHandler ref_slashed = (Ok (), t)"
    and "\<forall>tp h c. taskAt ref_sdk t tp h c =
      (if tp = SchedulerTaskValsetUpdate \<or> tp = SchedulerTaskHandleEpoch then
        (if h \<le> height ref_slashed then None
         else if (5 :: u64) \<noteq> 0 \<and> h = height ref_slashed + 5 \<and>
           (\<exists>h0 \<le> height ref_slashed. taskAt ref_sdk ref_slashed tp h0 c = Some True)
         then Some True else taskAt ref_sdk ref_slashed tp h c)
       else taskAt ref_sdk ref_slashed tp h c)"
    using EndBlocker_task_table [OF ref_machine.block_end_axioms ref_machine.wasmRuns_goodSudo [OF ref_wasmRuns]
        ref_wf(8) ref_limits_at(1,2)] h
    by auto
  moreover have "taskAt ref_sdk ref_slashed SchedulerTaskHandleEpoch 15 [49] = Some True"
    by code_simp
  ultimately show ?thesis
    by (auto simp: h)
qed

text \<open>
  C7. What contracts hear at a block end. A called contract may bond, unbond, change the other
  modules, and through their hooks record further validator changes (\<open>hookedRuns\<close>). In every
  reachable state the block end comes through all the same. Its first part calls every contract
  with a due update task, in order: each is told all changes recorded so far, those recorded when
  the block end began among them, slashes scaled to its own share, and either it is told without
  an error or it leaves no trace. Then no change is stored any more, so a change that a call
  recorded is lost for the contracts called before it. When no call records a change
  (\<open>silentCalls\<close>) all contracts are told exactly the changes recorded when the block end began,
  and none is left after it.
\<close>

theorem block_end_announces:
  assumes "mesh_machine E valid_denom" and "hookedRuns E" and "mesh_reachable E p s"
    and "TotalContractsMaxCap p = Coin d (Some L)" and "0 \<le> L" and "height s < 2 ^ 63"
  shows "\<exists>rs s1 s2 t.
    ExecScheduledTasks E SchedulerTaskValsetUpdate (ucast (EpochLength p)) (valsetUpdateTask E) s = (Ok rs, s1) \<and>
    map Contract rs = map (fst \<circ> snd) (dueTasks E s SchedulerTaskValsetUpdate (height s)) \<and>
    heard E (pipedOps E s) rs s s1 \<and>
    ClearPipedValsetOperations E s1 = (Ok (), s2) \<and> pipedOps E s2 = [] \<and>
    EndBlocker E DefaultExecutionResponseHandler s = (Ok (), t) \<and>
    (silentCalls E \<longrightarrow> broadcast E (pipedOps E s) rs s s1 \<and> pipedOps E t = [])"
  by (rule mesh_machine.block_end_hears
      [OF assms(1) mesh_machine.reachable_core [OF assms(1,3,4,5,2)] assms(2,6)]) blast

lemma block_end_announces_witness:
  "(\<exists>res s1. broadcast ref_sdk [([86], ValidatorSlashed, Some (swapHeights ref_slash))] [res] ref_slashed s1 \<and>
    Contract res = [49]) \<and>
   (\<exists>rs s1. heard hook_sdk [([86], ValidatorSlashed, Some (swapHeights ref_slash))] rs hook_slashed s1 \<and>
    map Contract rs = [[49], [50]])"
proof
  have "pipedOps ref_sdk ref_slashed = [([86], ValidatorSlashed, Some (swapHeights ref_slash))]"
    "map (fst \<circ> snd) (dueTasks ref_sdk ref_slashed SchedulerTaskValsetUpdate (height ref_slashed)) = [[49]]"
    "height ref_slashed = 10"
    by code_simp+
  moreover from this(3) have "height ref_slashed < 2 ^ 63"
    by simp
  ultimately obtain rs s1 where "map Contract rs = [[49]]"
    and "broadcast ref_sdk [([86], ValidatorSlashed, Some (swapHeights ref_slash))] rs ref_slashed s1"
    using block_end_announces [OF ref_machine.mesh_machine_axioms wasmRuns_hooked [OF ref_wasmRuns] ref_reachable(4) ref_total]
      mesh_machine.wasmRuns_silent [OF ref_machine.mesh_machine_axioms ref_wasmRuns]
    by (metis zero_le_numeral)
  then show "\<exists>res s1. broadcast ref_sdk [([86], ValidatorSlashed, Some (swapHeights ref_slash))] [res] ref_slashed s1 \<and>
      Contract res = [49]"
    by (auto simp: map_eq_Cons_conv)
next
  have "pipedOps hook_sdk hook_slashed = [([86], ValidatorSlashed, Some (swapHeights ref_slash))]"
    by code_simp
  moreover have "map (fst \<circ> snd) (dueTasks hook_sdk hook_slashed SchedulerTaskValsetUpdate (height hook_slashed)) = [[49], [50]]"
    by code_simp
  moreover have "height hook_slashed < 2 ^ 63"
    using hook_height by simp
  ultimately show "\<exists>rs s1. heard hook_sdk [([86], ValidatorSlashed, Some (swapHeights ref_slash))] rs hook_slashed s1 \<and>
      map Contract rs = [[49], [50]]"
    using block_end_announces [OF hook_machine.mesh_machine_axioms hook_hookedRuns hook_reachable ref_total]
    by (metis zero_le_numeral)
qed

text \<open>
  C8. A validator change reaches the contracts. When a change is recorded in a reachable state,
  then whatever else happens in the same block, at its end every contract that had a positive
  limit when the change was recorded is served exactly once with a list of changes that has it:
  either the contract is told without an error, or its call leaves no trace. Calls into
  contracts are assumed to record no changes themselves (\<open>wasmRuns\<close>); what happens when they do
  is in C7.
\<close>

theorem change_reaches_contracts:
  assumes "mesh_machine E valid_denom" and "wasmRuns E" and "mesh_reachable E p s"
    and "TotalContractsMaxCap p = Coin d (Some L)" and "0 \<le> L"
    and "goodOp op val si" and "sendAsync E op val si s = (Ok (), t)"
    and "(in_block E)\<^sup>*\<^sup>* t u" and "height u < 2 ^ 63"
  shows "\<exists>rs rs' u1 v. EndBlocker E DefaultExecutionResponseHandler u = (Ok (), v) \<and>
    block_calls E u rs rs' v \<and> served E (announcement E (pipedOps E u)) rs u u1 \<and>
    reportedOp op val si \<in> set (pipedOps E u) \<and> distinct (map Contract rs) \<and>
    (\<forall>c n. limitOf E s c = Some n \<and> 0 < n \<longrightarrow> c \<in> set (map Contract rs))"
  by (rule mesh_machine.change_told [OF assms(1) mesh_machine.reachable_inv [OF assms(1,3,4,5,2)] assms(4,2,6-9)])
    blast

lemma change_reaches_contracts_witness:
  "\<exists>rs u1. served ref_sdk (announcement ref_sdk (pipedOps ref_sdk ref_slashed)) rs ref_slashed u1 \<and>
    [49] \<in> set (map Contract rs) \<and> distinct (map Contract rs)"
proof -
  have "limitOf ref_sdk ref_bonded [49] = Some 40" and "height ref_slashed = 10"
    by code_simp+
  moreover from this(2) have "height ref_slashed < 2 ^ 63"
    by simp
  ultimately show ?thesis
    using change_reaches_contracts [OF ref_machine.mesh_machine_axioms ref_wasmRuns ref_reachable(3) ref_total _
        ref_goodOp ref_slashed_step rtranclp.rtrancl_refl]
    by (metis zero_less_numeral zero_le_numeral)
qed

section \<open>Running tasks\<close>

text \<open>
  C9. Running the due tasks of a type with a callback that leaves the scheduler alone: there
  is one result per due task, in the order of height and contract, none of them with a
  rescheduling or deletion error; afterwards no task of the type is due, the repeating ones are
  registered one epoch ahead, and later tasks and other types are as before.
\<close>

theorem ExecScheduledTasks_table:
  assumes "task_runner E" and "goodExecutor E cb" and "tp \<noteq> SchedulerTaskUndefined"
    and "GetMaxSudoGas E s = Ok g" and "wfTasks E s" and "height s \<le> height s + epoch"
  shows "\<exists>rs t. ExecScheduledTasks E tp epoch cb s = (Ok rs, t) \<and>
    map Contract rs = map (fst \<circ> snd) (dueTasks E s tp (height s)) \<and>
    list_all (\<lambda>r. RescheduleErr r = None \<and> DeleteTaskErr r = None \<and> GasLimit r = g) rs \<and>
    (\<forall>tp' h c. taskAt E t tp' h c =
      (if tp' = tp \<and> h \<le> height s then None
       else if tp' = tp \<and> epoch \<noteq> 0 \<and> h = height s + epoch \<and>
         (\<exists>h0 \<le> height s. taskAt E s tp h0 c = Some True) then Some True
       else taskAt E s tp' h c))"
  by (rule task_runner.ExecScheduledTasks_eq [OF assms]) (unfold list_all_iff, blast)

lemma ExecScheduledTasks_table_witness:
  "\<exists>rs t. ExecScheduledTasks ref_sdk SchedulerTaskValsetUpdate 5 (SendHandleEpoch ref_sdk) ref_slashed = (Ok rs, t) \<and>
    map Contract rs = [[49]]"
proof -
  have "map (fst \<circ> snd) (dueTasks ref_sdk ref_slashed SchedulerTaskValsetUpdate (height ref_slashed)) = [[49]]"
    by code_simp
  moreover have "height ref_slashed \<le> height ref_slashed + 5"
    by code_simp
  moreover have "SchedulerTaskValsetUpdate \<noteq> SchedulerTaskUndefined"
    by (simp add: task_defs)
  ultimately show ?thesis
    using ExecScheduledTasks_table [OF ref_machine.task_runner_axioms
        goodExecutor_epoch [OF ref_machine.wasmRuns_goodSudo [OF ref_wasmRuns]] _ ref_limits_at(1) ref_wf(8)]
    by fastforce
qed

text \<open>
  C10. A task whose callback returns an error or panics, or runs out of gas, leaves no trace
  outside the scheduler: all other store entries, the memory store and the other modules'
  state are as before, the task is gone, and a repeating one is registered again.
\<close>

theorem execTask_failure_isolated:
  assumes "task_runner E" and "tp \<noteq> SchedulerTaskUndefined" and "GetMaxSudoGas E s = Ok g"
    and "execTask E tp epoch cb c h r s = (Ok res, t)" and "ExecErr res \<noteq> None"
  shows "tasksOnly E s t \<and> taskAt E t tp h c = None \<and>
    (r \<and> epoch \<noteq> 0 \<and> height s \<le> height s + epoch \<and> h \<noteq> height s + epoch \<longrightarrow>
      taskAt E t tp (height s + epoch) c = Some True)"
proof -
  obtain res' t' where run: "execTask E tp epoch cb c h r s = (Ok res', t')"
    and err: "ExecErr res' = meteredErr E g (cb c) s"
    and only: "tasksOnly E (branchState E g (cb c) s) t'"
    and at: "\<And>tp' h' c'. taskAt E t' tp' h' c' =
      (if (tp', h', c') = (tp, h, c) then None
       else if task_runner.registeredAgain tp epoch c r s \<and> (tp', h', c') = (tp, height s + epoch, c) then Some True
       else taskAt E (branchState E g (cb c) s) tp' h' c')"
    by (rule task_runner.execTask_eq [OF assms(1-3), where ep = epoch and cb = cb and c = c and h = h
          and r = r]) (rule that; assumption)
  have "res' = res" "t' = t"
    using run assms(4) by simp_all
  moreover from this have "branchState E g (cb c) s = s"
    using err assms(5) by (auto simp: branchState_def)
  ultimately show ?thesis
    using only at by (simp add: task_runner.registeredAgain_def [OF assms(1)])
qed

lemma execTask_failure_isolated_witness:
  "tasksOnly ref_sdk ref_slashed
     (snd (execTask ref_sdk SchedulerTaskHandleEpoch 5 (SendHandleEpoch ref_sdk) [50] 10 True ref_slashed)) \<and>
   taskAt ref_sdk (snd (execTask ref_sdk SchedulerTaskHandleEpoch 5 (SendHandleEpoch ref_sdk) [50] 10 True
     ref_slashed)) SchedulerTaskHandleEpoch 10 [50] = None"
proof -
  let ?run = "execTask ref_sdk SchedulerTaskHandleEpoch 5 (SendHandleEpoch ref_sdk) [50] 10 True ref_slashed"
  have "case fst ?run of Ok res \<Rightarrow> ExecErr res = Some ErrPanic | _ \<Rightarrow> False"
    by code_simp
  then obtain res where "?run = (Ok res, snd ?run)" "ExecErr res \<noteq> None"
    by (cases ?run) (auto split: result.splits)
  moreover have "SchedulerTaskHandleEpoch \<noteq> SchedulerTaskUndefined"
    by (simp add: task_defs)
  ultimately show ?thesis
    using execTask_failure_isolated [OF ref_machine.task_runner_axioms _ ref_limits_at(1)] by blast
qed

text \<open>
  C11. The loop over due tasks ends. Read as a loop that looks at the store anew before every
  step, where a callback could keep it going for ever by adding entries ahead of it, the run of
  the due tasks still returns, with the same results and the same state as the run over the
  entries at its start: a task that repeats is registered behind the last height the loop visits.
\<close>

theorem due_tasks_loop_ends:
  assumes "task_runner E" and "goodExecutor E cb" and "tp \<noteq> SchedulerTaskUndefined"
    and "GetMaxSudoGas E s = Ok g" and "wfTasks E s" and "height s \<le> height s + epoch"
  shows "\<exists>rs t. liveTasks E (SchedulerKeyPrefix @ [tp]) (height s) (execCallback E tp epoch cb) None ([], s) =
      Some (Ok (), rs, t) \<and>
    ExecScheduledTasks E tp epoch cb s = (Ok rs, t) \<and>
    map Contract rs = map (fst \<circ> snd) (dueTasks E s tp (height s))"
proof -
  note live = task_runner.liveTasks_exec [OF assms(1-6), of "[]"]
  obtain rs t where rs: "ExecScheduledTasks E tp epoch cb s = (Ok rs, t)"
    and contracts: "map Contract rs = map (fst \<circ> snd) (dueTasks E s tp (height s))"
    by (rule task_runner.ExecScheduledTasks_eq [OF assms]) (rule that; assumption)
  obtain r rs' t' where run: "IterateScheduledTasks E tp (height s) (execCallback E tp epoch cb) ([], s) = (r, rs', t')"
    by (cases "IterateScheduledTasks E tp (height s) (execCallback E tp epoch cb) ([], s)") auto
  then have "r = Ok () \<and> rs' = rs \<and> t' = t"
    using rs by (cases r) (auto simp: ExecScheduledTasks_def withLocal_def act_simps)
  with live run rs contracts show ?thesis by simp
qed

lemma due_tasks_loop_ends_witness:
  "\<exists>rs t. liveTasks ref_sdk (SchedulerKeyPrefix @ [SchedulerTaskValsetUpdate]) 10
      (execCallback ref_sdk SchedulerTaskValsetUpdate 5 (SendHandleEpoch ref_sdk)) None ([], ref_slashed) =
      Some (Ok (), rs, t) \<and> map Contract rs = [[49]]"
proof -
  have "height ref_slashed \<le> height ref_slashed + 5" "height ref_slashed = 10"
    "map (fst \<circ> snd) (dueTasks ref_sdk ref_slashed SchedulerTaskValsetUpdate (height ref_slashed)) = [[49]]"
    by code_simp+
  moreover have "SchedulerTaskValsetUpdate \<noteq> SchedulerTaskUndefined"
    by (simp add: task_defs)
  ultimately show ?thesis
    using due_tasks_loop_ends [OF ref_machine.task_runner_axioms
        goodExecutor_epoch [OF ref_machine.wasmRuns_goodSudo [OF ref_wasmRuns]] _ ref_limits_at(1) ref_wf(8)]
    by fastforce
qed

section \<open>Virtual staking\<close>

text \<open>
  C12. A successful delegation is of a positive amount of the bond denomination to a known
  validator; it raises the contract's total by exactly that amount, to at most the contract's
  limit, and changes no other key of the module's store and no task; the state stays readable.
\<close>

theorem Delegate_within_limit:
  assumes "keeper E valid_denom" and "bondGood E valid_denom s"
    and "Delegate E actor valAddr amt s = (Ok shares, t)"
  shows "\<exists>n v. amount amt = Some n \<and> 0 < n \<and> denom amt = staking_BondDenom E (ext s) \<and>
    staking_GetValidator E (ext s) valAddr = Some v \<and>
    totalOf E t actor = totalOf E s actor + n \<and> totalOf E t actor \<le> capOf E s actor \<and>
    (\<forall>k. k \<noteq> BuildTotalDelegatedAmountKey actor \<longrightarrow> kv_Get E (store t) k = kv_Get E (store s) k) \<and>
    wfAmounts E t"
proof -
  have wf: "wfAmounts E s" "valid_denom (staking_BondDenom E (ext s))"
    using assms(2) by (simp_all add: bondGood_def)
  show ?thesis
    by (rule keeper.Delegate_cases [OF assms(1) wf assms(3)])
      (auto simp: onlyTotalD(1) onlyTotal_def)
qed

lemma Delegate_within_limit_witness:
  "totalOf ref_sdk (snd (Delegate ref_sdk [49] [86] (Coin ''stake'' (Some 30)) ref_capped)) [49] \<le>
     capOf ref_sdk ref_capped [49]"
proof -
  let ?run = "Delegate ref_sdk [49] [86] (Coin ''stake'' (Some 30)) ref_capped"
  have "case fst ?run of Ok sh \<Rightarrow> sh = 30000000000000000000 | _ \<Rightarrow> False"
    by code_simp
  then have "?run = (Ok 30000000000000000000, snd ?run)"
    by (cases ?run) (auto split: result.splits)
  from Delegate_within_limit [OF ref_keeper.keeper_axioms _ this] ref_wf(2) show ?thesis
    by (auto simp: bondGood_def)
qed

text \<open>
  C13. The checks of a delegation, in the order of the code: each failing check returns its
  error and leaves the state as it was, and what passes them all runs on a branch.
\<close>

theorem Delegate_checks:
  assumes "keeper E valid_denom" and "bondGood E valid_denom s"
  shows "Delegate E actor valAddr amt s =
    (case amount amt of
       None \<Rightarrow> (Err ErrInvalidRequest, s)
     | Some n \<Rightarrow>
         if n \<le> 0 then (Err ErrInvalidRequest, s)
         else if denom amt \<noteq> staking_BondDenom E (ext s) then (Err ErrInvalidRequest, s)
         else (case staking_GetValidator E (ext s) valAddr of
           None \<Rightarrow> (Err ErrNoValidatorFound, s)
         | Some v \<Rightarrow>
             if \<not> int256 (totalOf E s actor + n) then (Panic, s)
             else if capOf E s actor < totalOf E s actor + n then (Err ErrMaxCapExceeded, s)
             else bindA (cacheContext (bindA (delegateOnBranch E actor v amt n
                 (Coin (staking_BondDenom E (ext s)) (Some (totalOf E s actor + n))))
                 (\<lambda>sh. ret (sh, True)))) liftR s))"
proof -
  have wf: "wfAmounts E s" "valid_denom (staking_BondDenom E (ext s))"
    using assms(2) by (simp_all add: bondGood_def)
  show ?thesis
    unfolding keeper.Delegate_eq [OF assms(1) wf]
    by (auto simp: positiveAmount_def split: option.split)
qed

lemma Delegate_checks_witness:
  "Delegate ref_sdk [49] [86] (Coin ''stake'' (Some 41)) ref_capped = (Err ErrMaxCapExceeded, ref_capped)"
proof -
  have "capOf ref_sdk ref_capped [49] = 40" "totalOf ref_sdk ref_capped [49] = 0"
    "staking_GetValidator ref_sdk (ext ref_capped) [86] = Some ref_val"
    by code_simp+
  then show ?thesis
    using Delegate_checks [OF ref_keeper.keeper_axioms, of ref_capped "[49]" "[86]" "Coin ''stake'' (Some 41)"] ref_wf(2)
    by (simp add: bondGood_def int256_def)
qed

text \<open>
  C14. A delegation the staking module rejects is committed all the same: when the amount passes
  the checks and the coins are minted, booked and sent to the contract, and staking then returns
  an error, \<open>Delegate\<close> returns that error, but the branch with the minted coins becomes the state,
  and the contract's total is raised by the amount. Nothing else of the module's store changes.
  (Staking's bond denomination is taken to be the same after the failed call.)
\<close>

theorem Delegate_error_commits:
  assumes "keeper E valid_denom" and "bondGood E valid_denom s"
    and "amount amt = Some n" and "0 < n" and "denom amt = staking_BondDenom E (ext s)"
    and "staking_GetValidator E (ext s) valAddr = Some v" and "int256 (totalOf E s actor + n)"
    and "totalOf E s actor + n \<le> capOf E s actor"
    and "Coins_New E amt = Ok cs" and "bank_MintCoins E ModuleName cs (ext s) = (Ok (), x1)"
    and "bank_AddSupplyOffset E (denom amt) (- n) x1 = (Ok (), x2)"
    and "bank_SendCoinsFromModuleToAccount E ModuleName actor cs x2 = (Ok (), x3)"
    and "staking_Delegate E actor n v x3 = (Err e, x4)" and "staking_BondDenom E x4 = denom amt"
  shows "\<exists>t. Delegate E actor valAddr amt s = (Err e, t) \<and> ext t = x4 \<and>
    totalOf E t actor = totalOf E s actor + n \<and> onlyTotal E actor (totalOf E s actor + n) s t"
proof -
  have wf: "wfAmounts E s" "valid_denom (staking_BondDenom E (ext s))"
    using assms(2) by (simp_all add: bondGood_def)
  show ?thesis
    by (rule keeper.Delegate_commits [OF assms(1) wf assms(3-13) _ assms(14)]) (use onlyTotalD(1) in fastforce)+
qed

lemma Delegate_error_commits_witness:
  "\<exists>t. Delegate ref_sdk [49] [87] (Coin ''stake'' (Some 30)) ref_capped = (Err (ErrOther ''exchange rate''), t) \<and>
    totalOf ref_sdk t [49] = 30"
proof -
  let ?cs = "[Coin ''stake'' (Some 30)]"
  let ?x1 = "(ext ref_capped)\<lparr>r_supply := (''stake'', 30) # r_supply (ext ref_capped)\<rparr>"
  let ?x2 = "?x1\<lparr>r_offset := (''stake'', - 30) # r_offset ?x1\<rparr>"
  have at: "capOf ref_sdk ref_capped [49] = 40" "totalOf ref_sdk ref_capped [49] = 0"
    "staking_GetValidator ref_sdk (ext ref_capped) [87] = Some ref_bad_val"
    "Coins_New ref_sdk (Coin ''stake'' (Some 30)) = Ok ?cs"
    "bank_MintCoins ref_sdk ModuleName ?cs (ext ref_capped) = (Ok (), ?x1)"
    "bank_AddSupplyOffset ref_sdk ''stake'' (- 30) ?x1 = (Ok (), ?x2)"
    "bank_SendCoinsFromModuleToAccount ref_sdk ModuleName [49] ?cs ?x2 = (Ok (), ?x2)"
    "staking_Delegate ref_sdk [49] 30 ref_bad_val ?x2 = (Err (ErrOther ''exchange rate''), ?x2)"
    "staking_BondDenom ref_sdk ?x2 = ''stake''" "staking_BondDenom ref_sdk (ext ref_capped) = ''stake''"
    by code_simp+
  show ?thesis
    using Delegate_error_commits [OF ref_keeper.keeper_axioms, of ref_capped "Coin ''stake'' (Some 30)" 30
        "[87]" ref_bad_val "[49]" ?cs ?x1 ?x2 ?x2 "ErrOther ''exchange rate''" ?x2] ref_wf(2) at
    by (auto simp: bondGood_def int256_def)
qed

text \<open>
  C15. An undelegation that does not succeed, by error or by panic, leaves the chain exactly as
  it was.
\<close>

theorem Undelegate_atomic:
  assumes "Undelegate E actor valAddr amt s = (r, t)" and "r \<noteq> Ok ()"
  shows "t = s"
  using Undelegate_not_Ok [OF assms(1)] assms(2) by simp

lemma Undelegate_atomic_witness:
  "snd (Undelegate ref_sdk [49] [86] (Coin ''stake'' (Some 31)) ref_bonded) = ref_bonded"
proof -
  have "fst (Undelegate ref_sdk [49] [86] (Coin ''stake'' (Some 31)) ref_bonded) \<noteq> Ok ()"
    by code_simp
  then show ?thesis
    using Undelegate_atomic [of ref_sdk "[49]" "[86]" "Coin ''stake'' (Some 31)" ref_bonded]
    by (metis prod.collapse)
qed

text \<open>
  C16. A successful undelegation is of a positive amount within the contract's total. Without
  a delegation it changes nothing; with one, the coins that staking gave back were taken from
  the contract and burned, the supply offset was raised by their amount, and the total went
  down by it and is not negative. No other key of the module's store changed.
\<close>

theorem Undelegate_burns:
  assumes "keeper E valid_denom" and "bondGood E valid_denom s"
    and "Undelegate E actor valAddr amt s = (Ok u, t)"
  shows "\<exists>n. amount amt = Some n \<and> 0 < n \<and> n \<le> totalOf E s actor \<and>
    (staking_ValidateUnbondAmount E (ext s) actor valAddr n = Err ErrNoDelegation \<and> t = s \<or>
     (\<exists>shares cs x1 x2 x3 m.
        staking_ValidateUnbondAmount E (ext s) actor valAddr n = Ok shares \<and>
        staking_InstantUndelegate E actor valAddr shares (ext s) = (Ok cs, x1) \<and>
        bank_SendCoinsFromAccountToModule E actor ModuleName cs x1 = (Ok (), x2) \<and>
        bank_BurnCoins E ModuleName cs x2 = (Ok (), x3) \<and>
        Coins_AmountOf E cs (denom amt) = Ok m \<and>
        bank_AddSupplyOffset E (denom amt) m x3 = (Ok (), ext t) \<and>
        totalOf E t actor = totalOf E s actor - m \<and> 0 \<le> totalOf E t actor \<and>
        (\<forall>k. k \<noteq> BuildTotalDelegatedAmountKey actor \<longrightarrow> kv_Get E (store t) k = kv_Get E (store s) k)))"
proof -
  have wf: "wfAmounts E s" "valid_denom (staking_BondDenom E (ext s))"
    using assms(2) by (simp_all add: bondGood_def)
  show ?thesis
  proof (rule keeper.Undelegate_OkD [OF assms(1) wf assms(3)], goal_cases)
    case (2 n shares cs x1 x2 x3 m)
    moreover from 2(13) have "totalOf E t actor = totalOf E s actor - m"
      "\<forall>k. k \<noteq> BuildTotalDelegatedAmountKey actor \<longrightarrow> kv_Get E (store t) k = kv_Get E (store s) k"
      using onlyTotalD(1) [OF 2(13)] by (simp_all add: onlyTotal_def)
    ultimately show ?case using 2(11,12) by fastforce
  qed blast
qed

lemma Undelegate_burns_witness:
  "\<exists>t. Undelegate ref_sdk [49] [86] (Coin ''stake'' (Some 10)) ref_bonded = (Ok (), t) \<and>
    0 \<le> totalOf ref_sdk t [49]"
proof -
  let ?run = "Undelegate ref_sdk [49] [86] (Coin ''stake'' (Some 10)) ref_bonded"
  have "fst ?run = Ok ()" and some: "staking_ValidateUnbondAmount ref_sdk (ext ref_bonded) [49] [86] 10 =
      Ok 10000000000000000000"
    by code_simp+
  then have run: "?run = (Ok (), snd ?run)"
    by (metis prod.collapse)
  from Undelegate_burns [OF ref_keeper.keeper_axioms _ run] ref_wf(3) some run show ?thesis
    by (auto simp: bondGood_def)
qed

text \<open>
  Virtual tokens do not inflate the supply: however a delegation ends, supply plus supply
  offset is the same for every denomination.
\<close>

lemma Delegate_keeps_supply:
  assumes "virtual_staking E valid_denom liquid" and "bondGood E valid_denom s"
  shows "liquid (ext (snd (Delegate E actor valAddr amt s))) = liquid (ext s)"
  using virtual_staking.Delegate_liquid [OF assms(1) _ _ prod.collapse [symmetric]] assms(2)
  by (simp add: bondGood_def)

lemma Delegate_keeps_supply_witness:
  "ref_liquid (ext (snd (Delegate ref_sdk [49] [86] (Coin ''stake'' (Some 30)) ref_capped))) ''stake'' = 0"
proof -
  have "ref_liquid (ext ref_capped) ''stake'' = 0"
    by code_simp
  then show ?thesis
    using Delegate_keeps_supply [OF ref_staking.virtual_staking_axioms] ref_wf(2)
    by (simp add: bondGood_def)
qed

text \<open>
  The same for undelegations and the bond denomination.
\<close>

lemma Undelegate_keeps_supply:
  assumes "virtual_staking E valid_denom liquid" and "bondGood E valid_denom s"
  shows "liquid (ext (snd (Undelegate E actor valAddr amt s))) (staking_BondDenom E (ext s)) =
    liquid (ext s) (staking_BondDenom E (ext s))"
  using virtual_staking.Undelegate_liquid [OF assms(1) _ _ prod.collapse [symmetric]] assms(2)
  by (simp add: bondGood_def)

lemma Undelegate_keeps_supply_witness:
  "ref_liquid (ext (snd (Undelegate ref_sdk [49] [86] (Coin ''stake'' (Some 10)) ref_bonded))) ''stake'' = 0"
proof -
  have "ref_liquid (ext ref_bonded) ''stake'' = 0"
    by code_simp
  then show ?thesis
    using Undelegate_keeps_supply [OF ref_staking.virtual_staking_axioms, of ref_bonded] ref_wf(3)
    by (simp add: bondGood_def)
qed

text \<open>
  The adapter's instant undelegation for the vanilla SDK: it fails without a validator
  before anything is unbonded; otherwise a success means that staking unbonded the shares and
  that exactly the unbonded amount, in the bond denomination, was paid out of the pool the
  validator's status selects.
\<close>

lemma InstantUndelegate_pays_out:
  assumes "InstantUndelegate E c va shares x = (r, x')"
  shows "(staking_GetValidator E x va = None \<longrightarrow> r = Err ErrNoDelegatorForAddress \<and> x' = x) \<and>
    (\<forall>cs. r = Ok cs \<longrightarrow> (\<exists>v n x1 coin. staking_GetValidator E x va = Some v \<and>
       staking_Unbond E c va shares x = (Ok n, x1) \<and>
       Coin_New E (staking_BondDenom E x1) (Some n) = Ok coin \<and> Coins_New E coin = Ok cs \<and>
       bank_UndelegateCoinsFromModuleToAccount E
         (if ValBonded v then BondedPoolName else NotBondedPoolName) c cs x1 = (Ok (), x')))"
  using assms
  by (auto simp: InstantUndelegate_def act_simps ok_iffs Let_def split: option.splits)

lemma InstantUndelegate_pays_out_witness:
  "\<exists>v n x1. staking_GetValidator ref_base (ext ref_bonded) [86] = Some v \<and>
     staking_Unbond ref_base [49] [86] 10000000000000000000 (ext ref_bonded) = (Ok n, x1)"
proof -
  let ?run = "InstantUndelegate ref_base [49] [86] 10000000000000000000 (ext ref_bonded)"
  have "fst ?run = Ok [Coin ''stake'' (Some 10)]"
    by code_simp
  with InstantUndelegate_pays_out [of ref_base "[49]" "[86]" _ "ext ref_bonded", OF prod.collapse [symmetric]]
  show ?thesis by metis
qed

section \<open>Contract messages\<close>

text \<open>
  C17. A custom message of a contract without a max cap limit never succeeds and changes
  nothing.
\<close>

theorem DispatchMsg_unlimited:
  assumes "keeper E valid_denom" and "limitOf E s contract = None"
    and "DispatchMsg E (NewDefaultCustomMsgHandler E) contract port msg s = (r, t)"
  shows "t = s \<and> (\<forall>evs. r \<noteq> Ok evs)"
  using keeper.DispatchMsg_no_limit [OF assms(1,3,2)] by blast

lemma DispatchMsg_unlimited_witness:
  "snd (DispatchMsg ref_sdk (NewDefaultCustomMsgHandler ref_sdk) [50] [] ref_bond ref_capped) = ref_capped"
proof -
  have "limitOf ref_sdk ref_capped [50] = None"
    by code_simp
  from DispatchMsg_unlimited [OF ref_keeper.keeper_axioms this prod.collapse [symmetric]]
  show ?thesis by blast
qed

text \<open>
  C18. Messages keep a contract within its limit: a total that is within the limit before a
  message is so afterwards, whatever the message, its sender and its outcome; totals and
  limits of contracts other than the sender are untouched.
\<close>

theorem DispatchMsg_within_limits:
  assumes "keeper E valid_denom" and "bondGood E valid_denom s"
    and "DispatchMsg E (NewDefaultCustomMsgHandler E) contract port msg s = (r, t)"
  shows "(totalOf E s c \<le> capOf E s c \<longrightarrow> totalOf E t c \<le> capOf E t c) \<and>
    (c \<noteq> contract \<longrightarrow> totalOf E t c = totalOf E s c \<and> capOf E t c = capOf E s c)"
  using keeper.DispatchMsg_limits [OF assms] keeper.DispatchMsg_others [OF assms] by blast

lemma DispatchMsg_within_limits_witness:
  "totalOf ref_sdk (snd (DispatchMsg ref_sdk (NewDefaultCustomMsgHandler ref_sdk) [49] [] ref_bond ref_capped)) [49]
    \<le> capOf ref_sdk (snd (DispatchMsg ref_sdk (NewDefaultCustomMsgHandler ref_sdk) [49] [] ref_bond ref_capped)) [49]"
proof -
  have "totalOf ref_sdk ref_capped [49] \<le> capOf ref_sdk ref_capped [49]"
    by code_simp
  then show ?thesis
    using DispatchMsg_within_limits [OF ref_keeper.keeper_axioms _ prod.collapse [symmetric]] ref_wf(2)
    by (simp add: bondGood_def)
qed

text \<open>
  C19. Virtual tokens do not inflate the supply: whatever message a contract sends and however it
  ends, supply plus supply offset of the bond denomination is what it was.
\<close>

theorem DispatchMsg_keeps_supply:
  assumes "virtual_staking E valid_denom liquid" and "bondGood E valid_denom s"
    and "DispatchMsg E (NewDefaultCustomMsgHandler E) contract port msg s = (r, t)"
  shows "liquid (ext t) (staking_BondDenom E (ext s)) = liquid (ext s) (staking_BondDenom E (ext s))"
  by (rule virtual_staking.DispatchMsg_liquid [OF assms])

lemma DispatchMsg_keeps_supply_witness:
  "ref_liquid (ext ref_bonded) ''stake'' = 0"
proof -
  have "ref_liquid (ext ref_capped) ''stake'' = 0"
    by code_simp
  then show ?thesis
    using DispatchMsg_keeps_supply [OF ref_staking.virtual_staking_axioms _ ref_bonded_step] ref_wf(2)
    by (simp add: bondGood_def)
qed

text \<open>
  C20. On the vanilla SDK there are no supply offsets: there the keeper that \<open>NewKeeper\<close> builds
  with the repository's adapters moves the supply of the bond denomination by exactly what the
  sender's total moves, whatever message the contract sends and however it ends.
\<close>

theorem vanilla_supply:
  assumes "vanilla_keeper E valid_denom supplyOf K cbs" and "bondGood K valid_denom s"
    and "DispatchMsg K (NewDefaultCustomMsgHandler K) contract port msg s = (r, t)"
  shows "supplyOf (ext t) (staking_BondDenom E (ext s)) - supplyOf (ext s) (staking_BondDenom E (ext s)) =
    totalOf K t contract - totalOf K s contract"
  using vanilla_keeper.DispatchMsg_supply [OF assms] by simp

lemma vanilla_supply_witness:
  "ref_supply (ext (snd (DispatchMsg ref_vanilla (NewDefaultCustomMsgHandler ref_vanilla) [49] []
     ref_bond ref_capped))) ''stake'' = 30"
  using vanilla_supply [OF ref_van.vanilla_keeper_axioms ref_vanilla_good prod.collapse [symmetric],
      of "[49]" "[]" ref_bond] ref_vanilla_bond
  by (simp add: ref_base_def)

section \<open>Max cap limits\<close>

text \<open>
  C21. Setting a limit, every branch in the order of the code: a foreign denomination is an
  error, an overflow of the sum of the other limits and the new one panics, a sum over the
  total of the parameters is an error, and otherwise the limit is stored and an event emitted.
  No branch but the last changes the state.
\<close>

theorem SetMaxCapLimit_branches:
  assumes "keeper E valid_denom" and "wfAmounts E s" and "amount new = Some n"
    and "GetTotalContractsMaxCap E s = Ok (Coin d (Some L))"
  shows "SetMaxCapLimit E contract new s =
    (if staking_BondDenom E (ext s) \<noteq> denom new then (Err ErrInvalidCoins, s)
     else if \<not> int256 (otherCaps E s contract) \<or> \<not> int256 (otherCaps E s contract + n) then (Panic, s)
     else if L < otherCaps E s contract + n then (Err ErrInvalid, s)
     else (case Int_Marshal E (Some n) of
        Ok bz \<Rightarrow> (Ok (), s\<lparr>store := kv_Set E (store s) (BuildMaxCapLimitKey contract) bz,
                       events := events s @ [EmitMaxCapLimitUpdatedEvent contract new]\<rparr>)
      | Err e \<Rightarrow> (Err e, s) | Panic \<Rightarrow> (Panic, s)))"
  by (rule keeper.SetMaxCapLimit_eq [OF assms])

lemma SetMaxCapLimit_branches_witness:
  "SetMaxCapLimit ref_sdk [50] (Coin ''stake'' (Some 61)) ref_capped = (Err ErrInvalid, ref_capped)"
proof -
  have "otherCaps ref_sdk ref_capped [50] = 40"
    by code_simp
  then show ?thesis
    using SetMaxCapLimit_branches [OF ref_keeper.keeper_axioms ref_wf(2) _ ref_limits_at(3),
        of "Coin ''stake'' (Some 61)" 61 "[50]"]
    by (simp add: int256_def)
qed

text \<open>
  C22. A max cap message that succeeds comes from the authority, sets the limit of the named
  contract and no other, keeps all limits together within the total, and leaves the delegated
  amounts alone. A contract without a repeating epoch task gets one, one epoch ahead; for a
  contract that has one, a zero limit replaces all its epoch tasks by one in this block, and
  another limit adds one in this block.
\<close>

theorem SetVirtualStakingMaxCap_effect:
  assumes "keeper E valid_denom" and "SetVirtualStakingMaxCap E req s = (Ok u, t)"
    and "wfAmounts E s" and "wfTasks E s"
    and "GetTotalContractsMaxCap E s = Ok (Coin d (Some L))"
    and "GetRebalanceEpochLength E s = Ok epoch" and "amount (msg_MaxCap req) = Some n"
  shows "\<exists>c. AccAddressFromBech32 E (msg_Contract req) = Ok c \<and> msg_Authority req = authority E \<and>
    (\<forall>c'. limitOf E t c' = (if c' = c then Some n else limitOf E s c')) \<and>
    (\<Sum>c' | limitOf E t c' \<noteq> None. the (limitOf E t c')) \<le> L \<and>
    (\<forall>c'. delegatedOf E t c' = delegatedOf E s c') \<and> mem t = mem s \<and> ext t = ext s \<and>
    (\<forall>tp h c'. taskAt E t tp h c' =
      (if tp \<noteq> SchedulerTaskHandleEpoch \<or> c' \<noteq> c then taskAt E s tp h c'
       else if \<nexists>h. taskAt E s SchedulerTaskHandleEpoch h c = Some True
       then (if h = height s + epoch then Some True else taskAt E s tp h c')
       else if n = 0 then (if h = height s then Some False else None)
       else if h = height s \<and> taskAt E s tp h c' = None then Some False else taskAt E s tp h c'))"
proof (rule keeper.SetVirtualStakingMaxCap_OkD [OF assms], goal_cases)
  case (1 c)
  then show ?case
    by (intro exI [of _ c]) (auto simp: keeper.totalCaps_sum [OF assms(1)])
qed

lemma SetVirtualStakingMaxCap_effect_witness:
  "\<exists>t. SetVirtualStakingMaxCap ref_sdk (ref_cap ''a1'' 0) ref_capped = (Ok (), t) \<and>
    taskAt ref_sdk t SchedulerTaskHandleEpoch 15 [49] = None \<and>
    taskAt ref_sdk t SchedulerTaskHandleEpoch 10 [49] = Some False"
proof -
  let ?run = "SetVirtualStakingMaxCap ref_sdk (ref_cap ''a1'' 0) ref_capped"
  have "fst ?run = Ok ()" and c: "AccAddressFromBech32 ref_sdk ''a1'' = Ok [49]"
    and task: "taskAt ref_sdk ref_capped SchedulerTaskHandleEpoch 15 [49] = Some True"
    by code_simp+
  then have run: "?run = (Ok (), snd ?run)"
    by (metis prod.collapse)
  have h: "height ref_capped = 10"
    by (simp add: ref_capped_def ref_genesis_def ref_start_def)
  have "amount (msg_MaxCap (ref_cap ''a1'' 0)) = Some 0" "msg_Contract (ref_cap ''a1'' 0) = ''a1''"
    by (simp_all add: ref_cap_def)
  with SetVirtualStakingMaxCap_effect [OF ref_keeper.keeper_axioms run ref_wf(2,6) ref_limits_at(3,2)]
  have "\<forall>tp h c'. taskAt ref_sdk (snd ?run) tp h c' =
      (if tp \<noteq> SchedulerTaskHandleEpoch \<or> c' \<noteq> [49] then taskAt ref_sdk ref_capped tp h c'
       else if \<nexists>h. taskAt ref_sdk ref_capped SchedulerTaskHandleEpoch h [49] = Some True
       then (if h = 15 then Some True else taskAt ref_sdk ref_capped tp h c')
       else if h = 10 then Some False else None)"
    by (auto simp: c h)
  moreover have "\<exists>h. taskAt ref_sdk ref_capped SchedulerTaskHandleEpoch h [49] = Some True"
    using task by blast
  ultimately show ?thesis
    using run by (intro exI [of _ "snd ?run"]) simp
qed

text \<open>
  C23. A max cap message that is not signed by the authority never succeeds and changes
  nothing; a well-formed one fails as an invalid signer.
\<close>

theorem SetVirtualStakingMaxCap_unauthorized:
  assumes "GetAuthority E \<noteq> msg_Authority req"
  shows "snd (SetVirtualStakingMaxCap E req s) = s \<and> fst (SetVirtualStakingMaxCap E req s) \<noteq> Ok () \<and>
    (ValidateBasic E req = Ok () \<longrightarrow> fst (SetVirtualStakingMaxCap E req s) = Err ErrInvalidSigner)"
  using SetVirtualStakingMaxCap_authority [OF assms] by blast

lemma SetVirtualStakingMaxCap_unauthorized_witness:
  "SetVirtualStakingMaxCap ref_sdk ((ref_cap ''a1'' 40)\<lparr>msg_Authority := ''a1''\<rparr>) ref_genesis =
    (Err ErrInvalidSigner, ref_genesis)"
proof -
  let ?req = "(ref_cap ''a1'' 40)\<lparr>msg_Authority := ''a1''\<rparr>"
  have "GetAuthority ref_sdk \<noteq> msg_Authority ?req" "ValidateBasic ref_sdk ?req = Ok ()"
    by code_simp+
  with SetVirtualStakingMaxCap_unauthorized [of ref_sdk ?req ref_genesis] show ?thesis
    by (metis prod.collapse)
qed

section \<open>The task table\<close>

text \<open>
  C24. Registering a task: the past and the undefined type are errors. A repeating task is
  written over whatever is there; a one-shot task is only written, and its event only emitted,
  where no task is.
\<close>

theorem Schedule_tasks:
  assumes "mesh_store E"
  shows "ScheduleRepeatingTask E tp c h s =
      (if h < height s \<or> tp = SchedulerTaskUndefined then (Err ErrInvalid, s)
       else (Ok (), s\<lparr>store := kv_Set E (store s) (taskKey tp h c) [toByte True],
                      events := events s @ [EmitSchedulerRegisteredEvent c h True]\<rparr>)) \<and>
    ScheduleOneShotTask E tp c h s =
      (if h < height s \<or> tp = SchedulerTaskUndefined then (Err ErrInvalid, s)
       else if taskAt E s tp h c \<noteq> None then (Ok (), s)
       else (Ok (), s\<lparr>store := kv_Set E (store s) (taskKey tp h c) [toByte False],
                      events := events s @ [EmitSchedulerRegisteredEvent c h False]\<rparr>))"
  using mesh_store.ScheduleRepeatingTask_eq [OF assms] mesh_store.ScheduleOneShotTask_eq [OF assms] by blast

lemma Schedule_tasks_witness:
  "ScheduleOneShotTask ref_sdk SchedulerTaskHandleEpoch [49] 15 ref_capped = (Ok (), ref_capped)"
proof -
  have "taskAt ref_sdk ref_capped SchedulerTaskHandleEpoch 15 [49] = Some True" "\<not> 15 < height ref_capped"
    by code_simp+
  then show ?thesis
    using Schedule_tasks [OF ref_store.mesh_store_axioms, of SchedulerTaskHandleEpoch "[49]" 15 ref_capped]
    by (simp add: task_defs)
qed

text \<open>
  C25. Iterating over the tasks of a type up to a height visits exactly the tasks that are due,
  in strictly increasing order of height and then contract, although the store orders its keys
  as bytes.
\<close>

theorem IterateScheduledTasks_order:
  assumes "mesh_store E" and "wfTasks E s" and "tp \<noteq> SchedulerTaskUndefined"
  shows "\<exists>ts. sorted_wrt taskLess ts \<and>
    (\<forall>h c r. (h, c, r) \<in> set ts \<longleftrightarrow> taskAt E s tp h c = Some r \<and> h \<le> m) \<and>
    (\<forall>cb l. IterateScheduledTasks E tp m cb (l, s) = runTasks ts cb (l, s))"
  using mesh_store.dueTasks_sorted [OF assms(1,2)] mesh_store.dueTasks_iff [OF assms(1,2)] assms(3)
  by (intro exI [of _ "dueTasks E s tp m"]) (simp add: mesh_store.IterateScheduledTasks_eq [OF assms(1,2)])

lemma IterateScheduledTasks_order_witness:
  "\<exists>ts. (10, [49], False) \<in> set ts \<and>
    IterateScheduledTasks ref_sdk SchedulerTaskValsetUpdate 12 (\<lambda>_ _ _. ret False) ((), ref_slashed) =
      runTasks ts (\<lambda>_ _ _. ret False) ((), ref_slashed)"
proof -
  have "taskAt ref_sdk ref_slashed SchedulerTaskValsetUpdate 10 [49] = Some False"
    by code_simp
  moreover have "(10 :: u64) \<le> 12" "SchedulerTaskValsetUpdate \<noteq> SchedulerTaskUndefined"
    by (simp_all add: task_defs)
  ultimately obtain ts where "(10, [49], False) \<in> set ts"
    and "\<forall>cb l. IterateScheduledTasks ref_sdk SchedulerTaskValsetUpdate 12 cb (l :: unit, ref_slashed) =
      runTasks ts cb (l, ref_slashed)"
    using IterateScheduledTasks_order [OF ref_store.mesh_store_axioms ref_wf(8), of SchedulerTaskValsetUpdate 12]
    by metis
  then show ?thesis
    by (intro exI [of _ ts]) simp
qed

text \<open>
  The questions about tasks: whether a contract has a task of a kind, at any height, and
  the smallest height at which it has one; without any, the height is zero and the flag off.
\<close>

lemma task_questions:
  assumes "mesh_store E" and "wfTasks E s" and "tp \<noteq> SchedulerTaskUndefined"
  shows "HasScheduledTask E s tp c rep = Ok (\<exists>h. taskAt E s tp h c = Some rep) \<and>
    (GetNextScheduledTaskHeight E s tp c = Ok (h, found) \<longleftrightarrow>
      (if \<exists>h r. taskAt E s tp h c = Some r
       then found \<and> taskAt E s tp h c \<noteq> None \<and> (\<forall>h'. taskAt E s tp h' c \<noteq> None \<longrightarrow> h \<le> h')
       else h = 0 \<and> \<not> found))"
  using mesh_store.HasScheduledTask_eq [OF assms(1,2)] mesh_store.GetNextScheduledTaskHeight_eq [OF assms]
    assms(3) by simp

lemma task_questions_witness:
  "HasScheduledTask ref_sdk ref_slashed SchedulerTaskHandleEpoch [49] True = Ok True \<and>
   GetNextScheduledTaskHeight ref_sdk ref_slashed SchedulerTaskHandleEpoch [50] = Ok (0, False)"
proof -
  have "taskAt ref_sdk ref_slashed SchedulerTaskHandleEpoch 15 [49] = Some True"
    by code_simp
  moreover have "SchedulerTaskHandleEpoch \<noteq> SchedulerTaskUndefined"
    by (simp add: task_defs)
  moreover have "GetNextScheduledTaskHeight ref_sdk ref_slashed SchedulerTaskHandleEpoch [50] = Ok (0, False)"
    by code_simp
  ultimately show ?thesis
    using task_questions [OF ref_store.mesh_store_axioms ref_wf(8)] by fastforce
qed

text \<open>
  Deleting all tasks of a type of a contract removes them at every height, whatever their
  number, and nothing else.
\<close>

lemma DeleteAllScheduledTasks_all:
  assumes "mesh_store E" and "wfTasks E s" and "tp \<noteq> SchedulerTaskUndefined"
  shows "\<exists>t. DeleteAllScheduledTasks E tp c s = (Ok (), t) \<and> tasksOnly E s t \<and> events t = events s \<and>
    (\<forall>tp' h c'. taskAt E t tp' h c' = (if tp' = tp \<and> c' = c then None else taskAt E s tp' h c'))"
  by (rule mesh_store.DeleteAllScheduledTasks_eq [OF assms, of c]) blast

lemma DeleteAllScheduledTasks_all_witness:
  "\<exists>t. DeleteAllScheduledTasks ref_sdk SchedulerTaskHandleEpoch [49] ref_slashed = (Ok (), t) \<and>
    taskAt ref_sdk t SchedulerTaskHandleEpoch 15 [49] = None \<and>
    taskAt ref_sdk t SchedulerTaskValsetUpdate 10 [49] = Some False"
proof -
  have "taskAt ref_sdk ref_slashed SchedulerTaskValsetUpdate 10 [49] = Some False"
    by code_simp
  moreover have "SchedulerTaskHandleEpoch \<noteq> SchedulerTaskUndefined"
    "SchedulerTaskValsetUpdate \<noteq> SchedulerTaskHandleEpoch"
    by (simp_all add: task_defs)
  ultimately show ?thesis
    using DeleteAllScheduledTasks_all [OF ref_store.mesh_store_axioms ref_wf(8)] by fastforce
qed

section \<open>Validator set changes\<close>

text \<open>
  C26. Packing and unpacking of a change: for addresses and slash amounts short enough for the
  byte-wide indices, the key that is built unpacks to the same operation, validator and slash
  details, except that the two heights trade places: what was packed as the infraction height
  is read as the power, and vice versa.
\<close>

theorem opKey_roundtrip:
  assumes "sdk_addresses E" and "goodOp op val slashInfo"
  shows "\<exists>key. BuildPipedValsetOpKey E op val slashInfo = Ok (PipedValsetPrefix @ key) \<and>
    decodeOpKey key =
      Ok (val, op, if op = ValidatorSlashed then map_option swapHeights slashInfo else None)"
  using sdk_addresses.BuildPipedValsetOpKey_eq [OF assms(1)] goodOp_defined [OF assms(2)]
    goodOp_short [OF assms(2)] goodOp_decode [OF assms(2)]
  by (auto simp: reportedOp_def)

lemma opKey_roundtrip_witness:
  "\<exists>key. BuildPipedValsetOpKey ref_sdk ValidatorSlashed [86] (Some ref_slash) = Ok (PipedValsetPrefix @ key) \<and>
    decodeOpKey key = Ok ([86], ValidatorSlashed, Some \<lparr>InfractionHeight = 7, Power = 20,
      TotalSlashAmount = ''2'', SlashFraction = ''100000000000000000''\<rparr>)"
  using opKey_roundtrip [OF ref_machine.sdk_addresses_axioms ref_goodOp]
  by (simp add: swapHeights_def ref_slash_def)

text \<open>
  C27. The limits of the format. Every slash of an address of at most 236 bytes with an amount of
  at most 255 bytes is packed without complaint. Unpacking its key panics when address and amount
  take more than 236 bytes together, since the index of the fraction wraps around at 256; it is
  an error when amount and fraction are both empty; and otherwise it gives the slash back, with
  the two heights exchanged.
\<close>

theorem opKey_wraps:
  assumes "sdk_addresses E" and "length val \<le> 236" and "length (TotalSlashAmount slashInfo) \<le> 255"
  shows "\<exists>key. BuildPipedValsetOpKey E ValidatorSlashed val (Some slashInfo) = Ok (PipedValsetPrefix @ key) \<and>
    decodeOpKey key =
      (if 236 < length val + length (TotalSlashAmount slashInfo) then Panic
       else if TotalSlashAmount slashInfo = [] \<and> SlashFraction slashInfo = [] then Err ErrInvalid
       else Ok (val, ValidatorSlashed, Some (swapHeights slashInfo)))"
  using sdk_addresses.BuildPipedValsetOpKey_eq [OF assms(1), of ValidatorSlashed "Some slashInfo" val]
    decodeOpKey_slash [OF assms(2,3)] assms(2)
  by (simp add: valset_op_defs)

lemma opKey_wraps_witness:
  "\<exists>key. BuildPipedValsetOpKey ref_sdk ValidatorSlashed (replicate 230 0)
      (Some (ref_slash\<lparr>TotalSlashAmount := ''1000000''\<rparr>)) = Ok (PipedValsetPrefix @ key) \<and>
    decodeOpKey key = Panic"
  using opKey_wraps [OF ref_machine.sdk_addresses_axioms, of "replicate 230 0"
      "ref_slash\<lparr>TotalSlashAmount := ''1000000''\<rparr>"]
  by simp

text \<open>
  C28. Recording a change: its key is added to the memory store, every contract with a positive
  limit gets a one-shot update task in this block unless it has one, and nothing else changes.
\<close>

theorem sendAsync_effect:
  assumes "mesh_keeper E valid_denom" and "goodOp op val slashInfo" and "wfAmounts E s"
  shows "\<exists>t. sendAsync E op val slashInfo s = (Ok (), t) \<and>
    tasksOnly E (s\<lparr>mem := kv_Set E (mem s) (PipedValsetPrefix @ opKeyBytes op val slashInfo) []\<rparr>) t \<and>
    (\<forall>tp h c. taskAt E t tp h c =
      (if tp = SchedulerTaskValsetUpdate \<and> h = height s \<and> taskAt E s tp h c = None \<and>
          (\<exists>n. limitOf E s c = Some n \<and> 0 < n)
       then Some False else taskAt E s tp h c))"
  by (rule mesh_keeper.sendAsync_eq [OF assms])
    (unfold mesh_keeper.storedOp_def [OF assms(1)], blast)

lemma sendAsync_effect_witness:
  "\<exists>t. sendAsync ref_sdk ValidatorSlashed [86] (Some ref_slash) ref_bonded = (Ok (), t) \<and>
    taskAt ref_sdk t SchedulerTaskValsetUpdate 10 [49] = Some False \<and>
    taskAt ref_sdk t SchedulerTaskValsetUpdate 10 [50] = None"
proof -
  have "taskAt ref_sdk ref_bonded SchedulerTaskValsetUpdate 10 [49] = None" "height ref_bonded = 10"
    "taskAt ref_sdk ref_bonded SchedulerTaskValsetUpdate 10 [50] = None"
    "limitOf ref_sdk ref_bonded [49] = Some 40" "limitOf ref_sdk ref_bonded [50] = None"
    by code_simp+
  then show ?thesis
    using sendAsync_effect [OF ref_machine.mesh_keeper_axioms ref_goodOp ref_wf(3)] by fastforce
qed

text \<open>
  C29. A slash from the SDK, end to end: staking slashes the validator, and the change the next
  report reads back names its operator with the infraction height and the power as the SDK
  passed them, since the two exchanges on the way cancel, and with the slashed amount and
  fraction. Changes recorded before stay.
\<close>

theorem Slash_recorded:
  assumes "mesh_keeper E valid_denom" and "wfAmounts E s" and "wfOps E s"
    and "staking_ValidatorByConsAddr E (ext s) consAddr = Some v"
    and "validator_GetOperator E v = Ok val"
    and "staking_Slash E consAddr infractionHeight pow ratio (ext s) = (Ok amt, x')"
    and "length val + 19 + length (Int_String E amt) \<le> 255" and "Int_String E amt \<noteq> []"
  shows "\<exists>t. SlashWithInfractionReason E consAddr infractionHeight pow ratio s = (Ok amt, t) \<and>
    ext t = x' \<and> wfOps E t \<and>
    set (pipedOps E t) = insert (val, ValidatorSlashed,
        Some \<lparr>InfractionHeight = infractionHeight, Power = pow,
              TotalSlashAmount = Int_String E amt, SlashFraction = Dec_String E ratio\<rparr>)
      (set (pipedOps E s))"
  by (rule mesh_keeper.Slash_stored [OF assms]) blast

lemma Slash_recorded_witness:
  "\<exists>t. SlashWithInfractionReason ref_sdk [86] 7 20 100000000000000000 ref_bonded = (Ok 2, t) \<and>
    set (pipedOps ref_sdk t) = {([86], ValidatorSlashed, Some \<lparr>InfractionHeight = 7, Power = 20,
      TotalSlashAmount = ''2'', SlashFraction = ''100000000000000000''\<rparr>)}"
proof -
  have "staking_ValidatorByConsAddr ref_sdk (ext ref_bonded) [86] = Some ref_val"
    "validator_GetOperator ref_sdk ref_val = Ok [86]"
    "staking_Slash ref_sdk [86] 7 20 100000000000000000 (ext ref_bonded) = (Ok 2, ext ref_bonded)"
    "Int_String ref_sdk 2 = ''2''" "Dec_String ref_sdk 100000000000000000 = ''100000000000000000''"
    "pipedOps ref_sdk ref_bonded = []"
    by code_simp+
  then show ?thesis
    using Slash_recorded [OF ref_machine.mesh_keeper_axioms ref_wf(3) ref_wf(9), of "[86]" ref_val "[86]" 7 20
        100000000000000000 2 "ext ref_bonded"]
    by auto
qed

text \<open>
  C30. The report of a block: when every validator that was bonded or modified is known, the
  report lists the recorded changes by kind, each in the order of the keys; otherwise it is an
  error. It never panics on keys the module has built.
\<close>

theorem ValsetUpdateReport_complete:
  assumes "mesh_store E" and "wfOps E s"
  shows "ValsetUpdateReport E s =
    (if \<forall>x \<in> set (pipedOps E s). validatorKnown E s x then Ok (reportOf E s (pipedOps E s))
     else Err ErrUnknown)"
  by (rule mesh_store.ValsetUpdateReport_eq [OF assms])

lemma ValsetUpdateReport_complete_witness:
  "\<exists>r. ValsetUpdateReport ref_sdk ref_slashed = Ok r \<and> map vs_ValidatorAddr (Slashed r) = [''vV''] \<and> Additions r = []"
proof -
  have "pipedOps ref_sdk ref_slashed = [([86], ValidatorSlashed, Some (swapHeights ref_slash))]"
    "ValAddress_String ref_sdk [86] = ''vV''"
    by code_simp+
  then show ?thesis
    using ValsetUpdateReport_complete [OF ref_store.mesh_store_axioms ref_wf(10)]
    by (simp add: validatorKnown_def reportOf_def valsOf_def opsOf_def slashValidator_def valset_op_defs)
qed

text \<open>
  C31. The slash a contract is told about is its own share: the amount it gets is between zero
  and the validator's whole slash, and the other fields of the entry are unchanged.
\<close>

theorem scaleSlash_share:
  assumes "sdk_decimals E" and "scaleSlash E s contract slash = Ok slash'"
    and "Int_FromString E (vs_SlashAmount slash) = Some n" and "0 \<le> n"
    and "\<And>val v. ValAddressFromBech32 E (vs_ValidatorAddr slash) = Ok val \<Longrightarrow>
      staking_GetValidator E (ext s) val = Some v \<Longrightarrow>
      0 \<le> DelegatorShares v \<and> (\<forall>sh. staking_GetDelegation E (ext s) contract val = Some sh \<longrightarrow>
        0 \<le> sh \<and> sh \<le> DelegatorShares v)"
  shows "\<exists>m. slash' = slash\<lparr>vs_SlashAmount := Int_String E m\<rparr> \<and> 0 \<le> m \<and> m \<le> n"
  by (rule sdk_decimals.scaleSlash_bound [OF assms(1-4)]) (use assms(5) in blast)+

lemma scaleSlash_share_witness:
  "\<exists>m. scaleSlash ref_sdk ref_slashed [49] (slashValidator ref_sdk ref_slashed [86] ref_slash) =
      Ok ((slashValidator ref_sdk ref_slashed [86] ref_slash)\<lparr>vs_SlashAmount := Int_String ref_sdk m\<rparr>) \<and>
    0 \<le> m \<and> m \<le> 2"
proof -
  let ?slash = "slashValidator ref_sdk ref_slashed [86] ref_slash"
  have "case scaleSlash ref_sdk ref_slashed [49] ?slash of Ok _ \<Rightarrow> True | _ \<Rightarrow> False"
    by code_simp
  then obtain slash' where run: "scaleSlash ref_sdk ref_slashed [49] ?slash = Ok slash'"
    by (auto split: result.splits)
  have amt: "Int_FromString ref_sdk (vs_SlashAmount ?slash) = Some 2"
    and val: "ValAddressFromBech32 ref_sdk (vs_ValidatorAddr ?slash) = Ok [86]"
    "staking_GetValidator ref_sdk (ext ref_slashed) [86] = Some ref_val"
    "staking_GetDelegation ref_sdk (ext ref_slashed) [49] [86] = Some 30000000000000000000"
    "DelegatorShares ref_val = 40000000000000000000"
    by code_simp+
  have "\<exists>m. slash' = ?slash\<lparr>vs_SlashAmount := Int_String ref_sdk m\<rparr> \<and> 0 \<le> m \<and> m \<le> 2"
    by (rule scaleSlash_share [OF ref_decimals.sdk_decimals_axioms run amt]) (use val in auto)
  with run show ?thesis by auto
qed

text \<open>
  Clearing removes all recorded changes, and only them.
\<close>

lemma ClearPipedValsetOperations_all:
  assumes "mesh_keeper E valid_denom"
  shows "\<exists>m. ClearPipedValsetOperations E s = (Ok (), s\<lparr>mem := m\<rparr>) \<and>
    pipedOps E (s\<lparr>mem := m\<rparr>) = [] \<and>
    (\<forall>k. kv_Get E m k = (if \<exists>k'. k = PipedValsetPrefix @ k' then None else kv_Get E (mem s) k))"
  by (rule mesh_keeper.ClearPipedValsetOperations_eq [OF assms, of s]) metis

lemma ClearPipedValsetOperations_all_witness:
  "pipedOps ref_sdk (snd (ClearPipedValsetOperations ref_sdk ref_slashed)) = []"
  using ClearPipedValsetOperations_all [OF ref_machine.mesh_keeper_axioms, of ref_slashed] by auto

section \<open>Results of the block end\<close>

text \<open>
  What a response handler makes of a run of tasks: the default handler lets every run
  pass, failed contracts included; the handler that panics on errors lets exactly the runs
  pass in which no contract failed. Neither adds anything to the state.
\<close>

lemma response_handlers:
  assumes "task_runner E" and "goodExecutor E cb" and "tp \<noteq> SchedulerTaskUndefined"
    and "GetMaxSudoGas E s = Ok g" and "wfTasks E s" and "height s \<le> height s + epoch"
  shows "\<exists>rs t. ExecScheduledTasks E tp epoch cb s = (Ok rs, t) \<and>
    rspHandler DefaultExecutionResponseHandler (ExecScheduledTasks E tp epoch cb) s = (Ok (), t) \<and>
    rspHandler PanicOnErrorExecutionResponseHandler (ExecScheduledTasks E tp epoch cb) s =
      ((if list_all (\<lambda>r. ExecErr r = None) rs then Ok () else Panic), t)"
proof -
  obtain rs t where "ExecScheduledTasks E tp epoch cb s = (Ok rs, t)"
    and "\<forall>res \<in> set rs. RescheduleErr res = None \<and> DeleteTaskErr res = None \<and> GasLimit res = g"
    by (rule task_runner.ExecScheduledTasks_eq [OF assms]) (rule that; assumption)
  then show ?thesis
    by (simp add: rspHandler_def bindA_def caught_def handleAll_default handleAll_panic list_all_iff)
qed

lemma response_handlers_witness:
  "\<exists>t. rspHandler DefaultExecutionResponseHandler
      (ExecScheduledTasks ref_sdk SchedulerTaskValsetUpdate 5 (SendHandleEpoch ref_sdk)) ref_slashed = (Ok (), t)"
proof -
  have "height ref_slashed \<le> height ref_slashed + 5"
    by code_simp
  moreover have "SchedulerTaskValsetUpdate \<noteq> SchedulerTaskUndefined"
    by (simp add: task_defs)
  ultimately show ?thesis
    using response_handlers [OF ref_machine.task_runner_axioms
        goodExecutor_epoch [OF ref_machine.wasmRuns_goodSudo [OF ref_wasmRuns]] _ ref_limits_at(1) ref_wf(8)]
    by fastforce
qed

section \<open>Queries\<close>

text \<open>
  The listing of limits answers every contract that has a limit, once, with its limit and
  its delegated amount in the bond denomination.
\<close>

lemma limits_listing:
  assumes "keeper E valid_denom" and "bondGood E valid_denom s"
  shows "\<exists>es. VirtualStakingMaxCapLimits E s = Ok (map (capInfo E s) es) \<and> distinct (map fst es) \<and>
    (\<forall>c n. (c, n) \<in> set es \<longleftrightarrow> limitOf E s c = Some n)"
  using keeper.VirtualStakingMaxCapLimits_eq [OF assms] keeper.distinct_capEntries [OF assms(1)]
    keeper.capEntries_iff [OF assms(1)]
  by blast

lemma limits_listing_witness:
  "\<exists>infos. VirtualStakingMaxCapLimits ref_sdk ref_bonded = Ok infos \<and>
    \<lparr>info_Contract = ''a1'', info_Delegated = Coin ''stake'' (Some 30), info_Cap = Coin ''stake'' (Some 40)\<rparr>
      \<in> set infos"
proof -
  have "capInfo ref_sdk ref_bonded ([49], 40) = \<lparr>info_Contract = ''a1'',
      info_Delegated = Coin ''stake'' (Some 30), info_Cap = Coin ''stake'' (Some 40)\<rparr>"
    "limitOf ref_sdk ref_bonded [49] = Some 40"
    by code_simp+
  moreover from this limits_listing [OF ref_keeper.keeper_axioms, of ref_bonded] ref_wf(3)
  obtain es where "VirtualStakingMaxCapLimits ref_sdk ref_bonded = Ok (map (capInfo ref_sdk ref_bonded) es)"
    and "([49], 40) \<in> set es"
    by (auto simp: bondGood_def)
  ultimately show ?thesis by force
qed

text \<open>
  C32. The status of one contract, over gRPC and as a contract query: its limit and its
  delegated amount, both zero for a contract without entries, in the bond denomination. The
  caller does not matter.
\<close>

theorem bond_status:
  assumes "keeper E valid_denom" and "bondGood E valid_denom s"
    and "AccAddressFromBech32 E a = Ok c" and "req_Custom request = Some bz"
    and "json_CustomQuery E bz = Ok \<lparr>QVirtualStake = Some \<lparr>BondStatus = Some a, SlashRatio = sr\<rparr>\<rparr>"
  shows "VirtualStakingMaxCapLimit E s a =
      Ok \<lparr>rsp_Cap = bondCoin E s (capOf E s c), rsp_DelegatedCoin = bondCoin E s (totalOf E s c)\<rparr> \<and>
    NewQueryDecorator E nxt s caller request = json_Response E (BondStatusResponse
      \<lparr>rsp_MaxCap = ConvertSdkCoinToWasmCoin E (bondCoin E s (capOf E s c)),
       rsp_Delegated = ConvertSdkCoinToWasmCoin E (bondCoin E s (totalOf E s c))\<rparr>)"
  using keeper.VirtualStakingMaxCapLimit_eq [OF assms(1-3)] keeper.BondStatus_query [OF assms(1,2,4,5,3)]
  by blast

lemma bond_status_witness:
  "\<exists>bz. VirtualStakingMaxCapLimit ref_sdk ref_bonded ''a1'' =
      Ok \<lparr>rsp_Cap = Coin ''stake'' (Some 40), rsp_DelegatedCoin = Coin ''stake'' (Some 30)\<rparr> \<and>
    NewQueryDecorator ref_sdk (\<lambda>_ _ _. Panic) ref_bonded [50] \<lparr>req_Custom = Some [49]\<rparr> = Ok bz"
proof -
  have "AccAddressFromBech32 ref_sdk ''a1'' = Ok [49]"
    "json_CustomQuery ref_sdk [49] = Ok \<lparr>QVirtualStake = Some \<lparr>BondStatus = Some ''a1'', SlashRatio = False\<rparr>\<rparr>"
    "capOf ref_sdk ref_bonded [49] = 40" "totalOf ref_sdk ref_bonded [49] = 30"
    "case json_Response ref_sdk (BondStatusResponse
      \<lparr>rsp_MaxCap = ConvertSdkCoinToWasmCoin ref_sdk (Coin ''stake'' (Some 40)),
       rsp_Delegated = ConvertSdkCoinToWasmCoin ref_sdk (Coin ''stake'' (Some 30))\<rparr>) of Ok _ \<Rightarrow> True | _ \<Rightarrow> False"
    by code_simp+
  with bond_status [OF ref_keeper.keeper_axioms, of ref_bonded "''a1''" "[49]" "\<lparr>req_Custom = Some [49]\<rparr>"
      "[49]" False "\<lambda>_ _ _. Panic" "[50]"] ref_wf(3)
  show ?thesis
    by (auto simp: bondGood_def split: result.splits)
qed

text \<open>
  C33. In every reachable state the module answers: the parameters are those of genesis, every
  contract has a limit and a delegated amount in the bond denomination between zero and the
  total, the status of an address fails only where its text does not parse, no listing or task
  question fails, and the report is given unless a validator in it is unknown. Calls into
  contracts are assumed to record no validator changes (\<open>wasmRuns\<close>).
\<close>

theorem queries_total:
  assumes "mesh_machine E valid_denom" and "wasmRuns E" and "mesh_reachable E p s"
    and "TotalContractsMaxCap p = Coin d (Some L)" and "0 \<le> L"
  shows "QueryParams E s = Ok p \<and>
    (\<forall>c. \<exists>n m. GetMaxCapLimit E s c = Ok (bondCoin E s n) \<and> GetTotalDelegated E s c = Ok (bondCoin E s m) \<and>
      0 \<le> n \<and> n \<le> L \<and> 0 \<le> m \<and> m \<le> L) \<and>
    (\<forall>a. VirtualStakingMaxCapLimit E s a = (case AccAddressFromBech32 E a of
        Ok c \<Rightarrow> Ok \<lparr>rsp_Cap = bondCoin E s (capOf E s c), rsp_DelegatedCoin = bondCoin E s (totalOf E s c)\<rparr>
      | Err e \<Rightarrow> Err e | Panic \<Rightarrow> Panic)) \<and>
    (\<exists>infos. VirtualStakingMaxCapLimits E s = Ok infos) \<and>
    (\<forall>tp c rep. \<exists>b. HasScheduledTask E s tp c rep = Ok b) \<and>
    (ValsetUpdateReport E s = Err ErrUnknown \<or> (\<exists>report. ValsetUpdateReport E s = Ok report))"
proof -
  note machine = assms(1) and keeper = mesh_keeperD [OF block_mesh [OF machine_block [OF assms(1)]]]
  note store = keeper_store [OF keeper]
  note inv = mesh_machine.reachable_inv [OF assms(1,3,4,5,2)]
  have wf: "GetParams E s = Ok p" "wfAmounts E s" "wfTasks E s" "wfOps E s"
    using inv by (simp_all add: meshInv_def)
  have good: "bondGood E valid_denom s" and denom: "valid_denom (staking_BondDenom E (ext s))"
    using wf(2) mesh_machine.bond_denom [OF machine] by (simp_all add: bondGood_def)
  have ledger: "ledgerInv L (ledgerOf E s)"
    by (rule ledger_reachable_inv [OF mesh_machine.reachable_refines [OF assms(1,3,4,5,2)] assms(5)])
  have cap: "capOf E s c \<le> L" for c
    using ledger cap_le_sum [of "caps (ledgerOf E s)" c] assms(5)
    by (fastforce simp: ledgerInv_def capOf_def split: option.split)
  have total: "totalOf E s c \<le> L" for c
    using ledger by (simp add: ledgerInv_def)
  have amounts: "GetMaxCapLimit E s c = Ok (bondCoin E s (capOf E s c)) \<and>
      GetTotalDelegated E s c = Ok (bondCoin E s (totalOf E s c)) \<and>
      0 \<le> capOf E s c \<and> capOf E s c \<le> L \<and> 0 \<le> totalOf E s c \<and> totalOf E s c \<le> L" for c
    using keeper.GetMaxCapLimit_eq [OF keeper wf(2) denom] keeper.GetTotalDelegated_eq [OF keeper wf(2) denom]
      cap total by simp
  have status: "VirtualStakingMaxCapLimit E s a = (case AccAddressFromBech32 E a of
      Ok c \<Rightarrow> Ok \<lparr>rsp_Cap = bondCoin E s (capOf E s c), rsp_DelegatedCoin = bondCoin E s (totalOf E s c)\<rparr>
    | Err e \<Rightarrow> Err e | Panic \<Rightarrow> Panic)" for a
    using amounts by (simp add: VirtualStakingMaxCapLimit_def bindR_def split: result.split)
  show ?thesis
    using wf(1) amounts status keeper.VirtualStakingMaxCapLimits_eq [OF keeper good]
      mesh_store.HasScheduledTask_eq [OF store wf(3)] mesh_store.ValsetUpdateReport_eq [OF store wf(4)]
    unfolding QueryParams_def by auto
qed

lemma queries_total_witness:
  "VirtualStakingMaxCapLimit ref_sdk ref_slashed ''x'' = Err (ErrOther ''bech32'') \<and>
    (\<exists>n. GetTotalDelegated ref_sdk ref_slashed [49] = Ok (Coin ''stake'' (Some n)) \<and> n \<le> 100)"
proof -
  have "AccAddressFromBech32 ref_sdk ''x'' = Err (ErrOther ''bech32'')"
    by code_simp
  then show ?thesis
    using queries_total [OF ref_machine.mesh_machine_axioms ref_wasmRuns ref_reachable(4) ref_total] by simp blast
qed

text \<open>
  C34. Queries over HTTP. When the module has registered its services with the chain's query
  router and its routes with the gateway, a GET of the three paths is answered with what the
  querier says in the chain's state, errors as HTTP errors, and all other methods and paths are
  as before. A gateway that calls the server directly has the same routes.
\<close>

theorem http_queries:
  assumes "mesh_api G MatchPattern serve R"
    and "Module_RegisterServices R am cfg = Ok (msgs, queries)"
    and "Module_RegisterGRPCGatewayRoutes G (routedConnection R queries stateOf) mux = Ok mux'"
    and "AnnotateContext G req = Ok ctx" and "\<And>p. serve mux ''GET'' p = None"
  shows "(\<exists>h. serve mux' ''GET'' [''osmosis'', ''meshsecurity'', ''v1beta1'', ''max_cap_limit'', a] = Some h \<and>
      h req = answer G req LimitResponse (VirtualStakingMaxCapLimit (am_k am) (stateOf ctx) a)) \<and>
    (\<exists>h. serve mux' ''GET'' [''osmosis'', ''meshsecurity'', ''v1beta1'', ''max_cap_limits''] = Some h \<and>
      h req = answer G req LimitsResponse (VirtualStakingMaxCapLimits (am_k am) (stateOf ctx))) \<and>
    (\<exists>h. serve mux' ''GET'' [''osmosis'', ''meshsecurity'', ''v1beta1'', ''params''] = Some h \<and>
      h req = answer G req ParamsResponse (QueryParams (am_k am) (stateOf ctx))) \<and>
    (\<forall>m path. m \<noteq> ''GET'' \<or> \<not> meshPaths [path] \<longrightarrow> serve mux' m path = serve mux m path) \<and>
    (AnnotateIncomingContext G = AnnotateContext G \<longrightarrow>
      RegisterQueryHandlerServer G (serverClient stateOf (NewQuerier (am_k am))) mux = Ok mux')"
proof -
  note answers = mesh_api.routed_answers [OF assms(1-4), unfolded append.simps]
  show ?thesis
    using answers(1) [OF assms(5)] answers(2) [OF assms(5)] answers(3) [OF assms(5)] answers(4) [OF assms(5)]
      mesh_api.routed_server [OF assms(1-3)]
    by (intro conjI allI impI) assumption+
qed

lemma http_queries_witness:
  "\<exists>mux h. ref_serve mux ''GET'' [''osmosis'', ''meshsecurity'', ''v1beta1'', ''max_cap_limit'', ''a1''] = Some h \<and>
    h () = Ok (Inl (LimitResponse \<lparr>rsp_Cap = Coin ''stake'' (Some 40), rsp_DelegatedCoin = Coin ''stake'' (Some 30)\<rparr>))"
proof -
  have rsp: "VirtualStakingMaxCapLimit ref_sdk ref_slashed ''a1'' =
      Ok \<lparr>rsp_Cap = Coin ''stake'' (Some 40), rsp_DelegatedCoin = Coin ''stake'' (Some 30)\<rparr>"
    by code_simp
  obtain msgs queries where services: "Module_RegisterServices ref_routers ref_module ([], []) = Ok (msgs, queries)"
    using ref_services by auto
  obtain mux where routes: "Module_RegisterGRPCGatewayRoutes (ref_gateway ref_slashed)
      (routedConnection ref_routers queries id) [] = Ok mux"
    using ref_gateway_routes by blast
  have "am_k ref_module = ref_sdk" "AnnotateContext (ref_gateway ref_slashed) () = Ok ref_slashed"
    by (simp_all add: ref_module_def NewAppModule_def NewAppModuleX_def ref_gateway_def)
  then show ?thesis
    using http_queries [OF ref_api.mesh_api_axioms services routes, of "()" ref_slashed] rsp
    by (fastforce simp: answer_def ref_gateway_def)
qed

section \<open>Genesis and parameters\<close>

text \<open>
  C35. Genesis round trip: the state that an import leaves exports the same genesis.
\<close>

theorem genesis_roundtrip:
  assumes "mesh_params E" and "InitGenesis E gs s = (Ok u, t)" and "setCap (GenesisParams gs)"
  shows "ExportGenesis E t = Ok gs \<and> GetParams E t = Ok (GenesisParams gs)"
  using mesh_params.InitGenesis_Export [OF assms(1,3,2)]
  by (auto simp: ExportGenesis_def NewGenesisState_def ok_iffs)

lemma genesis_roundtrip_witness:
  "ExportGenesis ref_sdk ref_genesis = Ok (NewGenesisState ref_params0)"
  using genesis_roundtrip [OF ref_params.mesh_params_axioms ref_genesis_step]
  by (simp add: setCap_def NewGenesisState_def ref_params0_def)

section \<open>The provider module\<close>

text \<open>
  The provider's parameters change only by a message of the authority, and to what the
  message says; any other message is an invalid signer and leaves the state alone.
\<close>

lemma provider_UpdateParams:
  assumes "mesh_store E" and "params_codec (p_Marshal k) (p_Unmarshal k) (\<lambda>_. True)"
    and "UpdateParams E k msg s = (r, t)"
  shows "(p_authority k \<noteq> up_Authority msg \<longrightarrow> r = Err ErrInvalidSigner \<and> t = s) \<and>
    (\<forall>u. r = Ok u \<longrightarrow> ProviderGetParams E k t = Ok (up_Params msg) \<and>
      (\<forall>key. key \<noteq> ProviderParamsKey \<longrightarrow> kv_Get E (store t) key = kv_Get E (store s) key))"
  using mesh_store.UpdateParams_Ok(2,3) [OF assms(1) _ assms(2), of msg s _ t] assms(3)
    UpdateParams_authority [of k msg E s]
  by auto

lemma provider_UpdateParams_witness:
  "fst (UpdateParams ref_sdk (NewProviderKeeper (\<lambda>p. Ok []) (\<lambda>bz. Ok ProviderParams) ''agov'')
    \<lparr>up_Authority = ''a1'', up_Params = ProviderParams\<rparr> ref_genesis) = Err ErrInvalidSigner"
proof -
  have "params_codec (\<lambda>p. Ok []) (\<lambda>bz. Ok ProviderParams) (\<lambda>_. True)"
    by (rule params_codec.intro) (metis (full_types) provider_params.exhaust)
  then show ?thesis
    using provider_UpdateParams [OF ref_store.mesh_store_axioms _ prod.collapse [symmetric],
        of "NewProviderKeeper (\<lambda>p. Ok []) (\<lambda>bz. Ok ProviderParams) ''agov''"
          "\<lparr>up_Authority = ''a1'', up_Params = ProviderParams\<rparr>" ref_genesis]
    by (simp add: NewProviderKeeper_def)
qed

section \<open>The demo chain\<close>

text \<open>
  C36. The way of a contract's message through the demo chain. A contract with a max cap limit
  cannot reach the staking module by staking or stargate messages: they are refused before any
  other handler sees them. Every other message goes to the wasm module's handlers first, and
  only what these do not know reaches the mesh-security handler.
\<close>

theorem app_message_flow:
  assumes "message_chain chain" and "keeper E valid_denom"
  shows "meshMessageHandler chain E nested c port msg s =
    (if (msg_Stargate msg \<or> msg_Staking msg) \<and> limitOf E s c \<noteq> None then (Err ErrUnsupported, s)
     else if fst (nested c port msg s) = Err ErrUnknownMsg
     then DispatchMsg E (NewDefaultCustomMsgHandler E) c port msg (snd (nested c port msg s))
     else nested c port msg s)"
  using message_chain.mesh_flow [OF assms(1) keeper.HasMaxCapLimit_iff [OF assms(2)]]
  by (simp split: prod.split)

lemma app_message_flow_witness:
  "meshMessageHandler firstKnown ref_sdk (\<lambda>c port msg s. (Err ErrUnknownMsg, s)) [49] []
     \<lparr>msg_Custom = None, msg_Stargate = False, msg_Staking = True\<rparr> ref_capped = (Err ErrUnsupported, ref_capped) \<and>
   meshMessageHandler firstKnown ref_sdk (\<lambda>c port msg s. (Err ErrUnknownMsg, s)) [49] [] ref_bond ref_capped
     = (Ok [ref_bondEvent], ref_bonded)"
proof -
  have "limitOf ref_sdk ref_capped [49] = Some 40"
    by code_simp
  then show ?thesis
    using ref_bonded_step
    by (simp add: app_message_flow [OF known.message_chain_axioms ref_keeper.keeper_axioms] ref_bond_def)
qed

text \<open>
  C37. The demo chain's block end. Whatever the other modules' hooks do, as long as they leave
  a reachable state of the same block, mesh security runs last, on the state they leave; when
  the block end comes through, no recorded validator change is left, and no task of this block
  or an earlier one: what was due, also through the hooks of this very block end, was run. Calls
  into contracts are assumed to record no validator changes (\<open>wasmRuns\<close>).
\<close>

theorem app_end_block:
  assumes "mesh_machine E valid_denom" and "wasmRuns E" and "TotalContractsMaxCap p = Coin d (Some L)"
    and "0 \<le> L" and "module_manager manager" and "mods MMeshsec = Module_EndBlock (NewAppModule cdc E)"
    and "\<And>m s. m \<noteq> MMeshsec \<Longrightarrow> mesh_reachable E p s \<Longrightarrow>
      mesh_reachable E p (snd (mods m s)) \<and> height (snd (mods m s)) = height s"
    and "mesh_reachable E p s" and "height s < 2 ^ 63"
    and "App_EndBlocker manager mods s = (Ok vs, t)"
  shows "\<exists>us u. manager (butlast OrderEndBlockers) mods s = (Ok us, u) \<and> mesh_reachable E p u \<and>
    EndBlocker E DefaultExecutionResponseHandler u = (Ok (), t) \<and> height t = height s \<and>
    pipedOps E t = [] \<and> (\<forall>tp h c. taskAt E t tp h c \<noteq> None \<longrightarrow> height s < h)"
proof -
  obtain us u ws where u: "manager (butlast OrderEndBlockers) mods s = (Ok us, u)"
    and mesh: "mods MMeshsec u = (Ok ws, t)"
    by (rule module_manager.mesh_last [OF assms(5,10)])
  have others: "m \<noteq> MMeshsec" if "m \<in> set (butlast OrderEndBlockers)" for m
    using that by (auto simp: OrderEndBlockers_def)
  have u': "mesh_reachable E p u \<and> height u = height s"
    by (rule module_manager.manager_keeps [OF assms(5) u]) (use assms(7,8) others in auto)
  have run: "EndBlocker E DefaultExecutionResponseHandler u = (Ok (), t)"
    by (rule Module_EndBlock_Ok(1)) (use mesh assms(6) in simp)
  have inv: "meshInv E p L u"
    by (rule mesh_machine.reachable_inv [OF assms(1) _ assms(3,4,2)]) (use u' in simp)
  show ?thesis
    using mesh_machine.EndBlocker_done [OF assms(1) inv assms(2) _ run] u u' run assms(9) by auto
qed

lemma app_end_block_witness:
  "\<exists>t. App_EndBlocker runHooks ref_modules ref_slashed = (Ok [], t) \<and> pipedOps ref_sdk t = [] \<and>
    taskAt ref_sdk t SchedulerTaskValsetUpdate 10 [49] = None"
proof -
  have run: "App_EndBlocker runHooks ref_modules ref_slashed =
      (Ok [], snd (App_EndBlocker runHooks ref_modules ref_slashed))"
    by (metis prod.collapse ref_end_block)
  have h: "height ref_slashed = 10"
    by code_simp
  have mesh: "ref_modules MMeshsec = Module_EndBlock (NewAppModule
      \<lparr>MarshalJSON = \<lambda>_. Ok [], UnmarshalJSON = \<lambda>_. Ok (NewGenesisState ref_params0)\<rparr> ref_sdk)"
    by (simp add: ref_modules_def)
  have "pipedOps ref_sdk (snd (App_EndBlocker runHooks ref_modules ref_slashed)) = [] \<and>
    (\<forall>tp h c. taskAt ref_sdk (snd (App_EndBlocker runHooks ref_modules ref_slashed)) tp h c \<noteq> None \<longrightarrow>
      height ref_slashed < h)"
    using app_end_block [OF ref_machine.mesh_machine_axioms ref_wasmRuns ref_total _ hooks.module_manager_axioms
        mesh _ ref_reachable(4) _ run] h
    by (simp add: ref_modules_def act_simps) blast
  then show ?thesis
    using run h by (metis order_less_irrefl)
qed

text \<open>
  The construction of the demo chain is sound: whatever keeper a step of \<open>NewMeshApp\<close> uses
  was constructed by an earlier step, no keeper is constructed twice, every store key is mounted
  and opened by one keeper only, and the wasm keeper, which mesh security gets a pointer to
  before it exists, is constructed in the end.
\<close>

lemma app_wiring:
  assumes "NewMeshApp_steps = xs @ x # ys"
  shows "usedBy x \<subseteq> \<Union> (madeBy ` set xs) \<and> madeBy x \<inter> \<Union> (madeBy ` set xs) = {} \<and>
    openedBy x \<inter> \<Union> (openedBy ` set xs) = {} \<and> (\<forall>k \<in> openedBy x. mounted k) \<and>
    KWasm \<in> \<Union> (madeBy ` set NewMeshApp_steps)"
proof -
  have "KWasm \<in> \<Union> (madeBy ` set NewMeshApp_steps)"
    by (simp add: NewMeshApp_steps_def contractKeepers_def)
  then show ?thesis
    using soundConstruction_step [OF NewMeshApp_sound [unfolded assms]] by blast
qed

lemma app_wiring_witness:
  "{KBank, KStaking} \<subseteq> \<Union> (madeBy ` set (take 14 NewMeshApp_steps))"
proof -
  have "NewMeshApp_steps = take 14 NewMeshApp_steps @
      NewRef KMeshSec [KV MMeshsec, Memory MMeshsec] [KBank, KStaking] [KWasm] # drop 15 NewMeshApp_steps"
    by code_simp
  from app_wiring [OF this] show ?thesis
    by (simp only: usedBy.simps list.set)
qed

text \<open>
  C38. The start of the demo chain, whatever its calls into the SDK do. Either all calls of
  \<open>NewMeshApp\<close> come through, in their order, and the application is returned; or the start ends at
  the first call that does not: with exit code 1 when it is an error of the streaming services, of
  loading the latest version or of the pinned codes, and with a panic otherwise. And before the
  latest version is loaded, all keepers have been constructed, exactly the stores they use have
  been mounted, each once, and all five hooks have been set, while afterwards only the pinned
  codes are initialized.
\<close>

theorem app_startup:
  "((\<exists>t. came_through sdk (map stepOf (NewMeshApp_startup snap latest)) s t \<and>
      NewMeshApp sdk snap latest s = Running t) \<or>
    (\<exists>pre x post u. map stepOf (NewMeshApp_startup snap latest) = pre @ x # post \<and>
      came_through sdk pre s u \<and> (\<forall>t. sdk x u \<noteq> Ok t) \<and>
      NewMeshApp sdk snap latest s =
        (if x \<in> {LoadStreamingServices, LoadLatestVersion, InitializePinnedCodes} \<and> sdk x u \<noteq> Panic
         then Exited 1 else Crashed))) \<and>
   (\<forall>pre post. map stepOf (NewMeshApp_startup snap latest) = pre @ LoadLatestVersion # post \<longrightarrow>
     constructedIn pre = NewMeshApp_steps \<and> distinct (mountedIn pre) \<and>
     set (mountedIn pre) = \<Union> (openedBy ` set NewMeshApp_steps) \<and> (\<forall>h. SetHook h \<in> set pre) \<and>
     post = [InitializePinnedCodes])"
proof (intro conjI allI impI)
  show "(\<exists>t. came_through sdk (map stepOf (NewMeshApp_startup snap latest)) s t \<and>
      NewMeshApp sdk snap latest s = Running t) \<or>
    (\<exists>pre x post u. map stepOf (NewMeshApp_startup snap latest) = pre @ x # post \<and>
      came_through sdk pre s u \<and> (\<forall>t. sdk x u \<noteq> Ok t) \<and>
      NewMeshApp sdk snap latest s =
        (if x \<in> {LoadStreamingServices, LoadLatestVersion, InitializePinnedCodes} \<and> sdk x u \<noteq> Panic
         then Exited 1 else Crashed))"
    by (rule NewMeshApp_cases [of sdk snap latest s]) blast+
next
  fix pre post h
  assume "map stepOf (NewMeshApp_startup snap latest) = pre @ LoadLatestVersion # post"
  from NewMeshApp_load [OF this] show "constructedIn pre = NewMeshApp_steps" "distinct (mountedIn pre)"
    "set (mountedIn pre) = \<Union> (openedBy ` set NewMeshApp_steps)" "SetHook h \<in> set pre"
    "post = [InitializePinnedCodes]"
    by (simp_all add: readyToLoad_def)
qed

text \<open>A chain whose streaming services fail exits; one whose wasm configuration cannot be read panics.\<close>

lemma app_startup_witness:
  "NewMeshApp (\<lambda>x s. if x = LoadStreamingServices then Err ErrUnknown else Ok s) True True () = Exited 1 \<and>
    NewMeshApp (\<lambda>x s. if x = ReadWasmConfig then Err ErrUnknown else Ok s) True True () = Crashed"
proof -
  let ?steps = "map stepOf (NewMeshApp_startup True True)"
  have fails: "\<not> came_through (\<lambda>x s. if x = y then Err ErrUnknown else Ok s) ?steps () t"
    if "y \<in> set ?steps" for y :: startup_step and t
  proof
    assume "came_through (\<lambda>x s. if x = y then Err ErrUnknown else Ok s) ?steps () t"
    then have "y \<notin> set ?steps"
      by induction (auto split: if_splits)
    with that show False by contradiction
  qed
  have "LoadStreamingServices \<in> set ?steps" "ReadWasmConfig \<in> set ?steps"
    by (simp_all add: startup_defs)
  note fails [OF this(1)] fails [OF this(2)]
  then show ?thesis
    using app_startup [of "\<lambda>x s. if x = LoadStreamingServices then Err ErrUnknown else Ok s" True True "()"]
      app_startup [of "\<lambda>x s. if x = ReadWasmConfig then Err ErrUnknown else Ok s" True True "()"]
    by (auto split: if_splits)
qed

text \<open>
  C39. The export for a genesis at height zero: an address on the allow list that is no
  validator address ends it before anything is written. When it comes through, the block height
  is the one it began with, no redelegation or unbonding delegation has a creation height, and
  no signing info a start height, unless the iterator over the validators failed to close, which
  is only logged. And when the stored validators can be read, its loop leaves each one with
  unbonding height zero, and jailed if it was jailed before or if there is an allow list
  without it.
\<close>

theorem zero_height_export:
  assumes "export_tables E"
    and "\<forall>a \<in> set (staking_ValidatorKeys E (h, x)). staking_ValidatorAt E (h, x) a \<noteq> None"
  shows "(\<forall>a \<in> set jailAllowedAddrs. (\<forall>v. x_ValAddressFromBech32 E a \<noteq> Ok v) \<longrightarrow>
      prepForZeroHeightGenesis E jailAllowedAddrs (h, x) = (Panic, (h, x))) \<and>
    (\<forall>u h' x'. prepForZeroHeightGenesis E jailAllowedAddrs (h, x) = (Ok u, (h', x')) \<longrightarrow>
      h' = h \<and> zeroTables E (h', x') \<and>
      ((\<forall>(b, i) \<in> set (slashing_IterateSigningInfos E (h', x')). StartHeight i = 0) \<or>
        (\<exists>err. staking_iter_Close E (h', x') = Err err))) \<and>
    (\<exists>x'. resetValidators E ap allowed (h, x) = (case staking_iter_Close E (h, x') of
        Err err \<Rightarrow> (Ok False, (h, x')) | Panic \<Rightarrow> (Panic, (h, x'))
      | Ok _ \<Rightarrow> bindA (orPanic (staking_ApplyValidatorSetUpdates E)) (\<lambda>_. ret True) (h, x')) \<and>
      (\<forall>b. staking_ValidatorAt E (h, x') b =
        (if b \<in> set (staking_ValidatorKeys E (h, x))
         then map_option (\<lambda>v. v\<lparr>UnbondingHeight := 0, is_jailed := is_jailed v \<or>
             ap \<and> x_ValAddress_String E (ev_operator v) \<notin> allowed\<rparr>) (staking_ValidatorAt E (h, x) b)
         else staking_ValidatorAt E (h, x) b)))"
proof (intro conjI ballI impI allI)
  fix a assume "a \<in> set jailAllowedAddrs" and "\<forall>v. x_ValAddressFromBech32 E a \<noteq> Ok v"
  then show "prepForZeroHeightGenesis E jailAllowedAddrs (h, x) = (Panic, (h, x))"
    using prep_bad_address by metis
next
  fix u h' x' assume run: "prepForZeroHeightGenesis E jailAllowedAddrs (h, x) = (Ok u, (h', x'))"
  show "h' = h" and "zeroTables E (h', x')"
    and "(\<forall>(b, i) \<in> set (slashing_IterateSigningInfos E (h', x')). StartHeight i = 0) \<or>
      (\<exists>err. staking_iter_Close E (h', x') = Err err)"
    using export_tables.prep_zero [OF assms(1) run] by simp_all
qed (use validator_table.resetValidators_eq [OF export_tables.axioms(1) [OF assms(1)] assms(2), of ap allowed]
  in \<open>simp only: zeroValidator_def [abs_def]\<close>)

lemma zero_height_export_witness:
  "prepForZeroHeightGenesis ref_export [''vV'', ''a1''] (10, ref_vals) = (Panic, (10, ref_vals)) \<and>
    zeroTables ref_export (10, ref_zero)"
proof -
  have "\<forall>a \<in> set (staking_ValidatorKeys ref_export (10, ref_vals)).
      staking_ValidatorAt ref_export (10, ref_vals) a \<noteq> None"
    by code_simp
  note export = zero_height_export [OF ref_export_tables.export_tables_axioms this]
  have "\<forall>v. x_ValAddressFromBech32 ref_export ''a1'' \<noteq> Ok v"
    by (simp add: ref_export_def ref_parse_def)
  then show ?thesis
    using export [THEN conjunct1, of "[''vV'', ''a1'']"]
      export [THEN conjunct2, THEN conjunct1, rule_format, OF ref_prep] by simp
qed

section \<open>The command line\<close>

text \<open>
  C40. The command that proposes a max cap sends exactly the proposal its arguments and flags
  describe: the one message with the contract and the parsed cap of its two arguments and the
  nonempty authority of its flag, under the title, summary and metadata and with the parsed
  deposit of their flags, for the sender of the client context, once it passed its own
  validation. When arguments and flags describe no such proposal, the command fails and sends
  nothing.
\<close>

theorem proposal_sent:
  "(\<forall>sender title summary metadata depositArg deposit auth contract capArg cap p.
      GetClientTxContext C = Ok sender \<and>
      GetString C ''title'' = Ok title \<and> GetString C ''summary'' = Ok summary \<and>
      GetString C ''metadata'' = Ok metadata \<and>
      GetString C ''deposit'' = Ok depositArg \<and> ParseCoinsNormalized C depositArg = Ok deposit \<and>
      GetString C ''authority'' = Ok auth \<and> auth \<noteq> [] \<and> ParseCoinNormalized C capArg = Ok cap \<and>
      NewMsgSubmitProposal C [\<lparr>msg_Authority = auth, msg_Contract = contract, msg_MaxCap = cap\<rparr>]
        deposit sender metadata title summary = Ok p \<and> Proposal_ValidateBasic C p = Ok () \<longrightarrow>
      proposes C [contract, capArg] p \<and>
      ProposalSetVirtualStakingMaxCapCmd C [contract, capArg] s = GenerateOrBroadcastTxCLI C p s) \<and>
   ((\<nexists>p. proposes C args p) \<longrightarrow>
      (\<exists>r. ProposalSetVirtualStakingMaxCapCmd C args s = (r, s) \<and> (\<forall>u. r \<noteq> Ok u)))"
  using proposal_none [of C args s] proposal_broadcast [OF proposes.intros]
  by (auto intro: proposes.intros)

lemma proposal_sent_witness:
  "ProposalSetVirtualStakingMaxCapCmd ref_cli [''a1'', ''40stake''] [] =
     (Ok (), [([ref_cap ''a1'' 40], [], ''a7'', ''limit'')]) \<and>
   (\<exists>r. ProposalSetVirtualStakingMaxCapCmd ref_cli [''a1'', ''forty''] [] = (r, []) \<and> (\<forall>u. r \<noteq> Ok u))"
proof -
  have "\<nexists>p. proposes ref_cli [''a1'', ''forty''] p"
    by (simp add: proposes.simps ref_cli_def)
  then show ?thesis
    using proposal_sent [of ref_cli "[]" "[''a1'', ''forty'']"]
    by (simp add: ref_cli_def ref_cap_def flag_defs)
qed

text \<open>
  The module's commands reach the user: below the daemon's root command there are the three
  queries and the max cap proposal, whatever the other modules and the SDK add.
\<close>

lemma daemon_commands:
  assumes "basic_manager D"
  shows "{[AppName D, ''query'', ModuleName, ''max-cap-limit''], [AppName D, ''query'', ModuleName, ''max-cap-limits''],
      [AppName D, ''query'', ModuleName, ''params''],
      [AppName D, ''tx'', ModuleName, ''submit-proposal'', ''set-virtual-staking-max-cap'']} \<subseteq>
    set (reachableCommands (rootCommand D))"
  using basic_manager.mesh_commands_reachable [OF assms]
  by (auto simp: GetQueryCmd_def GetTxCmd_def SubmitProposalCmd_def)

lemma daemon_commands_witness:
  "[''meshd'', ''tx'', ModuleName, ''submit-proposal'', ''set-virtual-staking-max-cap''] \<in>
     set (reachableCommands (rootCommand ref_daemon))"
  using daemon_commands [OF ref_basics.basic_manager_axioms] by (simp add: ref_daemon_def)

end
